(* ===== verification/Protocol.thy ===== *)
theory Protocol
  imports Prelude
begin

unbundle bit_operations_syntax

text \<open>
  The constants and types of \<^verbatim>\<open>flipper/protocol/wfr_protocol.h\<close>, shared by the Flipper app and the
  daemon: the transport, the layout of the address byte, the timing, the limits and the credentials.
\<close>

datatype WfrIrProtocol = WfrIrProtocolRC6 | WfrIrProtocolNEC

section \<open>Framing encoded in the address byte\<close>

definition WFR_FRAME_MAGIC :: byte where [wfr_const]: "WFR_FRAME_MAGIC = 0xA0"
definition WFR_FRAME_MAGIC_MASK :: byte where [wfr_const]: "WFR_FRAME_MAGIC_MASK = 0xF0"
definition WFR_FRAME_TYPE_MASK :: byte where [wfr_const]: "WFR_FRAME_TYPE_MASK = 0x0C"
definition WFR_FRAME_PASS_MASK :: byte where [wfr_const]: "WFR_FRAME_PASS_MASK = 0x03"

definition WFR_FRAME_TYPE_START :: byte where [wfr_const]: "WFR_FRAME_TYPE_START = 0x00"
definition WFR_FRAME_TYPE_DATA :: byte where [wfr_const]: "WFR_FRAME_TYPE_DATA = 0x04"
definition WFR_FRAME_TYPE_END :: byte where [wfr_const]: "WFR_FRAME_TYPE_END = 0x08"
definition WFR_FRAME_TYPE_ACK :: byte where [wfr_const]: "WFR_FRAME_TYPE_ACK = 0x0C"

section \<open>Timing and limits\<close>

definition WFR_RC6_INTER_MSG_MS :: nat where [wfr_const]: "WFR_RC6_INTER_MSG_MS = 20"
definition WFR_RC6_RETRANSMIT_GAP_MS :: nat where [wfr_const]: "WFR_RC6_RETRANSMIT_GAP_MS = 200"
definition WFR_RETRANSMIT_COUNT :: nat where [wfr_const]: "WFR_RETRANSMIT_COUNT = 1"
definition WFR_NEC_INTER_MSG_MS :: nat where [wfr_const]: "WFR_NEC_INTER_MSG_MS = 50"
definition WFR_NEC_RETRANSMIT_GAP_MS :: nat where [wfr_const]: "WFR_NEC_RETRANSMIT_GAP_MS = 200"
definition WFR_ACK_TIMEOUT_SEC :: nat where [wfr_const]: "WFR_ACK_TIMEOUT_SEC = 30"

definition WFR_ACK_PREFIX_OK :: string where [wfr_const]: "WFR_ACK_PREFIX_OK = ''OK:''"
definition WFR_ACK_PREFIX_FAIL :: string where [wfr_const]: "WFR_ACK_PREFIX_FAIL = ''FAIL''"

definition WFR_MAX_TOTAL_PAYLOAD :: nat where [wfr_const]: "WFR_MAX_TOTAL_PAYLOAD = 255"
definition WFR_SSID_MAX_LEN :: nat where [wfr_const]: "WFR_SSID_MAX_LEN = 32"
definition WFR_PASS_MAX_LEN :: nat where [wfr_const]: "WFR_PASS_MAX_LEN = 63"

definition WFR_SEC_OPEN :: byte where [wfr_const]: "WFR_SEC_OPEN = 0"
definition WFR_SEC_WPA :: byte where [wfr_const]: "WFR_SEC_WPA = 1"
definition WFR_SEC_WEP :: byte where [wfr_const]: "WFR_SEC_WEP = 2"
definition WFR_SEC_SAE :: byte where [wfr_const]: "WFR_SEC_SAE = 3"

section \<open>Credentials\<close>

text \<open>The two char arrays are their C string values.\<close>

record WfrWifiCreds =
  ssid :: string
  password :: string
  security :: byte
  hidden :: bool

definition zero_creds :: WfrWifiCreds where
  "zero_creds = \<lparr>ssid = [], password = [], security = 0, hidden = False\<rparr>"

text \<open>What the array sizes of the struct allow: the strings fit and hold no NUL.\<close>

definition wf_creds :: "WfrWifiCreds \<Rightarrow> bool" where
  "wf_creds c \<longleftrightarrow> length (ssid c) \<le> WFR_SSID_MAX_LEN \<and> nul_free (ssid c)
     \<and> length (password c) \<le> WFR_PASS_MAX_LEN \<and> nul_free (password c)"

section \<open>Frames\<close>

text \<open>
  A message of the protocol is an address byte and a command byte. \<open>wfr_frames\<close> is the sequence
  the header's comment describes: START with the length, one DATA per byte, END with the CRC.
\<close>

type_synonym frame = "byte \<times> byte"

definition frame_addr :: "byte \<Rightarrow> byte \<Rightarrow> byte" where
  "frame_addr type pass = (WFR_FRAME_MAGIC OR type OR pass)"

definition frame_magic :: "byte \<Rightarrow> bool" where
  "frame_magic a \<longleftrightarrow> a AND WFR_FRAME_MAGIC_MASK = WFR_FRAME_MAGIC"

definition frame_type :: "byte \<Rightarrow> byte" where
  "frame_type a = a AND WFR_FRAME_TYPE_MASK"

definition frame_pass :: "byte \<Rightarrow> byte" where
  "frame_pass a = a AND WFR_FRAME_PASS_MASK"

lemma pass_cases:
  assumes "(pass :: byte) AND WFR_FRAME_PASS_MASK = pass"
  shows "pass \<in> {0, 1, 2, 3}"
proof -
  have "pass AND 3 \<le> 3"
    by (rule word_and_le1)
  with assms have "unat pass \<le> 3"
    by (simp add: wfr_const word_le_nat_alt)
  then have "unat pass \<in> {0, 1, 2, 3}" by auto
  then have "(of_nat (unat pass) :: byte) \<in> of_nat ` {0, 1, 2, 3}"
    by (rule imageI)
  then show ?thesis by simp
qed

lemma frame_addr_fields [simp]:
  assumes "type \<in> {WFR_FRAME_TYPE_START, WFR_FRAME_TYPE_DATA, WFR_FRAME_TYPE_END, WFR_FRAME_TYPE_ACK}"
    and "pass AND WFR_FRAME_PASS_MASK = pass"
  shows "frame_magic (frame_addr type pass)"
    and "frame_type (frame_addr type pass) = type"
    and "frame_pass (frame_addr type pass) = pass"
  using assms(1) pass_cases [OF assms(2)]
  by (auto simp: frame_magic_def frame_type_def frame_pass_def frame_addr_def wfr_const)

end
