(* ===== verification/Crc.thy ===== *)
theory Crc
  imports Prelude
begin

unbundle bit_operations_syntax

text \<open>
  The checksums of \<^verbatim>\<open>flipper/protocol/wfr_protocol.c\<close>: the CRC-8 of every InfraFi payload and the
  CRC-32 helper beside it. Each is a table lookup per byte; the reference definitions
  \<open>crc8_bits\<close> and \<open>crc32_bits\<close> are the bit-serial polynomial divisions the comments name.
\<close>

section \<open>CRC-8\<close>

definition crc8_table :: "byte list" where
  "crc8_table = [
    0x00, 0x07, 0x0E, 0x09, 0x1C, 0x1B, 0x12, 0x15,
    0x38, 0x3F, 0x36, 0x31, 0x24, 0x23, 0x2A, 0x2D,
    0x70, 0x77, 0x7E, 0x79, 0x6C, 0x6B, 0x62, 0x65,
    0x48, 0x4F, 0x46, 0x41, 0x54, 0x53, 0x5A, 0x5D,
    0xE0, 0xE7, 0xEE, 0xE9, 0xFC, 0xFB, 0xF2, 0xF5,
    0xD8, 0xDF, 0xD6, 0xD1, 0xC4, 0xC3, 0xCA, 0xCD,
    0x90, 0x97, 0x9E, 0x99, 0x8C, 0x8B, 0x82, 0x85,
    0xA8, 0xAF, 0xA6, 0xA1, 0xB4, 0xB3, 0xBA, 0xBD,
    0xC7, 0xC0, 0xC9, 0xCE, 0xDB, 0xDC, 0xD5, 0xD2,
    0xFF, 0xF8, 0xF1, 0xF6, 0xE3, 0xE4, 0xED, 0xEA,
    0xB7, 0xB0, 0xB9, 0xBE, 0xAB, 0xAC, 0xA5, 0xA2,
    0x8F, 0x88, 0x81, 0x86, 0x93, 0x94, 0x9D, 0x9A,
    0x27, 0x20, 0x29, 0x2E, 0x3B, 0x3C, 0x35, 0x32,
    0x1F, 0x18, 0x11, 0x16, 0x03, 0x04, 0x0D, 0x0A,
    0x57, 0x50, 0x59, 0x5E, 0x4B, 0x4C, 0x45, 0x42,
    0x6F, 0x68, 0x61, 0x66, 0x73, 0x74, 0x7D, 0x7A,
    0x89, 0x8E, 0x87, 0x80, 0x95, 0x92, 0x9B, 0x9C,
    0xB1, 0xB6, 0xBF, 0xB8, 0xAD, 0xAA, 0xA3, 0xA4,
    0xF9, 0xFE, 0xF7, 0xF0, 0xE5, 0xE2, 0xEB, 0xEC,
    0xC1, 0xC6, 0xCF, 0xC8, 0xDD, 0xDA, 0xD3, 0xD4,
    0x69, 0x6E, 0x67, 0x60, 0x75, 0x72, 0x7B, 0x7C,
    0x51, 0x56, 0x5F, 0x58, 0x4D, 0x4A, 0x43, 0x44,
    0x19, 0x1E, 0x17, 0x10, 0x05, 0x02, 0x0B, 0x0C,
    0x21, 0x26, 0x2F, 0x28, 0x3D, 0x3A, 0x33, 0x34,
    0x4E, 0x49, 0x40, 0x47, 0x52, 0x55, 0x5C, 0x5B,
    0x76, 0x71, 0x78, 0x7F, 0x6A, 0x6D, 0x64, 0x63,
    0x3E, 0x39, 0x30, 0x37, 0x22, 0x25, 0x2C, 0x2B,
    0x06, 0x01, 0x08, 0x0F, 0x1A, 0x1D, 0x14, 0x13,
    0xAE, 0xA9, 0xA0, 0xA7, 0xB2, 0xB5, 0xBC, 0xBB,
    0x96, 0x91, 0x98, 0x9F, 0x8A, 0x8D, 0x84, 0x83,
    0xDE, 0xD9, 0xD0, 0xD7, 0xC2, 0xC5, 0xCC, 0xCB,
    0xE6, 0xE1, 0xE8, 0xEF, 0xFA, 0xFD, 0xF4, 0xF3
  ]"

definition wfr_crc8_step :: "byte \<Rightarrow> byte \<Rightarrow> byte" where
  "wfr_crc8_step crc b = crc8_table ! unat (crc XOR b)"

definition wfr_crc8 :: "byte list \<Rightarrow> byte" where
  "wfr_crc8 data = foldl wfr_crc8_step 0x00 data"

text \<open>The bit-serial division by \<open>x^8 + x^2 + x + 1\<close> (polynomial 0x07).\<close>

definition crc8_shift :: "byte \<Rightarrow> byte" where
  "crc8_shift x = (if bit x 7 then push_bit 1 x XOR 0x07 else push_bit 1 x)"

definition crc8_bits :: "byte \<Rightarrow> byte" where
  "crc8_bits x = (crc8_shift ^^ 8) x"

lemma length_crc8_table [simp]: "length crc8_table = 256"
  by (simp add: crc8_table_def)

lemma crc8_table_bits: "map crc8_bits all_bytes = crc8_table"
  by (simp add: all_bytes_def crc8_bits_def funpow8 crc8_shift_def crc8_table_def)

lemma crc8_table_nth: "crc8_table ! unat b = crc8_bits b"
proof -
  have "map crc8_bits all_bytes ! unat b = crc8_bits b"
    by (simp add: all_bytes_eq)
  then show ?thesis by (simp add: crc8_table_bits)
qed

lemma crc8_shift_bit0: "bit (crc8_shift x) 0 \<longleftrightarrow> bit x 7"
  by (simp add: crc8_shift_def bit_simps del: push_bit_Suc One_nat_def)

lemma inj_crc8_shift: "inj crc8_shift"
proof (rule injI)
  fix x y assume eq: "crc8_shift x = crc8_shift y"
  then have top: "bit x 7 \<longleftrightarrow> bit y 7"
    by (metis crc8_shift_bit0)
  have p: "push_bit 1 x = push_bit 1 y"
  proof (cases "bit x 7")
    case True
    with top eq have "push_bit 1 x XOR 7 = push_bit 1 y XOR 7"
      by (simp add: crc8_shift_def del: push_bit_Suc One_nat_def)
    then show ?thesis by (simp only: xor_right_cancel)
  next
    case False
    with top eq show ?thesis
      by (simp add: crc8_shift_def del: push_bit_Suc One_nat_def)
  qed
  show "x = y"
  proof (rule bit_word_eqI)
    fix n assume n: "n < LENGTH(8)"
    show "bit x n \<longleftrightarrow> bit y n"
    proof (cases "n = 7")
      case False
      then have "bit (push_bit 1 x) (Suc n) \<longleftrightarrow> bit x n" "bit (push_bit 1 y) (Suc n) \<longleftrightarrow> bit y n"
        using n by (simp_all add: bit_simps del: push_bit_Suc One_nat_def)
      then show ?thesis using p by simp
    qed (use top in simp)
  qed
qed

lemma inj_crc8_bits: "crc8_bits x = crc8_bits y \<longleftrightarrow> x = y"
  using inj_crc8_shift by (simp add: crc8_bits_def funpow8 inj_eq)

text \<open>One step of the checksum is injective in the running value and in the byte.\<close>

lemma wfr_crc8_step_inj [simp]:
  "wfr_crc8_step c a = wfr_crc8_step c b \<longleftrightarrow> a = b"
  "wfr_crc8_step c a = wfr_crc8_step d a \<longleftrightarrow> c = d"
  by (simp_all add: wfr_crc8_step_def crc8_table_nth inj_crc8_bits xor_left_cancel xor_right_cancel)

lemma foldl_crc8_inj: "foldl wfr_crc8_step c data = foldl wfr_crc8_step d data \<longleftrightarrow> c = d"
  by (induction data arbitrary: c d) auto

text \<open>C31: the table-driven CRC-8 computes the polynomial division by 0x07 for every payload.\<close>

theorem wfr_crc8_polynomial:
  "wfr_crc8 data = foldl (\<lambda>crc b. crc8_bits (crc XOR b)) 0 data"
proof -
  have "wfr_crc8_step = (\<lambda>crc b. crc8_bits (crc XOR b))"
    by (intro ext) (simp add: wfr_crc8_step_def crc8_table_nth)
  then show ?thesis by (simp add: wfr_crc8_def)
qed

lemma wfr_crc8_detects_byte_aux:
  assumes "i < length data" and "b \<noteq> data ! i"
  shows "wfr_crc8 (data[i := b]) \<noteq> wfr_crc8 data"
proof -
  let ?pre = "foldl wfr_crc8_step 0 (take i data)"
  have d: "data = take i data @ data ! i # drop (Suc i) data"
    using assms(1) by (rule id_take_nth_drop)
  have u: "data[i := b] = take i data @ b # drop (Suc i) data"
    using assms(1) by (rule upd_conv_take_nth_drop)
  have "wfr_crc8 data = foldl wfr_crc8_step (wfr_crc8_step ?pre (data ! i)) (drop (Suc i) data)"
    unfolding wfr_crc8_def by (subst d) simp
  moreover have "wfr_crc8 (data[i := b]) = foldl wfr_crc8_step (wfr_crc8_step ?pre b) (drop (Suc i) data)"
    unfolding wfr_crc8_def u by simp
  ultimately show ?thesis using assms(2) by (simp add: foldl_crc8_inj)
qed

text \<open>A payload in which exactly one byte differs has another CRC-8.\<close>

theorem wfr_crc8_detects_byte:
  assumes "i < length data" and "b \<noteq> data ! i"
  shows "wfr_crc8 (data[i := b]) \<noteq> wfr_crc8 data"
  using assms by (rule wfr_crc8_detects_byte_aux)

theorem wfr_crc8_detects_byte_witness:
  "wfr_crc8 ([0x4F, 0x4B, 0x3A][1 := 0x4C]) \<noteq> wfr_crc8 [0x4F, 0x4B, 0x3A]"
  by (rule wfr_crc8_detects_byte) simp_all

lemma wfr_crc8_residue: "wfr_crc8 (data @ [wfr_crc8 data]) = 0"
  by (simp add: wfr_crc8_def wfr_crc8_step_def crc8_table_def)

section \<open>CRC-32\<close>

text \<open>The source's initialiser lists 248 words; C fills the last eight of the 256 with zero.\<close>

definition crc32_table :: "u32 list" where
  "crc32_table = [
    0x00000000, 0x77073096, 0xEE0E612C, 0x990951BA,
    0x076DC419, 0x706AF48F, 0xE963A535, 0x9E6495A3,
    0x0EDB8832, 0x79DCB8A4, 0xE0D5E91B, 0x97D2D98D,
    0x09B64C2B, 0x7EB17CBD, 0xE7B82D09, 0x90BF1D9F,
    0x1DB71064, 0x6AB020F2, 0xF3B97148, 0x84BE41DE,
    0x1ADAD47D, 0x6DDDE4EB, 0xF4D4B551, 0x83D385C7,
    0x136C9856, 0x646BA8C0, 0xFD62F97A, 0x8A65C9EC,
    0x14015C4F, 0x63066CD9, 0xFA0F3D63, 0x8D080DF5,
    0x3B6E20C8, 0x4C69105E, 0xD56041E4, 0xA2677172,
    0x3C03E4D1, 0x4B04D447, 0xD20D85FD, 0xA50AB56B,
    0x35B5A8FA, 0x42B2986C, 0xDBBBE9D6, 0xACBCF940,
    0x32D86CE3, 0x45DF5C75, 0xDCD60DCF, 0xABD13D59,
    0x26D930AC, 0x51DE003A, 0xC8D75180, 0xBFD06116,
    0x21B4F6B5, 0x56B3C423, 0xCFBA9599, 0xB8BDA50F,
    0x2802B89E, 0x5F058808, 0xC60CD9B2, 0xB10BE924,
    0x2F6F7C87, 0x58684C11, 0xC1611DAB, 0xB6662D3D,
    0x76DC4190, 0x01DB7106, 0x98D220BC, 0xEFD5102A,
    0x71B18589, 0x06B6B51F, 0x9FBFE4A5, 0xE8B8D433,
    0x7807C9A2, 0x0F00F934, 0x9609A88E, 0xE10E9818,
    0x7F6A0DBB, 0x086D3D2D, 0x91646C97, 0xE6635C01,
    0x6B6B51F4, 0x1C6C6162, 0x856530D8, 0xF262004E,
    0x6C0695ED, 0x1B01A57B, 0x8208F4C1, 0xF50FC457,
    0x65B0D9C6, 0x12B7E950, 0x8ABEE5FE, 0xFDBE9468,
    0x63CAFF75, 0x14CDCFE3, 0x8DC4BE59, 0xFAC39ECF,
    0x27B70A85, 0x50B0DB13, 0xC9B9A8A9, 0xBEBEC13F,
    0x20D2669C, 0x57D5560A, 0xCED63AB0, 0xB9D10A26,
    0x2968B7B7, 0x5E6FA021, 0xC766F113, 0xB061C187,
    0x2E054524, 0x59027712, 0xC00B26A8, 0xB70C163E,
    0x3A07ACED, 0x4D009C7B, 0xD409CBC1, 0xA30EFB57,
    0x3D6EF5F4, 0x4A69C562, 0xD3609CD8, 0xA467AC4E,
    0x346ED9DF, 0x4369E949, 0xDA60B8F3, 0xAD67D865,
    0x33034AC6, 0x44042D50, 0xDD0D7CEA, 0xAA0A4C5C,
    0xEDB88320, 0x9ABFB3B6, 0x03B6E20C, 0x74B1D29A,
    0xEAD54739, 0x9DD277AF, 0x04DB2615, 0x73DC1683,
    0xE3630B12, 0x94643B84, 0x0D6D6A3E, 0x7A6A5AA8,
    0xE40ECF0B, 0x9309FF9D, 0x0A00AE27, 0x7D079EB1,
    0xF00F9344, 0x8708A3D2, 0x1E01F268, 0x6906C2FE,
    0xF762575D, 0x806567CB, 0x196C3671, 0x6E6B06E7,
    0xFED41B76, 0x89D32BE0, 0x10DA7A5A, 0x67DD4ACC,
    0xF9B9DF6F, 0x8EBEEFF9, 0x17B7BE43, 0x60B08ED5,
    0xD6D6A3E8, 0xA1D1937E, 0x38D8C2C4, 0x4FDFF252,
    0xD1BB67F1, 0xA6BC5767, 0x3FB506DD, 0x48B2364B,
    0xD80D2BDA, 0xAF0A1B4C, 0x36034AF6, 0x41047A60,
    0xDF60EFC3, 0xA8670955, 0x316E5850, 0x466952E7,
    0xD9B9A45A, 0xAEB2A4CC, 0x37BF5576, 0x40B865E0,
    0xDBB2C843, 0xACB5F8D5, 0x35B2096F, 0x42B53FF9,
    0xCFB5FFE8, 0xB8B84B6E, 0x21B11AD4, 0x56B62742,
    0xCEB2F0E1, 0xB9B5C077, 0x200EB1CD, 0x570EF85B,
    0xC7B1ECCA, 0xB0B6DC5C, 0x29BFACE6, 0x5EB8C870,
    0xC0DC5DD3, 0xB7DB6D45, 0x2ED47EFF, 0x59D34E69,
    0xD4D34D04, 0xA3D47D92, 0x3ADD2C28, 0x4DDA1CBE,
    0xD3BE891D, 0xA4B9B98B, 0x3DB0E831, 0x4AB7D8A7,
    0xDA085636, 0xAD0F66A0, 0x340617FA, 0x4301276C,
    0xDD658BCF, 0xAA62BB59, 0x336381E3, 0x44644B75,
    0xA9F6D880, 0xDE91E816, 0x47984FAC, 0x30953B3A,
    0xAEF1AE99, 0xD9F69E0F, 0x40FF0FB5, 0x37F83F23,
    0xA74728B2, 0xD0401824, 0x4949499E, 0x3E4E7908,
    0xA02AECAB, 0xD72DDC3D, 0x4E24CD87, 0x39239D11,
    0xB4A3BCC4, 0xC3A48C52, 0x5AAD3DE8, 0x2DAA0D7E,
    0xB3CE98DD, 0xC4C9A84B, 0x5DC0F9F1, 0x2AC7C967,
    0xBA7874F6, 0xCD7F4460, 0x547815DA, 0x2377254C,
    0xBD13B0EF, 0xCA14A079, 0x533DF1C3, 0x24322055
  ] @ replicate 8 0"

definition wfr_crc32_step :: "u32 \<Rightarrow> byte \<Rightarrow> u32" where
  "wfr_crc32_step crc b =
     crc32_table ! unat ((crc XOR ucast b) AND 0xFF) XOR drop_bit 8 crc"

definition wfr_crc32 :: "byte list \<Rightarrow> u32" where
  "wfr_crc32 data = foldl wfr_crc32_step 0xFFFFFFFF data XOR 0xFFFFFFFF"


definition crc32_shift :: "u32 \<Rightarrow> u32" where
  "crc32_shift x = (if bit x 0 then drop_bit 1 x XOR 0xEDB88320 else drop_bit 1 x)"

definition crc32_bits :: "u32 \<Rightarrow> u32" where
  "crc32_bits x = (crc32_shift ^^ 8) x"

definition crc32_reference :: "byte list \<Rightarrow> u32" where
  "crc32_reference data =
     foldl (\<lambda>crc b. crc32_bits ((crc XOR ucast b) AND 0xFF) XOR drop_bit 8 crc)
       0xFFFFFFFF data XOR 0xFFFFFFFF"



lemma crc32_reference_check:
  "crc32_reference (map byte_of_char ''123456789'') = 0xCBF43926"
  by (simp add: byte_of_char_def crc32_reference_def funpow8 crc32_bits_def crc32_shift_def)

lemma wfr_crc32_check:
  "wfr_crc32 (map byte_of_char ''123456789'') = 0x7B956A97"
  by (simp add: byte_of_char_def wfr_crc32_def wfr_crc32_step_def crc32_table_def)

text \<open>
  The CRC-32 helper is not the Ethernet CRC-32 its comment names: it differs from it on the
  standard check string, and it gives the two one-byte messages 0 and 1 the same checksum, because
  the last eight entries of its table are missing from the initialiser and are zero.
\<close>

theorem wfr_crc32_not_ethernet:
  "wfr_crc32 (map byte_of_char ''123456789'') \<noteq> crc32_reference (map byte_of_char ''123456789'')
   \<and> wfr_crc32 [0] = wfr_crc32 [1]"
proof -
  have "wfr_crc32 [0] = wfr_crc32 [1]"
    by (simp add: wfr_crc32_def wfr_crc32_step_def crc32_table_def)
  then show ?thesis
    by (simp only: wfr_crc32_check crc32_reference_check) simp
qed

end
