(* ===== verification/Framing.thy ===== *)
theory Framing
  imports Protocol Crc
begin

text \<open>
  The framing contract both decoders of the program implement. \<open>wfr_frames\<close> is the frame sequence of
  one transmission. \<open>reassembly\<close> is the abstract state of a receiver: idle, or holding the announced
  length and the bytes received since START; \<open>spec_feed\<close> says what one frame does to it. The locale
  \<open>frame_decoder\<close> states what a concrete decoder promises (a simulation of \<open>spec_feed\<close> while its
  timeout has not expired, a reset when it has); its lemmas are proved once and hold for the daemon's
  decoder and for the Flipper's ACK decoder.
\<close>

definition wfr_frames :: "byte \<Rightarrow> byte list \<Rightarrow> frame list" where
  "wfr_frames pass payload =
     (frame_addr WFR_FRAME_TYPE_START pass, of_nat (length payload))
     # map (\<lambda>b. (frame_addr WFR_FRAME_TYPE_DATA pass, b)) payload
     @ [(frame_addr WFR_FRAME_TYPE_END pass, wfr_crc8 payload)]"

datatype reassembly = Idle | Receiving byte "byte list"

definition spec_feed :: "reassembly \<Rightarrow> frame \<Rightarrow> nat \<Rightarrow> reassembly \<times> int \<times> string option" where
  "spec_feed st f n = (case f of (addr, cmd) \<Rightarrow>
     if \<not> frame_magic addr then (st, 0, None)
     else if frame_type addr = WFR_FRAME_TYPE_START then
       (if cmd = 0 then (st, -1, None) else (Receiving cmd [], 0, None))
     else if frame_type addr = WFR_FRAME_TYPE_DATA then
       (case st of
          Idle \<Rightarrow> (st, 0, None)
        | Receiving len bs \<Rightarrow>
            (if length bs < unat len then (Receiving len (bs @ [cmd]), 0, None) else (st, 0, None)))
     else if frame_type addr = WFR_FRAME_TYPE_END then
       (case st of
          Idle \<Rightarrow> (st, 0, None)
        | Receiving len bs \<Rightarrow>
            (if length bs \<noteq> unat len then (st, 0, None)
             else if wfr_crc8 bs \<noteq> cmd then (Receiving len [], 0, None)
             else if n \<le> unat len then (Idle, -1, None)
             else (Idle, int (unat len), Some (map char_of_byte bs))))
     else (st, 0, None))"

text \<open>A whole run: the payloads delivered, in order.\<close>

definition delivered :: "int \<times> string option \<Rightarrow> string list" where
  "delivered r = (if fst r > 0 then case snd r of None \<Rightarrow> [] | Some s \<Rightarrow> [s] else [])"

fun spec_all :: "reassembly \<Rightarrow> frame list \<Rightarrow> nat \<Rightarrow> reassembly \<times> string list" where
  "spec_all st [] n = (st, [])"
| "spec_all st (f # fs) n =
     (let (st', r) = spec_feed st f n; (st'', outs) = spec_all st' fs n
      in (st'', delivered r @ outs))"

lemma spec_all_append:
  "spec_all st (fs @ gs) n =
     (let (st', outs) = spec_all st fs n; (st'', outs') = spec_all st' gs n in (st'', outs @ outs'))"
  by (induction fs arbitrary: st) (auto split: prod.splits)

section \<open>One frame\<close>

lemma type_distinct [simp]:
  "WFR_FRAME_TYPE_DATA \<noteq> WFR_FRAME_TYPE_START" "WFR_FRAME_TYPE_END \<noteq> WFR_FRAME_TYPE_START"
  "WFR_FRAME_TYPE_END \<noteq> WFR_FRAME_TYPE_DATA" "WFR_FRAME_TYPE_ACK \<noteq> WFR_FRAME_TYPE_START"
  "WFR_FRAME_TYPE_ACK \<noteq> WFR_FRAME_TYPE_DATA" "WFR_FRAME_TYPE_ACK \<noteq> WFR_FRAME_TYPE_END"
  by (simp_all add: wfr_const)

lemmas type_distinct_sym [simp] = type_distinct [symmetric]

abbreviation is_pass :: "byte \<Rightarrow> bool" where
  "is_pass p \<equiv> p AND WFR_FRAME_PASS_MASK = p"

lemma spec_feed_noise [simp]: "\<not> frame_magic a \<Longrightarrow> spec_feed st (a, c) n = (st, 0, None)"
  by (simp add: spec_feed_def)

lemma spec_feed_start [simp]:
  "is_pass p \<Longrightarrow> c \<noteq> 0 \<Longrightarrow>
   spec_feed st (frame_addr WFR_FRAME_TYPE_START p, c) n = (Receiving c [], 0, None)"
  by (simp add: spec_feed_def)

lemma spec_feed_data [simp]:
  "is_pass p \<Longrightarrow> spec_feed st (frame_addr WFR_FRAME_TYPE_DATA p, c) n =
     (case st of Idle \<Rightarrow> (Idle, 0, None)
      | Receiving len bs \<Rightarrow>
          (if length bs < unat len then Receiving len (bs @ [c]) else Receiving len bs, 0, None))"
  by (simp add: spec_feed_def split: reassembly.splits)

lemma spec_feed_end [simp]:
  "is_pass p \<Longrightarrow> spec_feed st (frame_addr WFR_FRAME_TYPE_END p, c) n =
     (case st of Idle \<Rightarrow> (Idle, 0, None)
      | Receiving len bs \<Rightarrow>
          if length bs \<noteq> unat len then (Receiving len bs, 0, None)
          else if wfr_crc8 bs \<noteq> c then (Receiving len [], 0, None)
          else if n \<le> unat len then (Idle, -1, None)
          else (Idle, int (unat len), Some (map char_of_byte bs)))"
  by (simp add: spec_feed_def split: reassembly.splits)

text \<open>A payload is delivered only by an END frame that closes a complete, checksum-correct one.\<close>

lemma spec_feed_delivers:
  assumes "delivered (snd (spec_feed st f n)) = s # ss"
  shows "ss = [] \<and> (\<exists>len bs. st = Receiving len bs \<and> length bs = unat len \<and> s = map char_of_byte bs
    \<and> wfr_crc8 bs = snd f \<and> unat len < n)
    \<and> frame_magic (fst f) \<and> frame_type (fst f) = WFR_FRAME_TYPE_END"
  using assms
  by (auto simp: spec_feed_def delivered_def split: prod.splits if_splits reassembly.splits)

lemma delivered_simps [simp]:
  "delivered (0, x) = []" "delivered (-1, x) = []"
  "0 < i \<Longrightarrow> delivered (i, Some s) = [s]"
  by (simp_all add: delivered_def)

section \<open>A transmission\<close>

lemma spec_all_data:
  assumes "is_pass p" and "length bs + length data \<le> unat len"
  shows "spec_all (Receiving len bs) (map (\<lambda>b. (frame_addr WFR_FRAME_TYPE_DATA p, b)) data) n
       = (Receiving len (bs @ data), [])"
  using assms(2)
proof (induction data arbitrary: bs)
  case (Cons b data)
  then have "spec_all (Receiving len (bs @ [b])) (map (\<lambda>b. (frame_addr WFR_FRAME_TYPE_DATA p, b)) data) n
      = (Receiving len ((bs @ [b]) @ data), [])"
    by (intro Cons.IH) simp
  with Cons.prems assms(1) show ?case by simp
qed simp

lemma spec_all_data_idle:
  assumes "is_pass p"
  shows "spec_all Idle (map (\<lambda>b. (frame_addr WFR_FRAME_TYPE_DATA p, b)) data) n = (Idle, [])"
  using assms by (induction data) auto

lemma length_byte:
  assumes "payload \<noteq> []" and "length payload \<le> 255"
  shows "(of_nat (length payload) :: byte) \<noteq> 0"
    and "unat (of_nat (length payload) :: byte) = length payload"
proof -
  show u: "unat (of_nat (length payload) :: byte) = length payload"
    using assms(2) by (intro unat_byte_of_nat) simp
  show "(of_nat (length payload) :: byte) \<noteq> 0"
    using u assms(1) by (metis length_0_conv unat_0)
qed

text \<open>From any state, a complete transmission delivers its payload and leaves the receiver idle.\<close>

lemma spec_all_frames:
  assumes "is_pass p" and "payload \<noteq> []" and "length payload \<le> 255" and "255 < n"
  shows "spec_all st (wfr_frames p payload) n = (Idle, [map char_of_byte payload])"
proof -
  note len = length_byte [OF assms(2,3)]
  have d: "spec_all (Receiving (of_nat (length payload)) []) (map (\<lambda>b. (frame_addr WFR_FRAME_TYPE_DATA p, b)) payload) n
      = (Receiving (of_nat (length payload)) payload, [])"
    using assms(1) len by (subst spec_all_data) auto
  have "0 < length payload" using assms(2) by simp
  with d len assms show ?thesis
    by (simp add: wfr_frames_def spec_all_append)
qed

text \<open>Frames without the magic nibble change nothing.\<close>

lemma spec_all_noise:
  "spec_all st fs n = spec_all st (filter (\<lambda>f. frame_magic (fst f)) fs) n"
proof (induction fs arbitrary: st)
  case (Cons f fs)
  then show ?case by (cases f) (auto simp del: spec_feed_start spec_feed_data spec_feed_end split: prod.splits)
qed simp

section \<open>Lost, corrupted and cut transmissions\<close>

lemma spec_all_no_start:
  assumes "\<And>f. f \<in> set fs \<Longrightarrow> frame_type (fst f) \<noteq> WFR_FRAME_TYPE_START"
  shows "spec_all Idle fs n = (Idle, [])"
  using assms
proof (induction fs)
  case (Cons f fs)
  then have "spec_feed Idle f n = (Idle, 0, None)"
    by (cases f) (force simp: spec_feed_def)
  with Cons show ?case by simp
qed simp

lemma subseq_mapD:
  assumes "subseq xs (map f ys)"
  shows "\<exists>zs. xs = map f zs \<and> subseq zs ys"
  using assms
proof (induction ys arbitrary: xs)
  case Nil
  then show ?case by (cases xs) (auto elim: list_emb.cases)
next
  case (Cons y ys)
  show ?case
  proof (cases "subseq xs (map f ys)")
    case True
    with Cons.IH show ?thesis by (meson list_emb_Cons)
  next
    case False
    with Cons.prems obtain xs' where "xs = f y # xs'" "subseq xs' (map f ys)"
      by (cases xs) (auto split: if_splits)
    with Cons.IH show ?thesis by (metis list.simps(9) subseq_Cons2)
  qed
qed

text \<open>
  Losing frames of a transmission never corrupts it: a receiver that hears any subsequence of the
  frames delivers the payload itself or nothing.
\<close>

lemma spec_all_loss:
  assumes p: "is_pass p" and pl: "payload \<noteq> []" "length payload \<le> 255"
    and sub: "subseq fs (wfr_frames p payload)"
  shows "snd (spec_all Idle fs n) \<in> {[], [map char_of_byte payload]}"
proof -
  let ?D = "\<lambda>b. (frame_addr WFR_FRAME_TYPE_DATA p, b)"
  let ?s = "(frame_addr WFR_FRAME_TYPE_START p, of_nat (length payload) :: byte)"
  let ?e = "(frame_addr WFR_FRAME_TYPE_END p, wfr_crc8 payload)"
  note len = length_byte [OF pl]
  show ?thesis
  proof (cases "subseq fs (map ?D payload @ [?e])")
    case True
    have "frame_type (fst f) \<noteq> WFR_FRAME_TYPE_START" if "f \<in> set fs" for f
    proof -
      have "f \<in> set (map ?D payload @ [?e])"
        using list_emb_set [OF True that] by auto
      with p show ?thesis by auto
    qed
    then show ?thesis by (simp add: spec_all_no_start)
  next
    case False
    with sub obtain fs' where fs: "fs = ?s # fs'" and "subseq fs' (map ?D payload @ [?e])"
      by (cases fs) (auto simp: wfr_frames_def split: if_splits)
    then obtain ds es where fs': "fs' = ds @ es" and ds: "subseq ds (map ?D payload)"
      and es: "subseq es [?e]"
      by (metis subseq_appendE)
    obtain data where ds': "ds = map ?D data" and sd: "subseq data payload"
      using subseq_mapD [OF ds] by blast
    have "length data \<le> length payload" using sd by (rule list_emb_length)
    then have d: "spec_all (Receiving (of_nat (length payload)) []) ds n
        = (Receiving (of_nat (length payload)) data, [])"
      unfolding ds' using p len by (subst spec_all_data) auto
    have "es = [] \<or> es = [?e]"
      using es by (cases es) (auto split: if_splits)
    moreover have "data = payload" if "length data = length payload"
      using sd that by (rule subseq_same_length)
    ultimately show ?thesis
      using p len d unfolding fs fs'
      by (auto simp: spec_all_append delivered_def)
  qed
qed

text \<open>A single wrong payload byte is caught by the checksum; the receiver waits for another pass.\<close>

lemma spec_all_corrupt:
  assumes p: "is_pass p" and pl: "length payload \<le> 255" and i: "i < length payload" and b: "b \<noteq> payload ! i"
  shows "spec_all st ((wfr_frames p payload)[Suc i := (frame_addr WFR_FRAME_TYPE_DATA p, b)]) n
       = (Receiving (of_nat (length payload)) [], [])"
proof -
  let ?D = "\<lambda>b. (frame_addr WFR_FRAME_TYPE_DATA p, b)"
  have ne: "payload \<noteq> []" using i by auto
  note len = length_byte [OF ne pl]
  have w: "(wfr_frames p payload)[Suc i := ?D b]
      = (frame_addr WFR_FRAME_TYPE_START p, of_nat (length payload))
        # map ?D (payload[i := b]) @ [(frame_addr WFR_FRAME_TYPE_END p, wfr_crc8 payload)]"
    using i by (simp add: wfr_frames_def list_update_append map_update)
  have d: "spec_all (Receiving (of_nat (length payload)) []) (map ?D (payload[i := b])) n
      = (Receiving (of_nat (length payload)) (payload[i := b]), [])"
    using p len by (subst spec_all_data) auto
  show ?thesis
    unfolding w using d p len wfr_crc8_detects_byte_aux [OF i b]
    by (simp add: spec_all_append)
qed

text \<open>A transmission that stops before its END frame delivers nothing.\<close>

lemma spec_all_cut:
  assumes p: "is_pass p" and pl: "payload \<noteq> []" "length payload \<le> 255" and k: "k \<le> length payload"
  shows "snd (spec_all st (take (Suc k) (wfr_frames p payload)) n) = []"
proof -
  let ?D = "\<lambda>b. (frame_addr WFR_FRAME_TYPE_DATA p, b)"
  note len = length_byte [OF pl]
  have w: "take (Suc k) (wfr_frames p payload)
      = (frame_addr WFR_FRAME_TYPE_START p, of_nat (length payload)) # map ?D (take k payload)"
    using k by (simp add: wfr_frames_def take_map)
  have "spec_all (Receiving (of_nat (length payload)) []) (map ?D (take k payload)) n
      = (Receiving (of_nat (length payload)) (take k payload), [])"
    using p len by (subst spec_all_data) auto
  then show ?thesis
    unfolding w using p len by simp
qed

section \<open>The decoder contract\<close>

text \<open>
  \<open>feed t d addr cmd out_size\<close> is a decoder's step at clock readings \<open>t\<close>: the new decoder, the
  C return value, and what is written to \<^verbatim>\<open>out\<close>.
\<close>

type_synonym ('t, 'd) feeder = "'t \<Rightarrow> 'd \<Rightarrow> byte \<Rightarrow> byte \<Rightarrow> nat \<Rightarrow> 'd \<times> int \<times> string option"

fun feed_all :: "('t, 'd) feeder \<Rightarrow> 'd \<Rightarrow> ('t \<times> frame) list \<Rightarrow> nat \<Rightarrow> 'd \<times> string list" where
  "feed_all feed d [] n = (d, [])"
| "feed_all feed d ((t, a, c) # fs) n =
     (let (d', r) = feed t d a c n; (d'', outs) = feed_all feed d' fs n
      in (d'', delivered r @ outs))"

text \<open>No step of the run finds the transmission it is in expired.\<close>

fun in_time :: "('t, 'd) feeder \<Rightarrow> ('t \<Rightarrow> 'd \<Rightarrow> bool) \<Rightarrow> 'd \<Rightarrow> ('t \<times> frame) list \<Rightarrow> nat \<Rightarrow> bool" where
  "in_time feed expired d [] n = True"
| "in_time feed expired d ((t, a, c) # fs) n =
     (\<not> expired t d \<and> in_time feed expired (fst (feed t d a c n)) fs n)"

locale frame_decoder =
  fixes feed :: "('t, 'd) feeder"
    and expired :: "'t \<Rightarrow> 'd \<Rightarrow> bool"
    and absd :: "'d \<Rightarrow> reassembly"
    and invar :: "'d \<Rightarrow> bool"
  assumes invar_feed: "invar d \<Longrightarrow> invar (fst (feed t d a c n))"
    and feed_expired: "invar d \<Longrightarrow> expired t d \<Longrightarrow>
      absd (fst (feed t d a c n)) = Idle \<and> snd (feed t d a c n) = (-1, None)"
    and feed_live: "invar d \<Longrightarrow> \<not> expired t d \<Longrightarrow>
      (absd (fst (feed t d a c n)), snd (feed t d a c n)) = spec_feed (absd d) (a, c) n"
    and expired_busy: "expired t d \<Longrightarrow> absd d \<noteq> Idle"
begin

lemma invar_feed_all: "invar d \<Longrightarrow> invar (fst (feed_all feed d fs n))"
proof (induction fs arbitrary: d)
  case (Cons f fs)
  obtain t a c where f: "f = (t, a, c)" by (cases f) auto
  have "invar (fst (feed_all feed (fst (feed t d a c n)) fs n))"
    using Cons.prems by (intro Cons.IH invar_feed)
  then show ?case by (simp add: f case_prod_beta)
qed simp

lemma feed_all_refines:
  assumes "invar d" and "in_time feed expired d fs n"
  shows "(absd (fst (feed_all feed d fs n)), snd (feed_all feed d fs n))
       = spec_all (absd d) (map snd fs) n"
  using assms
proof (induction fs arbitrary: d)
  case (Cons f fs)
  obtain t a c where f: "f = (t, a, c)" by (cases f) auto
  obtain d' r where fd: "feed t d a c n = (d', r)" by (cases "feed t d a c n") auto
  have step: "(absd d', r) = spec_feed (absd d) (a, c) n"
    using feed_live [of d t a c n] Cons.prems f fd by simp
  have "invar d'" using invar_feed [of d t a c n] Cons.prems fd by simp
  moreover have "in_time feed expired d' fs n" using Cons.prems f fd by simp
  ultimately have "(absd (fst (feed_all feed d' fs n)), snd (feed_all feed d' fs n))
      = spec_all (absd d') (map snd fs) n"
    by (rule Cons.IH)
  with step show ?case
    by (simp add: f fd split: prod.splits) (metis fst_conv snd_conv)
qed simp

lemma feed_all_outputs:
  assumes "invar d" and "in_time feed expired d fs n"
  shows "snd (feed_all feed d fs n) = snd (spec_all (absd d) (map snd fs) n)"
  using feed_all_refines [OF assms] by (metis snd_conv)

text \<open>Whatever was received before, a complete transmission in time is delivered.\<close>

lemma complete_transmission:
  assumes "invar d" and "in_time feed expired d fs n"
    and "filter (\<lambda>f. frame_magic (fst f)) (map snd fs) = wfr_frames p payload"
    and "is_pass p" and "payload \<noteq> []" and "length payload \<le> 255" and "255 < n"
  shows "snd (feed_all feed d fs n) = [map char_of_byte payload]"
  using feed_all_outputs [OF assms(1,2)] spec_all_frames [OF assms(4-7)] assms(3)
  by (simp add: spec_all_noise [of _ "map snd fs"])

lemma lossy_transmission:
  assumes "invar d" and "absd d = Idle" and "in_time feed expired d fs n"
    and "subseq (map snd fs) (wfr_frames p payload)"
    and "is_pass p" and "payload \<noteq> []" and "length payload \<le> 255"
  shows "snd (feed_all feed d fs n) \<in> {[], [map char_of_byte payload]}"
  using feed_all_outputs [OF assms(1,3)] spec_all_loss [OF assms(5-7,4)] assms(2) by simp

lemma corrupt_transmission:
  assumes "invar d" and "in_time feed expired d fs n"
    and "map snd fs = (wfr_frames p payload)[Suc i := (frame_addr WFR_FRAME_TYPE_DATA p, b)]"
    and "is_pass p" and "length payload \<le> 255" and "i < length payload" and "b \<noteq> payload ! i"
  shows "snd (feed_all feed d fs n) = []"
  using feed_all_outputs [OF assms(1,2)] spec_all_corrupt [OF assms(4-7)] assms(3) by simp

lemma cut_transmission:
  assumes "invar d" and "in_time feed expired d fs n"
    and "map snd fs = take (Suc k) (wfr_frames p payload)"
    and "is_pass p" and "payload \<noteq> []" and "length payload \<le> 255" and "k \<le> length payload"
  shows "snd (feed_all feed d fs n) = []"
  using feed_all_outputs [OF assms(1,2)] spec_all_cut [OF assms(4-7)] assms(3) by simp

lemma delivers_checked:
  assumes "invar d" and "delivered (snd (feed t d a c n)) = s # ss"
  shows "ss = [] \<and> (\<exists>len bs. absd d = Receiving len bs \<and> length bs = unat len
    \<and> s = map char_of_byte bs \<and> wfr_crc8 bs = c \<and> unat len < n)
    \<and> frame_magic a \<and> frame_type a = WFR_FRAME_TYPE_END"
proof (cases "expired t d")
  case True
  with assms show ?thesis using feed_expired [of d t a c n] by simp
next
  case False
  then have "snd (feed t d a c n) = snd (spec_feed (absd d) (a, c) n)"
    using feed_live [of d t a c n] assms(1) by (metis snd_conv)
  with assms(2) show ?thesis using spec_feed_delivers [of "absd d" "(a, c)" n s ss] by simp
qed

text \<open>Without an END frame nothing is delivered, whatever the clock says.\<close>

lemma no_end_nothing:
  assumes "invar d"
    and "\<And>f. f \<in> set fs \<Longrightarrow> frame_magic (fst (snd f)) \<Longrightarrow> frame_type (fst (snd f)) \<noteq> WFR_FRAME_TYPE_END"
  shows "snd (feed_all feed d fs n) = []"
  using assms
proof (induction fs arbitrary: d)
  case (Cons f fs)
  obtain t a c where f: "f = (t, a, c)" by (cases f) auto
  have "delivered (snd (feed t d a c n)) = []"
  proof (cases "delivered (snd (feed t d a c n))")
    case (Cons s ss)
    note d = this
    from delivers_checked [OF Cons.prems(1) d] have False
      using Cons.prems(2) [of f] f by simp
    then show ?thesis ..
  qed simp
  moreover have "snd (feed_all feed (fst (feed t d a c n)) fs n) = []"
    using Cons.prems by (intro Cons.IH invar_feed) auto
  ultimately show ?case by (simp add: f case_prod_beta)
qed simp

end

section \<open>Decoders with a clock\<close>

text \<open>
  A run is within the window when every clock reading of its timeout checks is near every stamp its
  STARTs can take; a decoder whose pending stamp is near them too never expires in such a run.
\<close>

definition in_window :: "('t \<Rightarrow> 's \<Rightarrow> bool) \<Rightarrow> ('t \<Rightarrow> 's) \<Rightarrow> ('t \<times> frame) list \<Rightarrow> bool" where
  "in_window near stamp fs \<longleftrightarrow> list_all (\<lambda>f. list_all (\<lambda>g. near (fst f) (stamp (fst g))) fs) fs"

locale timed_decoder = frame_decoder feed expired absd invar
  for feed :: "('t, 'd) feeder" and expired :: "'t \<Rightarrow> 'd \<Rightarrow> bool"
    and absd :: "'d \<Rightarrow> reassembly" and invar :: "'d \<Rightarrow> bool" +
  fixes stamp :: "'t \<Rightarrow> 's" and start :: "'d \<Rightarrow> 's" and near :: "'t \<Rightarrow> 's \<Rightarrow> bool"
  assumes expired_not_near: "expired t d \<Longrightarrow> \<not> near t (start d)"
    and start_feed: "\<not> expired t d \<Longrightarrow> absd (fst (feed t d a c n)) \<noteq> Idle \<Longrightarrow>
      start (fst (feed t d a c n)) = stamp t
      \<or> absd d \<noteq> Idle \<and> start (fst (feed t d a c n)) = start d"
begin

lemma in_time_window_aux:
  assumes "\<And>f g. f \<in> set fs \<Longrightarrow> g \<in> set gs \<Longrightarrow> near (fst f) (stamp (fst g))"
    and "absd d \<noteq> Idle \<Longrightarrow> list_all (\<lambda>f. near (fst f) (start d)) fs"
    and "set fs \<subseteq> set gs"
  shows "in_time feed expired d fs n"
  using assms
proof (induction fs arbitrary: d)
  case (Cons f fs)
  obtain t a c where f: "f = (t, a, c)" by (cases f) auto
  let ?d = "fst (feed t d a c n)"
  have live: "\<not> expired t d"
  proof
    assume x: "expired t d"
    then have "absd d \<noteq> Idle" by (rule expired_busy)
    with Cons.prems(2) f have "near t (start d)" by simp
    with expired_not_near [OF x] show False by simp
  qed
  have s: "list_all (\<lambda>g. near (fst g) (start ?d)) fs" if busy: "absd ?d \<noteq> Idle"
    unfolding list_all_iff
  proof
    fix g assume g: "g \<in> set fs"
    have "f \<in> set gs" using Cons.prems(3) by simp
    then have "near (fst g) (stamp t)"
      using Cons.prems(1) [of g f] g f by simp
    moreover have "near (fst g) (start d)" if "absd d \<noteq> Idle"
      using Cons.prems(2) that g by (simp add: list_all_iff)
    ultimately show "near (fst g) (start ?d)"
      using start_feed [OF live busy] by auto
  qed
  have "in_time feed expired ?d fs n"
    using Cons.prems s by (intro Cons.IH) auto
  with live f show ?case by simp
qed simp

lemma in_time_window:
  assumes "in_window near stamp fs"
    and "absd d \<noteq> Idle \<Longrightarrow> list_all (\<lambda>f. near (fst f) (start d)) fs"
  shows "in_time feed expired d fs n"
  using assms by (intro in_time_window_aux [of fs fs]) (auto simp: in_window_def list_all_iff)

end

end
