(* ===== verification/Wifi_String.thy ===== *)
theory Wifi_String
  imports Protocol
begin

text \<open>
  The WiFi QR string of \<^verbatim>\<open>flipper/protocol/wfr_protocol.c\<close>:
  \<^verbatim>\<open>wfr_build_wifi_string\<close> prints credentials, \<^verbatim>\<open>wfr_parse_wifi_string\<close> reads them back.
  The output buffer \<^verbatim>\<open>out\<close> with its cursor \<^verbatim>\<open>pos\<close> is the string written so far, whose length
  is \<^verbatim>\<open>pos\<close>; the 0 and -1 returns of the C functions are \<open>None\<close>.
\<close>

section \<open>Printing\<close>

definition wfr_needs_escape :: "char \<Rightarrow> bool" where
  "wfr_needs_escape c \<longleftrightarrow>
     c = CHR 0x5C \<or> c = CHR '';'' \<or> c = CHR '':'' \<or> c = CHR 0x22 \<or> c = CHR '',''"

fun wfr_escape_append :: "string \<Rightarrow> nat \<Rightarrow> string \<Rightarrow> string" where
  "wfr_escape_append out mx [] = out"
| "wfr_escape_append out mx (c # str) =
     (if length out < mx - 1 then
        if wfr_needs_escape c then
          if length out + 2 > mx - 1 then out
          else wfr_escape_append (out @ [CHR 0x5C, c]) mx str
        else wfr_escape_append (out @ [c]) mx str
      else out)"

definition sec_str :: "byte \<Rightarrow> string" where
  "sec_str sec =
     (if sec = WFR_SEC_WPA then ''WPA''
      else if sec = WFR_SEC_WEP then ''WEP''
      else if sec = WFR_SEC_SAE then ''SAE''
      else ''nopass'')"

definition hidden_str :: "bool \<Rightarrow> string" where
  "hidden_str h = (if h then '';H:true;;'' else '';H:false;;'')"

definition wfr_build_wifi_string :: "WfrWifiCreds \<Rightarrow> nat \<Rightarrow> string option" where
  "wfr_build_wifi_string creds out_size =
     (if out_size < 16 then None else
      let prefix = ''WIFI:T:''; sec = sec_str (security creds) in
      if length prefix \<ge> out_size then None else
      let out = prefix in
      if length out + length sec + 3 \<ge> out_size then None else
      let out = out @ sec @ '';S:'';
          out = wfr_escape_append out out_size (ssid creds) in
      if length out + 3 \<ge> out_size then None else
      let out = out @ '';P:'';
          out = wfr_escape_append out out_size (password creds);
          hid = hidden_str (hidden creds) in
      if length out + length hid \<ge> out_size then None else
      Some (out @ hid))"

section \<open>Parsing\<close>

text \<open>
  The inner loop of \<^verbatim>\<open>wfr_extract_field\<close>: copy from \<^verbatim>\<open>p\<close> up to the first unescaped semicolon,
  at most \<open>room\<close> chars. A backslash that ends the string is copied as it is.
\<close>

fun copy_value :: "nat \<Rightarrow> string \<Rightarrow> string" where
  "copy_value 0 p = []"
| "copy_value (Suc room) [] = []"
| "copy_value (Suc room) (c # p) =
     (if c = CHR 0x5C \<and> p \<noteq> [] then hd p # copy_value room (tl p)
      else if c = CHR '';'' then []
      else c # copy_value room p)"

fun wfr_extract_field :: "string \<Rightarrow> string \<Rightarrow> nat \<Rightarrow> string option" where
  "wfr_extract_field [] key out_size = None"
| "wfr_extract_field (c # p) key out_size =
     (if strncmp_eq (c # p) key (length key)
      then Some (copy_value (out_size - 1) (drop (length key) (c # p)))
      else wfr_extract_field p key out_size)"

definition wfr_parse_wifi_string :: "string \<Rightarrow> WfrWifiCreds option" where
  "wfr_parse_wifi_string str =
     (if \<not> strncmp_eq str ''WIFI:'' 5 then None else
      let creds = zero_creds in
      case wfr_extract_field str ''T:'' 16 of
        None \<Rightarrow> None
      | Some type_buf \<Rightarrow>
          let creds = creds\<lparr>security :=
            (if type_buf = ''WPA'' then WFR_SEC_WPA
             else if type_buf = ''WEP'' then WFR_SEC_WEP
             else if type_buf = ''SAE'' then WFR_SEC_SAE
             else WFR_SEC_OPEN)\<rparr> in
          (case wfr_extract_field str ''S:'' (WFR_SSID_MAX_LEN + 1) of
             None \<Rightarrow> None
           | Some s \<Rightarrow>
               let creds = creds\<lparr>ssid := s\<rparr> in
               if ssid creds = [] then None else
               let creds = (case wfr_extract_field str ''P:'' (WFR_PASS_MAX_LEN + 1) of
                              None \<Rightarrow> creds
                            | Some pw \<Rightarrow> creds\<lparr>password := pw\<rparr>);
                   creds = (case wfr_extract_field str ''H:'' 8 of
                              None \<Rightarrow> creds
                            | Some hb \<Rightarrow> creds\<lparr>hidden := (hb = ''true'')\<rparr>)
               in Some creds))"

section \<open>Escaping\<close>

text \<open>What \<^verbatim>\<open>wfr_escape_append\<close> writes when the buffer has room for it.\<close>

fun escape :: "string \<Rightarrow> string" where
  "escape [] = []"
| "escape (c # str) = (if wfr_needs_escape c then [CHR 0x5C, c] else [c]) @ escape str"

lemma length_escape: "length (escape str) \<le> 2 * length str"
  by (induction str) auto

lemma nul_free_escape [simp]: "nul_free (escape str) = nul_free str"
  by (induction str) auto

lemma escape_append_fits:
  "length out + length (escape str) \<le> mx - 1 \<Longrightarrow>
   wfr_escape_append out mx str = out @ escape str"
  by (induction out mx str rule: wfr_escape_append.induct) auto

lemma escape_append_bound:
  "length out \<le> mx - 1 \<Longrightarrow> length (wfr_escape_append out mx str) \<le> mx - 1"
  by (induction out mx str rule: wfr_escape_append.induct) auto

lemma copy_value_escape:
  "length str \<le> room \<Longrightarrow> copy_value room (escape str @ CHR '';'' # rest) = str"
proof (induction str arbitrary: room)
  case Nil
  then show ?case by (cases room) auto
next
  case (Cons c str)
  then obtain room' where r: "room = Suc room'" by (cases room) auto
  with Cons have "copy_value room' (escape str @ CHR '';'' # rest) = str" by simp
  with r show ?case by (auto simp: wfr_needs_escape_def)
qed

lemma copy_value_bound: "length (copy_value room p) \<le> room"
  by (induction room p rule: copy_value.induct) auto

lemma copy_value_nul_free: "nul_free p \<Longrightarrow> nul_free (copy_value room p)"
proof (induction room p rule: copy_value.induct)
  case (3 room c p)
  then show ?case by (cases p) auto
qed auto

lemma extract_field_bound:
  "wfr_extract_field p key n = Some v \<Longrightarrow> length v \<le> n - 1"
  by (induction p key n rule: wfr_extract_field.induct)
    (auto simp: copy_value_bound split: if_splits)

lemma extract_field_nul_free:
  "wfr_extract_field p key n = Some v \<Longrightarrow> nul_free p \<Longrightarrow> nul_free v"
proof (induction p key n rule: wfr_extract_field.induct)
  case (2 c p key n)
  then show ?case
    by (auto intro!: copy_value_nul_free nul_free_drop simp del: drop_Suc_Cons split: if_splits)
qed simp

text \<open>A two-char key \<open>k:\<close> never occurs inside an escaped value: its colons are all escaped.\<close>

lemma hd_escape_not_colon: "hd (escape str @ CHR '';'' # rest) \<noteq> CHR '':''"
  by (cases str) (auto simp: wfr_needs_escape_def)

lemma extract_skip_char:
  assumes "rest \<noteq> []" and "c \<noteq> k \<or> hd rest \<noteq> CHR '':''"
  shows "wfr_extract_field (c # rest) [k, CHR '':''] n = wfr_extract_field rest [k, CHR '':''] n"
  using assms by (cases rest) (auto simp: strncmp_eq_def)

lemma extract_skip_escape:
  assumes k: "\<not> wfr_needs_escape k"
  shows "wfr_extract_field (escape str @ CHR '';'' # rest) [k, CHR '':''] n
       = wfr_extract_field (CHR '';'' # rest) [k, CHR '':''] n"
proof (induction str)
  case (Cons c str)
  let ?t = "escape str @ CHR '';'' # rest"
  have t: "?t \<noteq> []" "hd ?t \<noteq> CHR '':''" by (simp_all add: hd_escape_not_colon)
  have bs: "k \<noteq> CHR 0x5C" using k by (auto simp: wfr_needs_escape_def)
  have step: "wfr_extract_field (c # ?t) [k, CHR '':''] n = wfr_extract_field ?t [k, CHR '':''] n"
    using t by (intro extract_skip_char) auto
  have "wfr_extract_field (CHR 0x5C # c # ?t) [k, CHR '':''] n = wfr_extract_field (c # ?t) [k, CHR '':''] n"
    using bs by (intro extract_skip_char) auto
  with step Cons show ?case by auto
qed simp

section \<open>The printed string\<close>

definition wifi_string :: "WfrWifiCreds \<Rightarrow> string" where
  "wifi_string c = ''WIFI:T:'' @ sec_str (security c) @ '';S:'' @ escape (ssid c)
     @ '';P:'' @ escape (password c) @ hidden_str (hidden c)"

lemma sec_str_cases: "sec_str sec \<in> {''WPA'', ''WEP'', ''SAE'', ''nopass''}"
  by (simp add: sec_str_def)

lemma length_sec_str: "length (sec_str sec) \<le> 6"
  using sec_str_cases [of sec] by auto

lemma length_hidden_str: "length (hidden_str h) \<le> 10"
  by (simp add: hidden_str_def)

lemma length_wifi_string:
  assumes "wf_creds c" shows "length (wifi_string c) \<le> 219"
  using assms length_escape [of "ssid c"] length_escape [of "password c"]
    length_sec_str [of "security c"] length_hidden_str [of "hidden c"]
  by (simp add: wifi_string_def wf_creds_def wfr_const)

lemma nul_free_wifi_string: "wf_creds c \<Longrightarrow> nul_free (wifi_string c)"
  using sec_str_cases [of "security c"]
  by (auto simp: wifi_string_def wf_creds_def hidden_str_def)

lemma wifi_string_nonempty: "wifi_string c \<noteq> []"
  by (simp add: wifi_string_def)

lemma build_wifi_string_eq:
  assumes wf: "wf_creds c" and n: "220 \<le> n"
  shows "wfr_build_wifi_string c n = Some (wifi_string c)"
proof -
  have l: "length (escape (ssid c)) \<le> 64" "length (escape (password c)) \<le> 126"
    using wf length_escape [of "ssid c"] length_escape [of "password c"]
    by (simp_all add: wf_creds_def wfr_const)
  have s: "length (sec_str (security c)) \<le> 6" by (rule length_sec_str)
  have h: "length (hidden_str (hidden c)) \<le> 10" by (rule length_hidden_str)
  have e1: "wfr_escape_append (''WIFI:T:'' @ sec_str (security c) @ '';S:'') n (ssid c)
          = ''WIFI:T:'' @ sec_str (security c) @ '';S:'' @ escape (ssid c)"
    using l s n by (subst escape_append_fits) auto
  have e2: "wfr_escape_append ((''WIFI:T:'' @ sec_str (security c) @ '';S:'' @ escape (ssid c)) @ '';P:'') n (password c)
          = ((''WIFI:T:'' @ sec_str (security c) @ '';S:'' @ escape (ssid c)) @ '';P:'') @ escape (password c)"
    using l s n by (subst escape_append_fits) auto
  have "\<not> n < 16" "\<not> n \<le> length ''WIFI:T:''"
    "\<not> n \<le> length ''WIFI:T:'' + length (sec_str (security c)) + 3"
    "\<not> n \<le> length (''WIFI:T:'' @ sec_str (security c) @ '';S:'' @ escape (ssid c)) + 3"
    "\<not> n \<le> length (((''WIFI:T:'' @ sec_str (security c) @ '';S:'' @ escape (ssid c)) @ '';P:'')
        @ escape (password c)) + length (hidden_str (hidden c))"
    using l s h n by simp_all
  then show ?thesis
    unfolding wfr_build_wifi_string_def Let_def e1 e2 by (simp add: wifi_string_def)
qed

section \<open>Reading the printed string\<close>

lemma key_chars [simp]:
  "\<not> wfr_needs_escape CHR ''S''" "\<not> wfr_needs_escape CHR ''P''" "\<not> wfr_needs_escape CHR ''H''"
  by (simp_all add: wfr_needs_escape_def)

lemma escape_sec_str: "escape (sec_str sec) = sec_str sec"
  using sec_str_cases [of sec] by (auto simp: wfr_needs_escape_def)

lemma extract_security:
  "wfr_extract_field (wifi_string c) ''T:'' 16 = Some (sec_str (security c))"
proof -
  have "copy_value 15 (escape (sec_str (security c)) @ CHR '';'' # rest) = sec_str (security c)" for rest
    using length_sec_str [of "security c"] by (intro copy_value_escape) simp
  then show ?thesis
    by (simp add: wifi_string_def strncmp_eq_def escape_sec_str)
qed

lemma extract_ssid:
  assumes "length (ssid c) \<le> 32"
  shows "wfr_extract_field (wifi_string c) ''S:'' 33 = Some (ssid c)"
proof -
  have "copy_value 32 (escape (ssid c) @ CHR '';'' # rest) = ssid c" for rest
    using assms by (rule copy_value_escape)
  then show ?thesis
    using sec_str_cases [of "security c"]
    by (auto simp: wifi_string_def strncmp_eq_def)
qed

lemma extract_past_ssid:
  assumes "k \<in> {CHR ''P'', CHR ''H''}"
  shows "wfr_extract_field (wifi_string c) [k, CHR '':''] n
       = wfr_extract_field (CHR '';'' # ''P:'' @ escape (password c) @ hidden_str (hidden c)) [k, CHR '':''] n"
proof -
  have "wfr_extract_field (wifi_string c) [k, CHR '':''] n
      = wfr_extract_field (escape (ssid c) @ CHR '';'' # ''P:'' @ escape (password c) @ hidden_str (hidden c)) [k, CHR '':''] n"
    using assms sec_str_cases [of "security c"]
    by (auto simp: wifi_string_def strncmp_eq_def)
  also have "\<dots> = wfr_extract_field (CHR '';'' # ''P:'' @ escape (password c) @ hidden_str (hidden c)) [k, CHR '':''] n"
    using assms by (intro extract_skip_escape) auto
  finally show ?thesis .
qed

lemma extract_password:
  assumes "length (password c) \<le> 63"
  shows "wfr_extract_field (wifi_string c) ''P:'' 64 = Some (password c)"
proof -
  obtain rest where h: "hidden_str (hidden c) = CHR '';'' # rest"
    by (cases "hidden c") (auto simp: hidden_str_def)
  have "copy_value 63 (escape (password c) @ CHR '';'' # rest) = password c"
    using assms by (rule copy_value_escape)
  then show ?thesis
    by (simp add: extract_past_ssid h strncmp_eq_def)
qed

lemma extract_hidden:
  "wfr_extract_field (wifi_string c) ''H:'' 8 = Some (if hidden c then ''true'' else ''false'')"
proof -
  have "wfr_extract_field (wifi_string c) ''H:'' 8
      = wfr_extract_field (escape (password c) @ hidden_str (hidden c)) ''H:'' 8"
    by (simp add: extract_past_ssid strncmp_eq_def)
  also have "\<dots> = wfr_extract_field (hidden_str (hidden c)) ''H:'' 8"
    using extract_skip_escape [of "CHR ''H''" "password c"]
    by (simp add: hidden_str_def)
  also have "\<dots> = Some (if hidden c then ''true'' else ''false'')"
    by (simp add: hidden_str_def strncmp_eq_def numeral_eq_Suc)
  finally show ?thesis .
qed

text \<open>The security value the parser recovers: unknown values are printed, and read, as open.\<close>

definition norm_security :: "byte \<Rightarrow> byte" where
  "norm_security sec =
     (if sec \<in> {WFR_SEC_WPA, WFR_SEC_WEP, WFR_SEC_SAE} then sec else WFR_SEC_OPEN)"

lemma parse_wifi_string:
  assumes "wf_creds c" and "ssid c \<noteq> []"
  shows "wfr_parse_wifi_string (wifi_string c) = Some (c\<lparr>security := norm_security (security c)\<rparr>)"
proof -
  have "strncmp_eq (wifi_string c) ''WIFI:'' 5"
    by (simp add: strncmp_eq_def wifi_string_def)
  then show ?thesis
    using assms
    by (simp add: wfr_parse_wifi_string_def extract_security extract_ssid extract_password
        extract_hidden wf_creds_def WFR_SSID_MAX_LEN_def WFR_PASS_MAX_LEN_def zero_creds_def
        Let_def) (auto simp: sec_str_def norm_security_def wfr_const)
qed

section \<open>Properties\<close>

text \<open>
  C14: printing credentials into the 256-byte payload buffer always succeeds, and parsing the printed
  string gives the same SSID, password and hidden flag, whatever special characters they hold; the
  security type is kept, an unknown one being read as open.
\<close>

theorem wifi_string_roundtrip:
  assumes "wf_creds c" and "ssid c \<noteq> []"
  shows "Option.bind (wfr_build_wifi_string c (WFR_MAX_TOTAL_PAYLOAD + 1)) wfr_parse_wifi_string
       = Some (c\<lparr>security := norm_security (security c)\<rparr>)"
  using assms by (simp add: build_wifi_string_eq parse_wifi_string WFR_MAX_TOTAL_PAYLOAD_def)

definition sample_creds :: WfrWifiCreds where
  "sample_creds = \<lparr>ssid = ''a;b:P:c'', password = [CHR 0x5C, CHR '';'', CHR ''H'', CHR '':'', CHR 0x22],
     security = 3, hidden = True\<rparr>"

theorem wifi_string_roundtrip_witness:
  "Option.bind (wfr_build_wifi_string sample_creds (WFR_MAX_TOTAL_PAYLOAD + 1)) wfr_parse_wifi_string
   = Some sample_creds"
  using wifi_string_roundtrip [of sample_creds]
  by (simp add: sample_creds_def wf_creds_def norm_security_def wfr_const)

text \<open>
  Whatever the credentials and the buffer size, a string that \<^verbatim>\<open>wfr_build_wifi_string\<close>
  reports leaves room for its terminating NUL in the buffer.
\<close>

theorem build_wifi_string_fits:
  assumes "wfr_build_wifi_string c n = Some s"
  shows "length s < n \<and> s \<noteq> []"
proof -
  have "hidden_str (hidden c) \<noteq> []" by (simp add: hidden_str_def)
  then show ?thesis
    using assms by (auto simp: wfr_build_wifi_string_def Let_def split: if_splits)
qed

theorem build_wifi_string_fits_witness:
  "wfr_build_wifi_string \<lparr>ssid = ''ab'', password = [], security = 0, hidden = False\<rparr> 40
     = Some ''WIFI:T:nopass;S:ab;P:;H:false;;''
   \<and> length ''WIFI:T:nopass;S:ab;P:;H:false;;'' < 40"
proof -
  have b: "wfr_build_wifi_string \<lparr>ssid = ''ab'', password = [], security = 0, hidden = False\<rparr> 40
      = Some ''WIFI:T:nopass;S:ab;P:;H:false;;''"
    by (simp add: wfr_build_wifi_string_def sec_str_def hidden_str_def wfr_const wfr_needs_escape_def)
  then show ?thesis using build_wifi_string_fits [OF b] by blast
qed

text \<open>
  C25: every string the parser accepts, from whatever sender, gives credentials that fit the arrays
  of the struct, with a nonempty SSID and one of the four security types.
\<close>

theorem parse_wifi_string_wf:
  assumes "wfr_parse_wifi_string str = Some c" and "nul_free str"
  shows "wf_creds c \<and> ssid c \<noteq> []
    \<and> security c \<in> {WFR_SEC_OPEN, WFR_SEC_WPA, WFR_SEC_WEP, WFR_SEC_SAE}"
proof -
  obtain ty s where ty: "wfr_extract_field str ''T:'' 16 = Some ty"
    and s: "wfr_extract_field str ''S:'' 33 = Some s" and ne: "s \<noteq> []"
    using assms(1) by (auto simp: wfr_parse_wifi_string_def Let_def WFR_SSID_MAX_LEN_def
        split: if_splits option.splits)
  define pw where "pw = (case wfr_extract_field str ''P:'' 64 of None \<Rightarrow> [] | Some p \<Rightarrow> p)"
  have "length pw \<le> 63 \<and> nul_free pw"
    using extract_field_bound [of str "''P:''" 64] extract_field_nul_free [of str "''P:''" 64] assms(2)
    by (auto simp: pw_def split: option.splits)
  moreover have "length s \<le> 32 \<and> nul_free s"
    using extract_field_bound [OF s] extract_field_nul_free [OF s] assms(2) by simp
  moreover have "ssid c = s \<and> password c = pw
      \<and> security c \<in> {WFR_SEC_OPEN, WFR_SEC_WPA, WFR_SEC_WEP, WFR_SEC_SAE}"
    using assms(1) ty s ne
    by (auto simp: wfr_parse_wifi_string_def Let_def WFR_SSID_MAX_LEN_def WFR_PASS_MAX_LEN_def
        pw_def zero_creds_def split: if_splits option.splits)
  ultimately show ?thesis
    using ne by (simp add: wf_creds_def WFR_SSID_MAX_LEN_def WFR_PASS_MAX_LEN_def)
qed

theorem parse_wifi_string_wf_witness:
  "wfr_parse_wifi_string ''WIFI:S:x;T:WEP;;'' = Some \<lparr>ssid = ''x'', password = [], security = 2, hidden = False\<rparr>
   \<and> wf_creds \<lparr>ssid = ''x'', password = [], security = 2, hidden = False\<rparr>"
proof -
  have p: "wfr_parse_wifi_string ''WIFI:S:x;T:WEP;;''
      = Some \<lparr>ssid = ''x'', password = [], security = 2, hidden = False\<rparr>"
    by (simp add: wfr_parse_wifi_string_def strncmp_eq_def zero_creds_def wfr_const numeral_eq_Suc)
  then show ?thesis using parse_wifi_string_wf [OF p] by simp
qed

end
