(* ===== verification/Encode.thy ===== *)
theory Encode
  imports Framing Wifi_String
begin

unbundle bit_operations_syntax

text \<open>
  The Flipper's transmitter, \<^verbatim>\<open>flipper/wfr_encode.c\<close>. What it does to the world is a log: infrared
  messages handed to the firmware, delays, and the calls of the progress callback. The callback is
  any function of the caller's context; it may change the context, and cancels by returning False.
  \<open>creds\<close> and \<open>progress\<close> are options because the C pointers may be NULL.
\<close>

text \<open>The firmware's protocols other than the two the program uses are one constructor.\<close>

datatype InfraredProtocol = InfraredProtocolRC6 | InfraredProtocolNEC | InfraredProtocolOther nat

record InfraredMessage =
  msg_protocol :: InfraredProtocol
  msg_address :: u32
  msg_command :: u32
  msg_repeat :: bool

datatype tx_action = IrSend InfraredMessage | FuriDelay nat | Report u16 u16

record 'c tx =
  tx_log :: "tx_action list"
  tx_ctx :: 'c

type_synonym 'c progress = "u16 \<Rightarrow> u16 \<Rightarrow> 'c \<Rightarrow> bool \<times> 'c"

definition tx_do :: "tx_action \<Rightarrow> 'c tx \<Rightarrow> 'c tx" where
  "tx_do a st = st\<lparr>tx_log := tx_log st @ [a]\<rparr>"

definition ir_message :: "WfrIrProtocol \<Rightarrow> byte \<Rightarrow> byte \<Rightarrow> InfraredMessage" where
  "ir_message protocol address command =
     \<lparr>msg_protocol = (if protocol = WfrIrProtocolNEC then InfraredProtocolNEC else InfraredProtocolRC6),
      msg_address = ucast address, msg_command = ucast command, msg_repeat = False\<rparr>"

definition wfr_send_ir :: "WfrIrProtocol \<Rightarrow> byte \<Rightarrow> byte \<Rightarrow> 'c tx \<Rightarrow> 'c tx" where
  "wfr_send_ir protocol address command st = tx_do (IrSend (ir_message protocol address command)) st"

text \<open>\<^verbatim>\<open>progress && !progress(sent, total, context)\<close>: the first result says whether to go on.\<close>

definition report :: "'c progress option \<Rightarrow> u16 \<Rightarrow> u16 \<Rightarrow> 'c tx \<Rightarrow> bool \<times> 'c tx" where
  "report progress sent tot st =
     (case progress of
        None \<Rightarrow> (True, st)
      | Some f \<Rightarrow>
          (let (go, ctx) = f sent tot (tx_ctx st)
           in (go, (tx_do (Report sent tot) st)\<lparr>tx_ctx := ctx\<rparr>)))"

fun send_data ::
  "WfrIrProtocol \<Rightarrow> byte \<Rightarrow> nat \<Rightarrow> 'c progress option \<Rightarrow> u16 \<Rightarrow> nat \<Rightarrow> nat \<Rightarrow> byte list \<Rightarrow> 'c tx
     \<Rightarrow> bool \<times> 'c tx" where
  "send_data protocol pass inter_msg_ms progress tot base i [] st = (True, st)"
| "send_data protocol pass inter_msg_ms progress tot base i (b # bs) st =
     (let st = wfr_send_ir protocol (WFR_FRAME_MAGIC OR WFR_FRAME_TYPE_DATA OR pass) b st;
          st = tx_do (FuriDelay inter_msg_ms) st;
          (go, st) = report progress (of_nat (base + i + 1)) tot st
      in if go then send_data protocol pass inter_msg_ms progress tot base (i + 1) bs st
         else (False, st))"

function transmit_attempts ::
  "WfrIrProtocol \<Rightarrow> nat \<Rightarrow> nat \<Rightarrow> 'c progress option \<Rightarrow> u16 \<Rightarrow> byte list \<Rightarrow> nat \<Rightarrow> 'c tx
     \<Rightarrow> bool \<times> 'c tx" where
  "transmit_attempts protocol inter_msg_ms retransmit_gap_ms progress tot payload attempt st =
     (if attempt < WFR_RETRANSMIT_COUNT then
        let pass = of_nat attempt AND WFR_FRAME_PASS_MASK;
            st = wfr_send_ir protocol (WFR_FRAME_MAGIC OR WFR_FRAME_TYPE_START OR pass)
                   (of_nat (length payload)) st;
            st = tx_do (FuriDelay inter_msg_ms) st;
            (ok, st) = send_data protocol pass inter_msg_ms progress tot
                         (attempt * length payload) 0 payload st
        in if \<not> ok then (False, st) else
           let st = wfr_send_ir protocol (WFR_FRAME_MAGIC OR WFR_FRAME_TYPE_END OR pass)
                      (wfr_crc8 payload) st;
               st = (if attempt + 1 < WFR_RETRANSMIT_COUNT
                     then tx_do (FuriDelay retransmit_gap_ms) st else st)
           in transmit_attempts protocol inter_msg_ms retransmit_gap_ms progress tot payload
                (attempt + 1) st
      else (True, st))"
  by pat_completeness auto
termination
  by (relation "measure (\<lambda>(_, _, _, _, _, _, attempt, _). WFR_RETRANSMIT_COUNT - attempt)") auto

declare transmit_attempts.simps [simp del]

definition wfr_transmit_credentials ::
  "WfrWifiCreds option \<Rightarrow> WfrIrProtocol \<Rightarrow> 'c progress option \<Rightarrow> 'c tx \<Rightarrow> bool \<times> 'c tx" where
  "wfr_transmit_credentials creds protocol progress st =
     (case creds of
        None \<Rightarrow> (False, st)
      | Some c \<Rightarrow>
          if ssid c = [] then (False, st)
          else (case wfr_build_wifi_string c (WFR_MAX_TOTAL_PAYLOAD + 1) of
                  None \<Rightarrow> (False, st)
                | Some wifi_str \<Rightarrow>
                    if length wifi_str > 255 then (False, st) else
                    let payload = map byte_of_char wifi_str;
                        inter_msg_ms = (if protocol = WfrIrProtocolNEC
                          then WFR_NEC_INTER_MSG_MS else WFR_RC6_INTER_MSG_MS);
                        retransmit_gap_ms = (if protocol = WfrIrProtocolNEC
                          then WFR_NEC_RETRANSMIT_GAP_MS else WFR_RC6_RETRANSMIT_GAP_MS);
                        tot = of_nat (length payload * WFR_RETRANSMIT_COUNT);
                        (go, st) = report progress 0 tot st
                    in if \<not> go then (False, st)
                       else transmit_attempts protocol inter_msg_ms retransmit_gap_ms progress
                              tot payload 0 st))"

section \<open>What reaches the air\<close>

fun frames_sent :: "tx_action list \<Rightarrow> frame list" where
  "frames_sent [] = []"
| "frames_sent (IrSend m # acts) = (ucast (msg_address m), ucast (msg_command m)) # frames_sent acts"
| "frames_sent (FuriDelay ms # acts) = frames_sent acts"
| "frames_sent (Report s t # acts) = frames_sent acts"

fun reports :: "tx_action list \<Rightarrow> (u16 \<times> u16) list" where
  "reports [] = []"
| "reports (IrSend m # acts) = reports acts"
| "reports (FuriDelay ms # acts) = reports acts"
| "reports (Report s t # acts) = (s, t) # reports acts"

lemma frames_sent_append [simp]: "frames_sent (as @ bs) = frames_sent as @ frames_sent bs"
  by (induction as rule: frames_sent.induct) auto

lemma reports_append [simp]: "reports (as @ bs) = reports as @ reports bs"
  by (induction as rule: reports.induct) auto

lemma ucast_byte [simp]: "(ucast (ucast (b :: byte) :: u32) :: byte) = b"
  by (simp add: ucast_down_ucast_id is_down)

lemma ir_message_fields [simp]:
  "msg_address (ir_message p a c) = ucast a" "msg_command (ir_message p a c) = ucast c"
  by (simp_all add: ir_message_def)

lemma report_frames:
  "report progress s t st = (go, st') \<Longrightarrow> frames_sent (tx_log st') = frames_sent (tx_log st)"
  by (auto simp: report_def tx_do_def split: option.splits prod.splits)

lemma report_effect:
  assumes "report progress s t st = (go, st')"
  shows "tx_log st' = tx_log st @ (if progress = None then [] else [Report s t])"
    and "progress = None \<Longrightarrow> go"
  using assms by (auto simp: report_def tx_do_def split: option.splits prod.splits)

abbreviation data_frames :: "byte \<Rightarrow> byte list \<Rightarrow> frame list" where
  "data_frames pass bs \<equiv> map (\<lambda>b. (frame_addr WFR_FRAME_TYPE_DATA pass, b)) bs"

text \<open>A run of the data loop, cancelled after \<open>k\<close> bytes or complete.\<close>

lemma send_data_effect:
  assumes "send_data protocol pass ms progress tot base i bs st = (ok, st')"
  shows "\<exists>k \<le> length bs. (ok \<longrightarrow> k = length bs) \<and> (bs \<noteq> [] \<longrightarrow> 0 < k)
    \<and> frames_sent (tx_log st') = frames_sent (tx_log st) @ data_frames pass (take k bs)
    \<and> reports (tx_log st') = reports (tx_log st)
        @ (if progress = None then [] else map (\<lambda>j. (of_nat (base + j + 1), tot)) [i..<i + k])"
  using assms
proof (induction protocol pass ms progress tot base i bs st rule: send_data.induct)
  case (1 protocol pass ms progress tot base i st)
  then show ?case by auto
next
  case (2 protocol pass ms progress tot base i b bs st)
  let ?st1 = "tx_do (FuriDelay ms) (wfr_send_ir protocol (WFR_FRAME_MAGIC OR WFR_FRAME_TYPE_DATA OR pass) b st)"
  obtain go st2 where r: "report progress (of_nat (base + i + 1)) tot ?st1 = (go, st2)"
    by (cases "report progress (of_nat (base + i + 1)) tot ?st1")
  have f: "frames_sent (tx_log st2) = frames_sent (tx_log st) @ [(frame_addr WFR_FRAME_TYPE_DATA pass, b)]"
    "reports (tx_log st2) = reports (tx_log st)
       @ (if progress = None then [] else [(of_nat (base + i + 1), tot)])"
    using report_effect(1) [OF r] by (auto simp: tx_do_def wfr_send_ir_def frame_addr_def ir_message_def)
  show ?case
  proof (cases go)
    case False
    then have "ok = False" "st' = st2" using 2(2) r by (auto simp: Let_def)
    with f show ?thesis by (intro exI [of _ 1]) auto
  next
    case True
    then have rest: "send_data protocol pass ms progress tot base (i + 1) bs st2 = (ok, st')"
      using 2(2) r by (simp add: Let_def)
    have "\<exists>k \<le> length bs. (ok \<longrightarrow> k = length bs) \<and> (bs \<noteq> [] \<longrightarrow> 0 < k)
      \<and> frames_sent (tx_log st') = frames_sent (tx_log st2) @ data_frames pass (take k bs)
      \<and> reports (tx_log st') = reports (tx_log st2)
        @ (if progress = None then [] else map (\<lambda>j. (of_nat (base + j + 1), tot)) [i + 1..<i + 1 + k])"
      by (rule 2(1) [OF refl refl r [symmetric] refl True rest])
    then obtain k where k: "k \<le> length bs" "ok \<longrightarrow> k = length bs"
      "frames_sent (tx_log st') = frames_sent (tx_log st2) @ data_frames pass (take k bs)"
      "reports (tx_log st') = reports (tx_log st2)
        @ (if progress = None then [] else map (\<lambda>j. (of_nat (base + j + 1), tot)) [i + 1..<i + 1 + k])"
      by blast
    have "[i..<i + Suc k] = i # [i + 1..<i + 1 + k]"
      by (simp add: upt_conv_Cons)
    with f k show ?thesis by (intro exI [of _ "Suc k"]) auto
  qed
qed

text \<open>The frames of all passes from \<open>attempt\<close> on.\<close>

definition passes :: "byte list \<Rightarrow> nat \<Rightarrow> frame list" where
  "passes payload attempt =
     concat (map (\<lambda>a. wfr_frames (of_nat a AND WFR_FRAME_PASS_MASK) payload) [attempt..<WFR_RETRANSMIT_COUNT])"

lemma passes_step:
  "attempt < WFR_RETRANSMIT_COUNT \<Longrightarrow>
   passes payload attempt = wfr_frames (of_nat attempt AND WFR_FRAME_PASS_MASK) payload @ passes payload (attempt + 1)"
  by (simp add: passes_def upt_conv_Cons)

lemma passes_0 [simp]: "passes payload 0 = wfr_frames 0 payload"
  by (simp add: passes_def WFR_RETRANSMIT_COUNT_def)

lemma cut_frames:
  assumes "k \<le> length payload"
  shows "strict_prefix ((frame_addr WFR_FRAME_TYPE_START p, of_nat (length payload))
    # data_frames p (take k payload)) (wfr_frames p payload @ rest)"
proof -
  have "data_frames p payload = data_frames p (take k payload) @ data_frames p (drop k payload)"
    by (metis append_take_drop_id map_append)
  then show ?thesis
    by (auto simp: wfr_frames_def strict_prefix_def)
qed

lemma transmit_attempts_effect:
  assumes "transmit_attempts protocol ms gap progress tot payload attempt st = (ok, st')"
  shows "\<exists>fs. frames_sent (tx_log st') = frames_sent (tx_log st) @ fs
    \<and> (ok \<longrightarrow> fs = passes payload attempt) \<and> (\<not> ok \<longrightarrow> strict_prefix fs (passes payload attempt))"
  using assms
proof (induction "WFR_RETRANSMIT_COUNT - attempt" arbitrary: attempt st rule: less_induct)
  case less
  note IH = less(1) and run = less(2)
  show ?case
  proof (cases "attempt < WFR_RETRANSMIT_COUNT")
    case False
    then show ?thesis
      using run by (auto simp: transmit_attempts.simps passes_def)
  next
    case less: True
    define p where "p = (of_nat attempt AND WFR_FRAME_PASS_MASK :: byte)"
    define st1 where "st1 = tx_do (FuriDelay ms) (wfr_send_ir protocol
      (WFR_FRAME_MAGIC OR WFR_FRAME_TYPE_START OR p) (of_nat (length payload)) st)"
    obtain go st2 where d: "send_data protocol p ms progress tot (attempt * length payload) 0 payload st1 = (go, st2)"
      by (cases "send_data protocol p ms progress tot (attempt * length payload) 0 payload st1")
    obtain k where k: "k \<le> length payload" "go \<longrightarrow> k = length payload"
      "frames_sent (tx_log st2) = frames_sent (tx_log st1) @ data_frames p (take k payload)"
      using send_data_effect [OF d] by blast
    have f1: "frames_sent (tx_log st1) = frames_sent (tx_log st)
        @ [(frame_addr WFR_FRAME_TYPE_START p, of_nat (length payload))]"
      by (simp add: st1_def tx_do_def wfr_send_ir_def frame_addr_def)
    show ?thesis
    proof (cases go)
      case False
      then have "ok = False" "st' = st2"
        using run less d by (auto simp: transmit_attempts.simps Let_def p_def st1_def)
      moreover have "frames_sent (tx_log st2) = frames_sent (tx_log st)
          @ (frame_addr WFR_FRAME_TYPE_START p, of_nat (length payload)) # data_frames p (take k payload)"
        using k f1 by simp
      ultimately show ?thesis
        using cut_frames [OF k(1), of p] unfolding passes_step [OF less] p_def by auto
    next
      case True
      define st3 where "st3 = wfr_send_ir protocol (WFR_FRAME_MAGIC OR WFR_FRAME_TYPE_END OR p) (wfr_crc8 payload) st2"
      define st4 where "st4 = (if attempt + 1 < WFR_RETRANSMIT_COUNT then tx_do (FuriDelay gap) st3 else st3)"
      have rest: "transmit_attempts protocol ms gap progress tot payload (attempt + 1) st4 = (ok, st')"
        using run less d True
        by (auto simp: transmit_attempts.simps [of _ _ _ _ _ _ attempt] Let_def p_def st1_def
            st3_def st4_def split: if_splits)
      have f4: "frames_sent (tx_log st4) = frames_sent (tx_log st) @ wfr_frames p payload"
        using True k f1
        by (simp add: st4_def st3_def tx_do_def wfr_send_ir_def frame_addr_def wfr_frames_def)
      have "\<exists>fs. frames_sent (tx_log st') = frames_sent (tx_log st4) @ fs
        \<and> (ok \<longrightarrow> fs = passes payload (attempt + 1)) \<and> (\<not> ok \<longrightarrow> strict_prefix fs (passes payload (attempt + 1)))"
        using less rest by (intro IH) auto
      with f4 show ?thesis
        unfolding passes_step [OF less] p_def by (auto simp: strict_prefix_def)
    qed
  qed
qed

lemma build_payload:
  assumes "wf_creds c"
  shows "wfr_build_wifi_string c (WFR_MAX_TOTAL_PAYLOAD + 1) = Some (wifi_string c)"
    and "length (wifi_string c) \<le> 255" and "length (wifi_string c) < 65536"
  using build_wifi_string_eq [OF assms, of 256] length_wifi_string [OF assms]
  by (simp_all add: WFR_MAX_TOTAL_PAYLOAD_def)

text \<open>The payload the transmitter sends for credentials.\<close>

definition creds_payload :: "WfrWifiCreds \<Rightarrow> byte list" where
  "creds_payload c = map byte_of_char (wifi_string c)"

lemma creds_payload_props:
  assumes "wf_creds c"
  shows "creds_payload c \<noteq> []" and "length (creds_payload c) \<le> 255"
  using build_payload [OF assms] wifi_string_nonempty [of c] by (simp_all add: creds_payload_def)

lemma transmit_effect:
  assumes wf: "wf_creds c" and "ssid c \<noteq> []"
    and run: "wfr_transmit_credentials (Some c) protocol progress st = (ok, st')"
  shows "\<exists>fs. frames_sent (tx_log st') = frames_sent (tx_log st) @ fs
    \<and> (ok \<longrightarrow> fs = wfr_frames 0 (creds_payload c))
    \<and> (\<not> ok \<longrightarrow> strict_prefix fs (wfr_frames 0 (creds_payload c)))"
proof -
  obtain go st1 where r: "report progress 0 (of_nat (length (creds_payload c) * WFR_RETRANSMIT_COUNT)) st = (go, st1)"
    by (cases "report progress 0 (of_nat (length (creds_payload c) * WFR_RETRANSMIT_COUNT)) st")
  have f1: "frames_sent (tx_log st1) = frames_sent (tx_log st)"
    using report_effect(1) [OF r] by simp
  show ?thesis
  proof (cases go)
    case False
    then have "ok = False" "st' = st1"
      using run assms(2) build_payload [OF wf] r
      by (auto simp: wfr_transmit_credentials_def Let_def creds_payload_def)
    with f1 show ?thesis by (auto simp: strict_prefix_def wfr_frames_def)
  next
    case True
    then obtain ms gap tot where
      "transmit_attempts protocol ms gap progress tot (creds_payload c) 0 st1 = (ok, st')"
      using run assms(2) build_payload [OF wf] r
      by (auto simp: wfr_transmit_credentials_def Let_def creds_payload_def)
    from transmit_attempts_effect [OF this] f1 show ?thesis by simp
  qed
qed

section \<open>A transmission that is not cancelled\<close>

definition never_cancels :: "'c progress option \<Rightarrow> bool" where
  "never_cancels progress \<longleftrightarrow> (\<forall>f s t ctx. progress = Some f \<longrightarrow> fst (f s t ctx))"

lemma report_go [simp]: "never_cancels progress \<Longrightarrow> report progress s t st \<noteq> (False, st')"
  by (auto simp: never_cancels_def report_def split: option.splits prod.splits) (metis fst_conv)

lemma send_data_go:
  assumes "never_cancels progress" and "send_data protocol pass ms progress tot base i bs st = (ok, st')"
  shows "ok"
  using assms
  by (induction protocol pass ms progress tot base i bs st rule: send_data.induct)
    (auto simp: Let_def split: prod.splits if_splits)

text \<open>
  All that such a transmission does, in order: the gap of the protocol stands after every frame but the
  last, and each byte is reported after its gap.
\<close>

definition tell :: "bool \<Rightarrow> nat \<Rightarrow> u16 \<Rightarrow> tx_action list" where
  "tell told j tot = (if told then [Report (of_nat j) tot] else [])"

definition data_log :: "WfrIrProtocol \<Rightarrow> bool \<Rightarrow> nat \<Rightarrow> u16 \<Rightarrow> byte list \<Rightarrow> nat \<Rightarrow> tx_action list" where
  "data_log protocol told gap tot payload j =
     [IrSend (ir_message protocol (frame_addr WFR_FRAME_TYPE_DATA 0) (payload ! j)), FuriDelay gap] @ tell told (j + 1) tot"

definition complete_log :: "WfrIrProtocol \<Rightarrow> bool \<Rightarrow> byte list \<Rightarrow> tx_action list" where
  "complete_log protocol told payload =
     (let gap = (if protocol = WfrIrProtocolNEC then 50 else 20); n = length payload in
      tell told 0 (of_nat n)
      @ [IrSend (ir_message protocol (frame_addr WFR_FRAME_TYPE_START 0) (of_nat n)), FuriDelay gap]
      @ concat (map (data_log protocol told gap (of_nat n) payload) [0..<n])
      @ [IrSend (ir_message protocol (frame_addr WFR_FRAME_TYPE_END 0) (wfr_crc8 payload))])"

lemma send_data_log:
  assumes "never_cancels progress" and "send_data protocol 0 ms progress tot 0 i bs st = (ok, st')"
    and "bs = drop i payload" and "i \<le> length payload"
  shows "tx_log st' = tx_log st @ concat (map (data_log protocol (progress \<noteq> None) ms tot payload) [i..<length payload])"
  using assms(2-4)
proof (induction bs arbitrary: i st)
  case Nil
  then show ?case by simp
next
  case (Cons b bs)
  let ?st1 = "tx_do (FuriDelay ms) (wfr_send_ir protocol (WFR_FRAME_MAGIC OR WFR_FRAME_TYPE_DATA OR 0) b st)"
  obtain go st2 where r: "report progress (of_nat (0 + i + 1)) tot ?st1 = (go, st2)"
    by (cases "report progress (of_nat (0 + i + 1)) tot ?st1")
  with assms(1) have go by (cases go) auto
  then have rest: "send_data protocol 0 ms progress tot 0 (i + 1) bs st2 = (ok, st')"
    using Cons.prems(1) r by (simp add: Let_def)
  have i: "i < length payload"
    using Cons.prems(2,3) by (cases "i = length payload") auto
  have b: "b = payload ! i" "bs = drop (i + 1) payload"
    using Cons.prems(2) Cons_nth_drop_Suc [OF i, symmetric] by simp_all
  have st2: "tx_log st2 = tx_log st @ data_log protocol (progress \<noteq> None) ms tot payload i"
    using report_effect(1) [OF r]
    by (simp add: tx_do_def wfr_send_ir_def frame_addr_def data_log_def tell_def b(1))
  have "[i..<length payload] = i # [i + 1..<length payload]"
    using i by (simp add: upt_conv_Cons)
  then show ?case
    using Cons.IH [OF rest b(2)] i st2 by simp
qed

lemma transmit_attempts_go:
  assumes "never_cancels progress"
    and "transmit_attempts protocol ms gap progress tot payload 0 st = (ok, st')"
  shows "ok
    \<and> reports (tx_log st') = reports (tx_log st)
        @ (if progress = None then [] else map (\<lambda>j. (of_nat (j + 1), tot)) [0..<length payload])
    \<and> tx_log st' = tx_log st
        @ [IrSend (ir_message protocol (frame_addr WFR_FRAME_TYPE_START 0) (of_nat (length payload))), FuriDelay ms]
        @ concat (map (data_log protocol (progress \<noteq> None) ms tot payload) [0..<length payload])
        @ [IrSend (ir_message protocol (frame_addr WFR_FRAME_TYPE_END 0) (wfr_crc8 payload))]"
proof -
  define st1 where "st1 = tx_do (FuriDelay ms)
    (wfr_send_ir protocol (WFR_FRAME_MAGIC OR WFR_FRAME_TYPE_START OR 0) (of_nat (length payload)) st)"
  obtain go st2 where d: "send_data protocol 0 ms progress tot 0 0 payload st1 = (go, st2)"
    by (cases "send_data protocol 0 ms progress tot 0 0 payload st1")
  have go using send_data_go [OF assms(1) d] .
  moreover have "reports (tx_log st2) = reports (tx_log st1)
      @ (if progress = None then [] else map (\<lambda>j. (of_nat (j + 1), tot)) [0..<length payload])"
    using send_data_effect [OF d] \<open>go\<close> by auto
  moreover have "tx_log st2 = tx_log st1
      @ concat (map (data_log protocol (progress \<noteq> None) ms tot payload) [0..<length payload])"
    by (rule send_data_log [OF assms(1) d]) simp_all
  ultimately show ?thesis
    using assms(2) d
    by (auto simp: transmit_attempts.simps WFR_RETRANSMIT_COUNT_def Let_def st1_def
        tx_do_def wfr_send_ir_def frame_addr_def)
qed

lemma transmit_complete:
  assumes wf: "wf_creds c" and ne: "ssid c \<noteq> []" and go: "never_cancels progress"
    and run: "wfr_transmit_credentials (Some c) protocol progress st = (ok, st')"
  shows "ok"
    and "frames_sent (tx_log st') = frames_sent (tx_log st) @ wfr_frames 0 (creds_payload c)"
    and "reports (tx_log st') = reports (tx_log st) @ (if progress = None then []
      else map (\<lambda>j. (of_nat j, of_nat (length (wifi_string c)))) [0..<Suc (length (wifi_string c))])"
    and "tx_log st' = tx_log st @ complete_log protocol (progress \<noteq> None) (creds_payload c)"
proof -
  let ?tot = "of_nat (length (wifi_string c)) :: u16"
  obtain g st1 where r: "report progress 0 ?tot st = (g, st1)"
    by (cases "report progress 0 ?tot st")
  with go have g by (cases g) auto
  define ms where "ms = (if protocol = WfrIrProtocolNEC then WFR_NEC_INTER_MSG_MS else WFR_RC6_INTER_MSG_MS)"
  have "\<exists>gap. transmit_attempts protocol ms gap progress ?tot (creds_payload c) 0 st1 = (ok, st')"
    using run ne build_payload [OF wf] r \<open>g\<close>
    by (auto simp: wfr_transmit_credentials_def Let_def creds_payload_def ms_def WFR_RETRANSMIT_COUNT_def)
  then obtain gap where a: "transmit_attempts protocol ms gap progress ?tot (creds_payload c) 0 st1 = (ok, st')" ..
  note eff = transmit_attempts_go [OF go a]
  show ok using eff by simp
  then show "frames_sent (tx_log st') = frames_sent (tx_log st) @ wfr_frames 0 (creds_payload c)"
    using transmit_effect [OF wf ne run] by auto
  have "map (\<lambda>j. (of_nat j :: u16, ?tot)) [0..<Suc n] = (0, ?tot) # map (\<lambda>j. (of_nat (j + 1), ?tot)) [0..<n]" for n
    by (simp add: upt_conv_Cons map_Suc_upt [symmetric] del: upt_Suc map_Suc_upt)
  then show "reports (tx_log st') = reports (tx_log st) @ (if progress = None then []
      else map (\<lambda>j. (of_nat j, ?tot)) [0..<Suc (length (wifi_string c))])"
    using eff report_effect(1) [OF r] by (auto simp: creds_payload_def simp del: upt_Suc)
  show "tx_log st' = tx_log st @ complete_log protocol (progress \<noteq> None) (creds_payload c)"
    using eff report_effect(1) [OF r]
    by (simp add: complete_log_def tell_def Let_def ms_def creds_payload_def WFR_NEC_INTER_MSG_MS_def WFR_RC6_INTER_MSG_MS_def)
qed

section \<open>Properties\<close>

text \<open>
  C20: a transmission whose callback never cancels succeeds; it puts exactly one START, DATA*, END
  sequence for the printed credentials on the air, reports \<open>0..total\<close> to the callback in order
  against the constant total, and leaves the protocol's gap after every frame but the last; nothing
  else is done, and each byte is reported after the gap that follows it.
\<close>

theorem transmit_complete_run:
  assumes "wf_creds c" and "ssid c \<noteq> []" and "never_cancels progress"
    and "wfr_transmit_credentials (Some c) protocol progress \<lparr>tx_log = [], tx_ctx = ctx\<rparr> = (ok, st')"
  shows "ok
    \<and> frames_sent (tx_log st') = wfr_frames 0 (map byte_of_char (wifi_string c))
    \<and> reports (tx_log st') = (if progress = None then []
        else map (\<lambda>j. (of_nat j, of_nat (length (wifi_string c)))) [0..<Suc (length (wifi_string c))])
    \<and> tx_log st' = complete_log protocol (progress \<noteq> None) (map byte_of_char (wifi_string c))"
  using transmit_complete [OF assms] by (simp add: creds_payload_def)

definition short_creds :: WfrWifiCreds where
  "short_creds = \<lparr>ssid = ''net'', password = ''pw'', security = 1, hidden = False\<rparr>"

lemma short_creds_wf [simp]: "wf_creds short_creds" "ssid short_creds \<noteq> []"
  by (simp_all add: short_creds_def wf_creds_def wfr_const)

lemma short_creds_string: "wifi_string short_creds = ''WIFI:T:WPA;S:net;P:pw;H:false;;''"
  by (simp add: wifi_string_def short_creds_def sec_str_def hidden_str_def wfr_const wfr_needs_escape_def)

theorem transmit_complete_run_witness:
  "\<exists>st'. wfr_transmit_credentials (Some short_creds) WfrIrProtocolNEC (None :: unit progress option)
       \<lparr>tx_log = [], tx_ctx = ()\<rparr> = (True, st')
     \<and> tx_log st' = complete_log WfrIrProtocolNEC False (map byte_of_char ''WIFI:T:WPA;S:net;P:pw;H:false;;'')"
proof -
  obtain ok st' where run: "wfr_transmit_credentials (Some short_creds) WfrIrProtocolNEC
      (None :: unit progress option) \<lparr>tx_log = [], tx_ctx = ()\<rparr> = (ok, st')"
    by fastforce
  have "never_cancels (None :: unit progress option)" by (simp add: never_cancels_def)
  from transmit_complete_run [OF short_creds_wf this run] run show ?thesis
    by (simp add: short_creds_string)
qed

text \<open>
  A transmission that fails or is cancelled, at whatever byte, has sent a proper prefix of the
  frame sequence, so no END frame: it reports False exactly when the receiver cannot have it all.
\<close>

theorem transmit_cancelled_prefix:
  assumes "wf_creds c" and "ssid c \<noteq> []"
    and "wfr_transmit_credentials (Some c) protocol progress \<lparr>tx_log = [], tx_ctx = ctx\<rparr> = (ok, st')"
  shows "prefix (frames_sent (tx_log st')) (wfr_frames 0 (map byte_of_char (wifi_string c)))
    \<and> (ok \<longleftrightarrow> frames_sent (tx_log st') = wfr_frames 0 (map byte_of_char (wifi_string c)))"
  using transmit_effect [OF assms] by (auto simp: creds_payload_def strict_prefix_def)

theorem transmit_cancelled_prefix_witness:
  "let (ok, st') = wfr_transmit_credentials (Some short_creds) WfrIrProtocolRC6
         (Some (\<lambda>s t n. (s < 2, n + 1))) \<lparr>tx_log = [], tx_ctx = 0 :: nat\<rparr>
   in \<not> ok \<and> tx_ctx st' = 3
     \<and> prefix (frames_sent (tx_log st')) (wfr_frames 0 (map byte_of_char (wifi_string short_creds)))"
proof -
  obtain ok st' where run: "wfr_transmit_credentials (Some short_creds) WfrIrProtocolRC6
      (Some (\<lambda>s t n. (s < 2, n + 1))) \<lparr>tx_log = [], tx_ctx = 0 :: nat\<rparr> = (ok, st')"
    by fastforce
  have "\<not> ok \<and> tx_ctx st' = 3"
    using run build_payload [OF short_creds_wf(1)]
    by (auto simp: wfr_transmit_credentials_def short_creds_string transmit_attempts.simps
        report_def tx_do_def wfr_send_ir_def WFR_RETRANSMIT_COUNT_def)
  with transmit_cancelled_prefix [OF short_creds_wf run] run show ?thesis by simp
qed

end
