(* ===== verification/Daemon_Decode.thy ===== *)
theory Daemon_Decode
  imports Framing
begin

unbundle bit_operations_syntax

text \<open>
  The daemon's decoder, \<^verbatim>\<open>daemon/wfr_decode.c\<close>. The two \<^verbatim>\<open>clock_gettime\<close> readings of a step are
  arguments: \<open>now\<close> for the timeout check, \<open>now'\<close> for the stamp of a START. \<^verbatim>\<open>out\<close> is returned as
  what the call writes to it (\<open>None\<close>: nothing).
\<close>

record timespec =
  tv_sec :: int
  tv_nsec :: int

record WfrDecoder =
  payload_buf :: "byte list"
  expected_len :: byte
  write_cursor :: byte
  current_pass :: byte
  in_transmission :: bool
  start_time :: timespec

definition WFR_TIMEOUT_SEC :: int where "WFR_TIMEOUT_SEC = 30"

definition wfr_decode_init :: WfrDecoder where
  "wfr_decode_init = \<lparr>payload_buf = replicate (WFR_MAX_TOTAL_PAYLOAD + 1) 0, expected_len = 0,
     write_cursor = 0, current_pass = 0, in_transmission = False,
     start_time = \<lparr>tv_sec = 0, tv_nsec = 0\<rparr>\<rparr>"

definition wfr_decode_reset :: "WfrDecoder \<Rightarrow> WfrDecoder" where
  "wfr_decode_reset dec = wfr_decode_init"

definition decode_elapsed :: "timespec \<Rightarrow> timespec \<Rightarrow> int" where
  "decode_elapsed now start =
     (let elapsed = tv_sec now - tv_sec start
      in if tv_nsec now < tv_nsec start then elapsed - 1 else elapsed)"

definition wfr_decode_check_timeout :: "timespec \<Rightarrow> WfrDecoder \<Rightarrow> WfrDecoder \<times> bool" where
  "wfr_decode_check_timeout now dec =
     (if \<not> in_transmission dec then (dec, False)
      else if decode_elapsed now (start_time dec) \<ge> WFR_TIMEOUT_SEC
      then (wfr_decode_reset dec, True)
      else (dec, False))"

definition wfr_decode_feed_scancode ::
  "timespec \<times> timespec \<Rightarrow> WfrDecoder \<Rightarrow> byte \<Rightarrow> byte \<Rightarrow> nat \<Rightarrow> WfrDecoder \<times> int \<times> string option" where
  "wfr_decode_feed_scancode clock dec rc6_address rc6_command out_size =
     (let (now, now') = clock; (dec, timed_out) = wfr_decode_check_timeout now dec in
      if timed_out then (dec, -1, None)
      else if rc6_address AND WFR_FRAME_MAGIC_MASK \<noteq> WFR_FRAME_MAGIC then (dec, 0, None)
      else
        let ftype = rc6_address AND WFR_FRAME_TYPE_MASK;
            pass = rc6_address AND WFR_FRAME_PASS_MASK in
        if ftype = WFR_FRAME_TYPE_START then
          (let total_len = rc6_command in
           if total_len = 0 then (dec, -1, None)
           else if in_transmission dec \<and> expected_len dec = total_len then
             (dec\<lparr>write_cursor := 0, current_pass := pass, start_time := now'\<rparr>, 0, None)
           else
             ((wfr_decode_reset dec)\<lparr>expected_len := total_len, current_pass := pass,
                in_transmission := True, start_time := now'\<rparr>, 0, None))
        else if ftype = WFR_FRAME_TYPE_DATA then
          (if \<not> in_transmission dec then (dec, 0, None)
           else if write_cursor dec \<ge> expected_len dec then (dec, 0, None)
           else
             (dec\<lparr>payload_buf := (payload_buf dec)[unat (write_cursor dec) := rc6_command],
                write_cursor := write_cursor dec + 1\<rparr>, 0, None))
        else if ftype = WFR_FRAME_TYPE_END then
          (if \<not> in_transmission dec then (dec, 0, None)
           else if write_cursor dec \<noteq> expected_len dec then (dec, 0, None)
           else
             let expected_crc = rc6_command;
                 computed_crc = wfr_crc8 (take (unat (expected_len dec)) (payload_buf dec)) in
             if expected_crc \<noteq> computed_crc then (dec\<lparr>write_cursor := 0\<rparr>, 0, None)
             else if unat (expected_len dec) \<ge> out_size then (wfr_decode_reset dec, -1, None)
             else
               let out = map char_of_byte (take (unat (expected_len dec)) (payload_buf dec));
                   result_len = int (unat (expected_len dec)) in
               (wfr_decode_reset dec, result_len, Some out))
        else (dec, 0, None))"

section \<open>Invariant and abstraction\<close>

text \<open>
  The buffer keeps its 256 bytes and the cursor never passes the announced length: every write is
  at an index below 255 and the 8-bit cursor does not wrap.
\<close>

definition decoder_inv :: "WfrDecoder \<Rightarrow> bool" where
  "decoder_inv dec \<longleftrightarrow> length (payload_buf dec) = WFR_MAX_TOTAL_PAYLOAD + 1
     \<and> write_cursor dec \<le> expected_len dec
     \<and> (in_transmission dec \<longrightarrow> expected_len dec \<noteq> 0)"

definition decoder_abs :: "WfrDecoder \<Rightarrow> reassembly" where
  "decoder_abs dec =
     (if in_transmission dec
      then Receiving (expected_len dec) (take (unat (write_cursor dec)) (payload_buf dec))
      else Idle)"

definition decoder_expired :: "timespec \<times> timespec \<Rightarrow> WfrDecoder \<Rightarrow> bool" where
  "decoder_expired clock dec \<longleftrightarrow>
     in_transmission dec \<and> decode_elapsed (fst clock) (start_time dec) \<ge> WFR_TIMEOUT_SEC"

lemma decoder_init [simp]: "decoder_inv wfr_decode_init" "decoder_abs wfr_decode_init = Idle"
  by (simp_all add: decoder_inv_def decoder_abs_def wfr_decode_init_def)

lemma decoder_cursor:
  assumes "decoder_inv dec" and "write_cursor dec < expected_len dec"
  shows "unat (write_cursor dec) < 255" and "unat (write_cursor dec + 1) = Suc (unat (write_cursor dec))"
    and "write_cursor dec + 1 \<le> expected_len dec"
proof -
  have "unat (write_cursor dec) < unat (expected_len dec)"
    using assms(2) by (simp add: word_less_nat_alt)
  then show lt: "unat (write_cursor dec) < 255"
    using byte_le_255 [of "expected_len dec"] by linarith
  then show s: "unat (write_cursor dec + 1) = Suc (unat (write_cursor dec))"
    by (rule unat_byte_plus_one)
  show "write_cursor dec + 1 \<le> expected_len dec"
    using s \<open>unat (write_cursor dec) < unat (expected_len dec)\<close> by (simp add: word_le_nat_alt)
qed

lemma decoder_feed_expired:
  assumes "decoder_expired t dec"
  shows "wfr_decode_feed_scancode t dec a c n = (wfr_decode_init, -1, None)"
  using assms
  by (auto simp: wfr_decode_feed_scancode_def wfr_decode_check_timeout_def decoder_expired_def
      wfr_decode_reset_def split: prod.splits)

lemma check_live:
  "\<not> decoder_expired t dec \<Longrightarrow> wfr_decode_check_timeout (fst t) dec = (dec, False)"
  by (auto simp: wfr_decode_check_timeout_def decoder_expired_def)

lemma decoder_feed_inv [wfr_inv]:
  assumes inv: "decoder_inv dec"
  shows "decoder_inv (fst (wfr_decode_feed_scancode t dec a c n))"
proof (cases "decoder_expired t dec")
  case True
  then show ?thesis by (simp add: decoder_feed_expired)
next
  case False
  obtain now now' where t: "t = (now, now')" by (cases t)
  have chk: "wfr_decode_check_timeout now dec = (dec, False)"
    using check_live [OF False] t by simp
  note defs = wfr_decode_feed_scancode_def t chk Let_def wfr_decode_reset_def
  have init: "decoder_inv (wfr_decode_init\<lparr>expected_len := l, current_pass := p, in_transmission := True,
      start_time := s\<rparr>)" if "l \<noteq> 0" for l p s
    using that by (simp add: decoder_inv_def wfr_decode_init_def)
  have zero: "decoder_inv (dec\<lparr>write_cursor := 0\<rparr>)"
    "decoder_inv (dec\<lparr>write_cursor := 0, current_pass := p, start_time := s\<rparr>)" for p s
    using inv by (simp_all add: decoder_inv_def)
  have wr: "decoder_inv (dec\<lparr>payload_buf := (payload_buf dec)[unat (write_cursor dec) := c],
      write_cursor := write_cursor dec + 1\<rparr>)" if "write_cursor dec < expected_len dec"
    using inv decoder_cursor [OF inv that] by (simp add: decoder_inv_def)
  show ?thesis
    using inv init zero wr by (simp add: defs not_le)
qed

lemma decoder_abs_complete:
  assumes "decoder_inv dec" and "in_transmission dec"
  shows "decoder_abs dec = Receiving (expected_len dec) (take (unat (write_cursor dec)) (payload_buf dec))"
    and "length (take (unat (write_cursor dec)) (payload_buf dec)) = unat (write_cursor dec)"
  using assms byte_le_255 [of "write_cursor dec"]
  by (auto simp: decoder_abs_def decoder_inv_def WFR_MAX_TOTAL_PAYLOAD_def)

text \<open>One live step simulates the framing contract.\<close>

lemma decoder_feed_live:
  assumes inv: "decoder_inv dec" and live: "\<not> decoder_expired t dec"
  shows "(decoder_abs (fst (wfr_decode_feed_scancode t dec a c n)), snd (wfr_decode_feed_scancode t dec a c n))
       = spec_feed (decoder_abs dec) (a, c) n"
proof -
  obtain now now' where t: "t = (now, now')" by (cases t)
  have chk: "wfr_decode_check_timeout now dec = (dec, False)"
    using check_live [OF live] t by simp
  note defs = wfr_decode_feed_scancode_def spec_feed_def frame_magic_def frame_type_def t chk Let_def
  show ?thesis
  proof (cases "in_transmission dec")
    case False
    then show ?thesis
      by (auto simp: defs decoder_abs_def wfr_decode_reset_def wfr_decode_init_def)
  next
    case True
    note abs = decoder_abs_complete [OF inv True]
    have len: "length (payload_buf dec) = 256"
      using inv by (simp add: decoder_inv_def WFR_MAX_TOTAL_PAYLOAD_def)
    have lt: "write_cursor dec \<ge> expected_len dec \<longleftrightarrow> \<not> unat (write_cursor dec) < unat (expected_len dec)"
      by (simp add: word_le_nat_alt not_less)
    show ?thesis
    proof (cases "write_cursor dec < expected_len dec")
      case less: True
      note cur = decoder_cursor [OF inv less]
      have "take (Suc (unat (write_cursor dec))) ((payload_buf dec)[unat (write_cursor dec) := c])
          = take (unat (write_cursor dec)) (payload_buf dec) @ [c]"
        using cur(1) len by (intro take_Suc_update) simp
      moreover have "unat (write_cursor dec) \<noteq> unat (expected_len dec)"
        "unat (write_cursor dec) < unat (expected_len dec)"
        using less by (simp_all add: word_less_nat_alt)
      ultimately show ?thesis
        using True less abs cur lt
        by (auto simp: defs decoder_abs_def wfr_decode_reset_def wfr_decode_init_def)
    next
      case False
      then have "write_cursor dec = expected_len dec"
        using inv by (simp add: decoder_inv_def)
      then show ?thesis
        using True abs
        by (auto simp: defs decoder_abs_def wfr_decode_reset_def wfr_decode_init_def)
    qed
  qed
qed

interpretation daemon_decoder:
  frame_decoder wfr_decode_feed_scancode decoder_expired decoder_abs decoder_inv
proof unfold_locales
  fix d t a c n
  show "decoder_inv d \<Longrightarrow> decoder_inv (fst (wfr_decode_feed_scancode t d a c n))"
    by (rule decoder_feed_inv)
  show "decoder_expired t d \<Longrightarrow> decoder_abs d \<noteq> Idle"
    by (simp add: decoder_expired_def decoder_abs_def)
qed (simp_all add: decoder_feed_expired decoder_feed_live)

section \<open>Time\<close>

definition nsec_normal :: "timespec \<Rightarrow> bool" where
  "nsec_normal ts \<longleftrightarrow> 0 \<le> tv_nsec ts \<and> tv_nsec ts < 1000000000"

definition in_nanoseconds :: "timespec \<Rightarrow> int" where
  "in_nanoseconds ts = 1000000000 * tv_sec ts + tv_nsec ts"

definition clock_near :: "timespec \<times> timespec \<Rightarrow> timespec \<Rightarrow> bool" where
  "clock_near t start \<longleftrightarrow> decode_elapsed (fst t) start < WFR_TIMEOUT_SEC"

lemma decoder_start_time:
  assumes "\<not> decoder_expired t dec"
    and "in_transmission (fst (wfr_decode_feed_scancode t dec a c n))"
  shows "start_time (fst (wfr_decode_feed_scancode t dec a c n)) = snd t
    \<or> in_transmission dec \<and> start_time (fst (wfr_decode_feed_scancode t dec a c n)) = start_time dec"
proof -
  obtain now now' where t: "t = (now, now')" by (cases t)
  have chk: "wfr_decode_check_timeout now dec = (dec, False)"
    using check_live [OF assms(1)] t by simp
  show ?thesis
    using assms(2)
    by (auto simp: wfr_decode_feed_scancode_def t chk Let_def wfr_decode_reset_def
        wfr_decode_init_def split: if_splits)
qed

lemma decoder_abs_busy: "decoder_abs dec \<noteq> Idle \<longleftrightarrow> in_transmission dec"
  by (simp add: decoder_abs_def)

interpretation daemon_timed:
  timed_decoder wfr_decode_feed_scancode decoder_expired decoder_abs decoder_inv snd start_time clock_near
proof unfold_locales
  fix t d a c n
  show "decoder_expired t d \<Longrightarrow> \<not> clock_near t (start_time d)"
    by (simp add: decoder_expired_def clock_near_def)
  show "\<not> decoder_expired t d \<Longrightarrow> decoder_abs (fst (wfr_decode_feed_scancode t d a c n)) \<noteq> Idle \<Longrightarrow>
      start_time (fst (wfr_decode_feed_scancode t d a c n)) = snd t
      \<or> decoder_abs d \<noteq> Idle \<and> start_time (fst (wfr_decode_feed_scancode t d a c n)) = start_time d"
    unfolding decoder_abs_busy by (rule decoder_start_time)
qed

text \<open>Frames with clock readings inside one 30-second window.\<close>

definition within_window :: "((timespec \<times> timespec) \<times> frame) list \<Rightarrow> bool" where
  "within_window fs \<longleftrightarrow> in_window clock_near snd fs"

text \<open>A pending transmission, if there is one, has not timed out when these frames arrive.\<close>

definition pending_near :: "((timespec \<times> timespec) \<times> frame) list \<Rightarrow> WfrDecoder \<Rightarrow> bool" where
  "pending_near fs dec \<longleftrightarrow>
     (in_transmission dec \<longrightarrow> list_all (\<lambda>f. clock_near (fst f) (start_time dec)) fs)"

lemma decoder_in_time:
  assumes "within_window fs" and "pending_near fs dec"
  shows "in_time wfr_decode_feed_scancode decoder_expired dec fs n"
  using assms
  by (intro daemon_timed.in_time_window) (simp_all add: within_window_def pending_near_def decoder_abs_busy)

lemma pending_near_init [simp]: "pending_near fs wfr_decode_init"
  by (simp add: pending_near_def wfr_decode_init_def)

section \<open>Reachable decoders\<close>

inductive decoder_reach :: "WfrDecoder \<Rightarrow> bool" where
  init: "decoder_reach wfr_decode_init"
| feed: "decoder_reach dec \<Longrightarrow> decoder_reach (fst (wfr_decode_feed_scancode t dec a c n))"

inductive_cases decoder_reachE: "decoder_reach dec"

lemma decoder_reach_inv: "decoder_reach dec \<Longrightarrow> decoder_inv dec"
  by (induction rule: decoder_reach.induct) (simp_all add: decoder_feed_inv)

lemma decoder_idle_no_start:
  assumes "\<And>f. f \<in> set fs \<Longrightarrow> frame_type (fst (snd f)) \<noteq> WFR_FRAME_TYPE_START"
  shows "feed_all wfr_decode_feed_scancode wfr_decode_init fs n = (wfr_decode_init, [])"
  using assms
proof (induction fs)
  case (Cons f fs)
  obtain t a c where f: "f = (t, a, c)" by (cases f) auto
  have "wfr_decode_feed_scancode t wfr_decode_init a c n = (wfr_decode_init, 0, None)"
    using Cons.prems f
    by (force simp: wfr_decode_feed_scancode_def wfr_decode_check_timeout_def Let_def
        frame_type_def wfr_decode_init_def split: prod.splits)
  with Cons f show ?case by simp
qed simp

section \<open>Properties\<close>

text \<open>
  C6: after any sequence of scancodes, at any clock readings, the decoder's buffer is intact and its
  cursor is within the announced length, so a DATA byte is stored at an index below 255 of the
  256-byte buffer and the 8-bit cursor never wraps.
\<close>

theorem decoder_memory_safe:
  assumes "decoder_reach dec"
  shows "length (payload_buf dec) = 256 \<and> write_cursor dec \<le> expected_len dec
    \<and> (write_cursor dec < expected_len dec \<longrightarrow>
         unat (write_cursor dec) < 255 \<and> unat (write_cursor dec + 1) = Suc (unat (write_cursor dec)))"
  using decoder_reach_inv [OF assms] decoder_cursor [of dec]
  by (simp add: decoder_inv_def WFR_MAX_TOTAL_PAYLOAD_def)

theorem decoder_memory_safe_witness:
  "decoder_reach wfr_decode_init \<and> length (payload_buf wfr_decode_init) = 256"
  using decoder_memory_safe [OF decoder_reach.init] decoder_reach.init by blast



text \<open>
  On normalised clock readings the timeout check fires exactly when 30 seconds or more, to the
  nanosecond, have passed since the last START.
\<close>

theorem decoder_timeout_exact:
  assumes "nsec_normal now" and "nsec_normal (start_time dec)" and "in_transmission dec"
  shows "snd (wfr_decode_check_timeout now dec)
    \<longleftrightarrow> 30 * 1000000000 \<le> in_nanoseconds now - in_nanoseconds (start_time dec)"
  using assms
  by (auto simp: wfr_decode_check_timeout_def decode_elapsed_def WFR_TIMEOUT_SEC_def nsec_normal_def
      in_nanoseconds_def Let_def)

theorem decoder_timeout_exact_witness:
  "let dec = wfr_decode_init\<lparr>in_transmission := True, start_time := \<lparr>tv_sec = 10, tv_nsec = 500\<rparr>\<rparr>
   in \<not> snd (wfr_decode_check_timeout \<lparr>tv_sec = 40, tv_nsec = 499\<rparr> dec)
      \<and> snd (wfr_decode_check_timeout \<lparr>tv_sec = 40, tv_nsec = 500\<rparr> dec)"
  using decoder_timeout_exact [of "\<lparr>tv_sec = 40, tv_nsec = 499\<rparr>"
      "wfr_decode_init\<lparr>in_transmission := True, start_time := \<lparr>tv_sec = 10, tv_nsec = 500\<rparr>\<rparr>"]
    decoder_timeout_exact [of "\<lparr>tv_sec = 40, tv_nsec = 500\<rparr>"
      "wfr_decode_init\<lparr>in_transmission := True, start_time := \<lparr>tv_sec = 10, tv_nsec = 500\<rparr>\<rparr>"]
  by (simp add: nsec_normal_def in_nanoseconds_def)

end
