(* ===== verification/Link.thy ===== *)
theory Link
  imports Encode Daemon_Decode
begin

unbundle bit_operations_syntax

text \<open>
  The credentials link: what \<^verbatim>\<open>wfr_transmit_credentials\<close> sends, heard by the daemon's decoder. The
  frames the daemon hears are a list of clock readings and frames; the air may add foreign frames,
  lose frames or change them.
\<close>

lemma zero_is_pass [simp]: "is_pass 0"
  by simp

text \<open>The frames of a run, all heard at one instant.\<close>

definition heard_at :: "timespec \<Rightarrow> frame list \<Rightarrow> ((timespec \<times> timespec) \<times> frame) list" where
  "heard_at t fs = map (\<lambda>f. ((t, t), f)) fs"

lemma map_snd_heard_at [simp]: "map snd (heard_at t fs) = fs"
  by (simp add: heard_at_def comp_def)

lemma within_window_heard_at [simp]: "within_window (heard_at t fs)"
  by (auto simp: within_window_def in_window_def heard_at_def list_all_iff clock_near_def
      decode_elapsed_def WFR_TIMEOUT_SEC_def)

lemma frames_magic: "is_pass p \<Longrightarrow> f \<in> set (wfr_frames p payload) \<Longrightarrow> frame_magic (fst f)"
  by (auto simp: wfr_frames_def)

lemma filter_frames_magic [simp]:
  "is_pass p \<Longrightarrow> filter (\<lambda>f. frame_magic (fst f)) (wfr_frames p payload) = wfr_frames p payload"
  by (meson filter_True frames_magic)

text \<open>A transmission that was cut holds no END frame.\<close>

lemma cut_no_end:
  assumes "is_pass p" and "strict_prefix fs (wfr_frames p payload)" and "f \<in> set fs"
  shows "frame_type (fst f) \<noteq> WFR_FRAME_TYPE_END"
proof -
  let ?init = "(frame_addr WFR_FRAME_TYPE_START p, of_nat (length payload)) # data_frames p payload"
  have "wfr_frames p payload = ?init @ [(frame_addr WFR_FRAME_TYPE_END p, wfr_crc8 payload)]"
    by (simp add: wfr_frames_def)
  with assms(2) have "prefix fs ?init"
    by (metis prefix_snoc strict_prefix_def)
  then have "f \<in> set ?init"
    using assms(3) set_mono_prefix by blast
  with assms(1) show ?thesis by auto
qed

lemma char_A_B: "char_of_byte 0x41 = CHR ''A''" "char_of_byte 0x42 = CHR ''B''"
  by (simp_all add: char_of_byte_def char_of_def bit_numeral_rec bit_Suc_0_iff)

lemma creds_delivered:
  assumes "wf_creds c" and "ssid c \<noteq> []"
    and "wfr_transmit_credentials (Some c) protocol progress \<lparr>tx_log = [], tx_ctx = ctx\<rparr> = (True, st')"
    and "decoder_reach dec" and "within_window fs" and "pending_near fs dec"
    and "filter (\<lambda>f. frame_magic (fst f)) (map snd fs) = frames_sent (tx_log st')"
  shows "map wfr_parse_wifi_string (snd (feed_all wfr_decode_feed_scancode dec fs 256))
    = [Some (c\<lparr>security := norm_security (security c)\<rparr>)]"
proof -
  have "frames_sent (tx_log st') = wfr_frames 0 (creds_payload c)"
    using transmit_effect [OF assms(1-3)] by auto
  with assms(7) have "filter (\<lambda>f. frame_magic (fst f)) (map snd fs) = wfr_frames 0 (creds_payload c)"
    by simp
  from daemon_decoder.complete_transmission [OF decoder_reach_inv [OF assms(4)]
      decoder_in_time [OF assms(5,6)] this zero_is_pass creds_payload_props [OF assms(1)]]
  show ?thesis
    using parse_wifi_string [OF assms(1,2)] by (simp add: creds_payload_def)
qed

section \<open>Properties\<close>

text \<open>
  C4: credentials sent by the Flipper arrive at the daemon. When a transmission completes and its
  frames reach the decoder in order within the 30-second window, mixed with any foreign infrared
  traffic that lacks the magic nibble, the decoder delivers exactly one payload, and parsing it gives the
  SSID, password, security type (one above 3 arrives as an open network) and hidden flag that were entered.
  The decoder may be in any reachable state, also in the middle of another transmission, provided that one
  has not timed out when the new frames arrive (when it has, they can be lost).
\<close>

theorem credentials_arrive:
  assumes "wf_creds c" and "ssid c \<noteq> []"
    and "wfr_transmit_credentials (Some c) protocol progress \<lparr>tx_log = [], tx_ctx = ctx\<rparr> = (True, st')"
    and "decoder_reach dec" and "within_window fs" and "pending_near fs dec"
    and "filter (\<lambda>f. frame_magic (fst f)) (map snd fs) = frames_sent (tx_log st')"
  shows "map wfr_parse_wifi_string (snd (feed_all wfr_decode_feed_scancode dec fs 256))
    = [Some (c\<lparr>security := norm_security (security c)\<rparr>)]"
  using assms by (rule creds_delivered)

theorem credentials_arrive_witness:
  "\<exists>st'. wfr_transmit_credentials (Some short_creds) WfrIrProtocolRC6 (None :: unit progress option)
       \<lparr>tx_log = [], tx_ctx = ()\<rparr> = (True, st')
     \<and> map wfr_parse_wifi_string (snd (feed_all wfr_decode_feed_scancode wfr_decode_init
           (((\<lparr>tv_sec = 9, tv_nsec = 0\<rparr>, \<lparr>tv_sec = 9, tv_nsec = 0\<rparr>), 0x17, 0x2C)
            # heard_at \<lparr>tv_sec = 9, tv_nsec = 0\<rparr> (frames_sent (tx_log st'))) 256))
       = [Some short_creds]"
proof -
  obtain ok st' where run: "wfr_transmit_credentials (Some short_creds) WfrIrProtocolRC6
      (None :: unit progress option) \<lparr>tx_log = [], tx_ctx = ()\<rparr> = (ok, st')"
    by fastforce
  have "never_cancels (None :: unit progress option)" by (simp add: never_cancels_def)
  note c = transmit_complete [OF short_creds_wf this run]
  let ?t = "\<lparr>tv_sec = 9, tv_nsec = 0\<rparr>"
  let ?fs = "heard_at ?t ((0x17, 0x2C) # frames_sent (tx_log st'))"
  have "filter (\<lambda>f. frame_magic (fst f)) (map snd ?fs) = frames_sent (tx_log st')"
  proof -
    have "\<not> frame_magic 0x17" by (simp add: frame_magic_def wfr_const)
    with c(2) show ?thesis by simp
  qed
  from credentials_arrive [OF short_creds_wf run [unfolded eqTrueI [OF c(1)]] decoder_reach.init
      within_window_heard_at pending_near_init this]
  show ?thesis
    using run c(1) by (simp add: short_creds_def norm_security_def wfr_const heard_at_def)
qed

text \<open>
  C21: a transmission that was cancelled is never delivered: whatever part of its frames is heard, in
  whatever order and at whatever times, and whatever transmission the decoder was in before.
\<close>

theorem cancelled_never_delivered:
  assumes "wf_creds c" and "ssid c \<noteq> []"
    and "wfr_transmit_credentials (Some c) protocol progress \<lparr>tx_log = [], tx_ctx = ctx\<rparr> = (False, st')"
    and "decoder_reach dec"
    and "\<And>f. f \<in> set fs \<Longrightarrow> frame_magic (fst (snd f)) \<Longrightarrow> snd f \<in> set (frames_sent (tx_log st'))"
  shows "snd (feed_all wfr_decode_feed_scancode dec fs n) = []"
proof (rule daemon_decoder.no_end_nothing [OF decoder_reach_inv [OF assms(4)]])
  fix f assume f: "f \<in> set fs" "frame_magic (fst (snd f))"
  have "strict_prefix (frames_sent (tx_log st')) (wfr_frames 0 (creds_payload c))"
    using transmit_effect [OF assms(1-3)] by auto
  then show "frame_type (fst (snd f)) \<noteq> WFR_FRAME_TYPE_END"
    using assms(5) f cut_no_end [OF zero_is_pass] by blast
qed

theorem cancelled_never_delivered_witness:
  "\<exists>st'. wfr_transmit_credentials (Some short_creds) WfrIrProtocolRC6 (Some (\<lambda>s t n. (s < 2, n + 1)))
       \<lparr>tx_log = [], tx_ctx = 0 :: nat\<rparr> = (False, st')
     \<and> snd (feed_all wfr_decode_feed_scancode wfr_decode_init
         (heard_at \<lparr>tv_sec = 9, tv_nsec = 0\<rparr> (frames_sent (tx_log st'))) 256) = []"
proof -
  obtain ok st' where run: "wfr_transmit_credentials (Some short_creds) WfrIrProtocolRC6
      (Some (\<lambda>s t n. (s < 2, n + 1))) \<lparr>tx_log = [], tx_ctx = 0 :: nat\<rparr> = (ok, st')"
    by fastforce
  have no: "\<not> ok"
    using run build_payload [OF short_creds_wf(1)]
    by (auto simp: wfr_transmit_credentials_def short_creds_string transmit_attempts.simps
        report_def tx_do_def wfr_send_ir_def WFR_RETRANSMIT_COUNT_def)
  let ?fs = "heard_at \<lparr>tv_sec = 9, tv_nsec = 0\<rparr> (frames_sent (tx_log st'))"
  have "snd f \<in> set (frames_sent (tx_log st'))" if "f \<in> set ?fs" for f
    using that by (auto simp: heard_at_def)
  moreover have "ok = False" using no by simp
  ultimately show ?thesis
    using cancelled_never_delivered [OF short_creds_wf run [unfolded \<open>ok = False\<close>] decoder_reach.init, of ?fs 256]
      run by blast
qed

text \<open>
  C18: losing frames never corrupts credentials: an idle decoder that hears any subsequence of a
  transmission within the window delivers the payload that was sent or nothing at all.
\<close>

theorem lossy_link_safe:
  assumes "is_pass p" and "payload \<noteq> []" and "length payload \<le> 255"
    and "subseq (map snd fs) (wfr_frames p payload)" and "within_window fs"
  shows "snd (feed_all wfr_decode_feed_scancode wfr_decode_init fs n) \<in> {[], [map char_of_byte payload]}"
  using daemon_decoder.lossy_transmission [OF _ _ decoder_in_time [OF assms(5)] assms(4,1-3)]
  by simp

theorem lossy_link_safe_witness:
  "snd (feed_all wfr_decode_feed_scancode wfr_decode_init
     (heard_at \<lparr>tv_sec = 3, tv_nsec = 0\<rparr> (tl (wfr_frames 2 [0x41, 0x42]))) 256)
   \<in> {[], [''AB'']}"
proof -
  have "subseq (map snd (heard_at t (tl (wfr_frames 2 [0x41, 0x42])))) (wfr_frames 2 [0x41, 0x42])" for t
    by (simp add: wfr_frames_def)
  from lossy_link_safe [OF _ _ _ this within_window_heard_at, of "\<lparr>tv_sec = 3, tv_nsec = 0\<rparr>" 256]
  show ?thesis by (simp add: WFR_FRAME_PASS_MASK_def char_A_B)
qed



text \<open>
  Whatever scancodes arrive and whenever they do, a positive result of the daemon's decoder is the
  length of a string it wrote, whose bytes match the checksum of the END frame and fit the caller's
  buffer with its NUL; any other result writes nothing.
\<close>

theorem decoder_output_checked:
  assumes "decoder_reach dec" and "wfr_decode_feed_scancode t dec a c n = (dec', r, out)"
  shows "(0 < r \<longrightarrow> (\<exists>s. out = Some s \<and> length s = nat r \<and> nat r < n \<and> nat r \<le> 255
            \<and> wfr_crc8 (map byte_of_char s) = c \<and> dec' = wfr_decode_init))
    \<and> (r \<le> 0 \<longrightarrow> out = None)"
proof (cases "decoder_expired t dec")
  case True
  with assms(2) show ?thesis by (simp add: decoder_feed_expired)
next
  case False
  have spec: "(decoder_abs dec', r, out) = spec_feed (decoder_abs dec) (a, c) n"
    using decoder_feed_live [OF decoder_reach_inv [OF assms(1)] False, of a c n] assms(2) by simp
  have reset: "dec' = wfr_decode_init" if "0 < r"
    using assms(2) that check_live [OF False]
    by (auto simp: wfr_decode_feed_scancode_def Let_def wfr_decode_reset_def split: prod.splits if_splits)
  have "l \<noteq> 0" if "decoder_abs dec = Receiving l bs" for l bs
    using that decoder_reach_inv [OF assms(1)]
    by (auto simp: decoder_abs_def decoder_inv_def split: if_splits)
  then have "uint l \<noteq> 0" if "decoder_abs dec = Receiving l bs" for l bs
    using that by (simp add: uint_0_iff)
  then show ?thesis
    using spec reset
    by (auto simp: spec_feed_def comp_def split: if_splits reassembly.splits)
qed

theorem decoder_output_checked_witness:
  "\<exists>dec' r out. wfr_decode_feed_scancode (\<lparr>tv_sec = 3, tv_nsec = 0\<rparr>, \<lparr>tv_sec = 3, tv_nsec = 0\<rparr>)
      wfr_decode_init 0xA0 0 256 = (dec', r, out) \<and> out = None"
proof -
  have run: "wfr_decode_feed_scancode (\<lparr>tv_sec = 3, tv_nsec = 0\<rparr>, \<lparr>tv_sec = 3, tv_nsec = 0\<rparr>)
      wfr_decode_init 0xA0 0 256 = (wfr_decode_init, -1, None)"
    by (simp add: wfr_decode_feed_scancode_def wfr_decode_check_timeout_def wfr_decode_init_def
        wfr_const)
  from decoder_output_checked [OF decoder_reach.init run] run show ?thesis by blast
qed

text \<open>
  C23: a transmission left unfinished swallows the next one. When its 30 seconds have expired and a new
  transmission begins, the timeout check resets the decoder and returns before the new START is
  looked at; the rest of the new transmission is ignored and nothing is delivered.
\<close>

theorem stale_start_swallowed:
  assumes "is_pass p" and "map snd fs = wfr_frames p payload"
    and "decoder_expired (fst (hd fs)) dec"
  shows "feed_all wfr_decode_feed_scancode dec fs n = (wfr_decode_init, [])"
proof -
  obtain t f gs where fs: "fs = (t, f) # gs"
    using assms(2) by (cases fs) (auto simp: wfr_frames_def)
  obtain a c where f: "f = (a, c)" by (cases f)
  have "frame_type (fst (snd g)) \<noteq> WFR_FRAME_TYPE_START" if "g \<in> set gs" for g
  proof -
    have "snd g \<in> set (map snd gs)" using that by simp
    also have "map snd gs = tl (wfr_frames p payload)"
      using arg_cong [OF assms(2), of tl] by (simp add: fs)
    finally show ?thesis
      using assms(1) by (auto simp: wfr_frames_def)
  qed
  then have "feed_all wfr_decode_feed_scancode wfr_decode_init gs n = (wfr_decode_init, [])"
    by (rule decoder_idle_no_start)
  with assms(3) show ?thesis
    by (simp add: fs f decoder_feed_expired)
qed

theorem stale_start_swallowed_witness:
  "feed_all wfr_decode_feed_scancode
     (fst (wfr_decode_feed_scancode (\<lparr>tv_sec = 3, tv_nsec = 0\<rparr>, \<lparr>tv_sec = 3, tv_nsec = 0\<rparr>)
       wfr_decode_init 0xA0 31 256))
     (heard_at \<lparr>tv_sec = 100, tv_nsec = 0\<rparr> (wfr_frames 0 (creds_payload short_creds))) 256
   = (wfr_decode_init, [])"
proof -
  let ?dec = "fst (wfr_decode_feed_scancode (\<lparr>tv_sec = 3, tv_nsec = 0\<rparr>, \<lparr>tv_sec = 3, tv_nsec = 0\<rparr>)
       wfr_decode_init 0xA0 31 256)"
  have "decoder_expired (\<lparr>tv_sec = 100, tv_nsec = 0\<rparr>, \<lparr>tv_sec = 100, tv_nsec = 0\<rparr>) ?dec"
    by (simp add: decoder_expired_def wfr_decode_feed_scancode_def wfr_decode_check_timeout_def
        wfr_decode_init_def wfr_decode_reset_def decode_elapsed_def WFR_TIMEOUT_SEC_def wfr_const)
  then have "decoder_expired (fst (hd (heard_at \<lparr>tv_sec = 100, tv_nsec = 0\<rparr>
      (wfr_frames 0 (creds_payload short_creds))))) ?dec"
    by (simp add: heard_at_def wfr_frames_def)
  from stale_start_swallowed [OF zero_is_pass map_snd_heard_at this] show ?thesis .
qed

end
