(* ===== verification/Os.thy ===== *)
theory Os
  imports Prelude "HOL-Library.State_Monad"
begin

text \<open>
  The operating system as the daemon sees it. What the daemon does to the world is a trace of calls;
  what the world answers is a parameter \<open>os_env\<close>, one function per call, of the trace so far and the
  call's arguments, so that every theorem holds for every behaviour of the host. A daemon operation is
  a state monad over the trace. \<^verbatim>\<open>syslog\<close> output is not part of the trace, and \<^verbatim>\<open>popen\<close>, the one
  \<^verbatim>\<open>fgets\<close> that follows it and \<^verbatim>\<open>pclose\<close> are one call, answered by the command's whole output.
\<close>

datatype open_mode = O_RDONLY | O_WRONLY

datatype rc_proto = RC_PROTO_RC6_0 | RC_PROTO_NEC | RC_PROTO_other nat

record lirc_scancode =
  sc_rc_proto :: rc_proto
  sc_scancode :: "64 word"

datatype ioctl_request = LIRC_SET_REC_MODE_SCANCODE | LIRC_SET_SEND_MODE_SCANCODE | EVIOCGBIT_0

datatype os_call =
    Open string open_mode
  | Ioctl int ioctl_request
  | Close int
  | WriteScancode int lirc_scancode
  | Nanosleep nat nat
  | Sleep nat
  | System string
  | Popen string
  | GetAddrInfo string string
  | Fopen string
  | Fprintf string string
  | Fclose string
  | Unlink string

type_synonym trace = "os_call list"
type_synonym 'a io = "(trace, 'a) state"

text \<open>
  \<open>env_write_ok\<close>: \<^verbatim>\<open>write\<close> returned the whole size. \<open>env_evbits_msc\<close>: the \<^verbatim>\<open>EV_MSC\<close> bit of the
  bitmap the \<^verbatim>\<open>EVIOCGBIT\<close> call fills in. \<open>env_system\<close> is the raw wait status. \<open>env_popen\<close> is the
  output of the command, or \<open>None\<close> when \<^verbatim>\<open>popen\<close> itself fails.
\<close>

record os_env =
  env_open :: "trace \<Rightarrow> string \<Rightarrow> open_mode \<Rightarrow> int"
  env_ioctl :: "trace \<Rightarrow> int \<Rightarrow> ioctl_request \<Rightarrow> int"
  env_evbits_msc :: "trace \<Rightarrow> int \<Rightarrow> bool"
  env_write_ok :: "trace \<Rightarrow> int \<Rightarrow> lirc_scancode \<Rightarrow> bool"
  env_system :: "trace \<Rightarrow> string \<Rightarrow> int"
  env_popen :: "trace \<Rightarrow> string \<Rightarrow> string option"
  env_resolves :: "trace \<Rightarrow> string \<Rightarrow> string \<Rightarrow> bool"
  env_fopen :: "trace \<Rightarrow> string \<Rightarrow> bool"

definition os_do :: "os_call \<Rightarrow> unit io" where
  "os_do c = State (\<lambda>tr. ((), tr @ [c]))"

definition os_ask :: "(trace \<Rightarrow> 'a) \<Rightarrow> os_call \<Rightarrow> 'a io" where
  "os_ask answer c = State (\<lambda>tr. (answer tr, tr @ [c]))"

definition sys_open :: "os_env \<Rightarrow> string \<Rightarrow> open_mode \<Rightarrow> int io" where
  "sys_open env path m = os_ask (\<lambda>tr. env_open env tr path m) (Open path m)"

definition sys_ioctl :: "os_env \<Rightarrow> int \<Rightarrow> ioctl_request \<Rightarrow> int io" where
  "sys_ioctl env fd req = os_ask (\<lambda>tr. env_ioctl env tr fd req) (Ioctl fd req)"

definition sys_write :: "os_env \<Rightarrow> int \<Rightarrow> lirc_scancode \<Rightarrow> bool io" where
  "sys_write env fd sc = os_ask (\<lambda>tr. env_write_ok env tr fd sc) (WriteScancode fd sc)"

definition sys_system :: "os_env \<Rightarrow> string \<Rightarrow> int io" where
  "sys_system env cmd = os_ask (\<lambda>tr. env_system env tr cmd) (System cmd)"

definition sys_popen :: "os_env \<Rightarrow> string \<Rightarrow> string option io" where
  "sys_popen env cmd = os_ask (\<lambda>tr. env_popen env tr cmd) (Popen cmd)"

definition sys_resolves :: "os_env \<Rightarrow> string \<Rightarrow> string \<Rightarrow> bool io" where
  "sys_resolves env host port = os_ask (\<lambda>tr. env_resolves env tr host port) (GetAddrInfo host port)"

definition sys_fopen :: "os_env \<Rightarrow> string \<Rightarrow> bool io" where
  "sys_fopen env path = os_ask (\<lambda>tr. env_fopen env tr path) (Fopen path)"

section \<open>Line input\<close>

text \<open>
  \<^verbatim>\<open>fgets(buf, n, fp)\<close> on a stream whose whole contents are given: nothing at end of file, else the
  chars up to and with the first newline, at most \<open>n - 1\<close> of them; the caller sees the C string.
\<close>

fun first_line :: "string \<Rightarrow> string" where
  "first_line [] = []"
| "first_line (c # s) = (if c = CHR 0x0A then [c] else c # first_line s)"

definition fgets :: "nat \<Rightarrow> string \<Rightarrow> string option" where
  "fgets n contents = (if contents = [] then None else Some (c_str (take (n - 1) (first_line contents))))"

text \<open>\<^verbatim>\<open>if(len > 0 && buf[len - 1] == '\n') buf[len - 1] = 0\<close>.\<close>

definition chomp :: "string \<Rightarrow> string" where
  "chomp s = (if s \<noteq> [] \<and> last s = CHR 0x0A then butlast s else s)"

lemma first_line_newline: "CHR 0x0A \<notin> set (butlast (first_line s))"
  by (induction s rule: first_line.induct) auto

lemma length_fgets: "fgets n s = Some l \<Longrightarrow> length l \<le> n - 1"
  using length_c_str_le [of "take (n - 1) (first_line s)"] by (auto simp: fgets_def split: if_splits)

lemma length_chomp: "length (chomp s) \<le> length s"
  by (simp add: chomp_def)

lemma nul_free_chomp: "nul_free s \<Longrightarrow> nul_free (chomp s)"
  by (auto simp: chomp_def nul_free_def dest: in_set_butlastD)

section \<open>Reasoning about runs\<close>

text \<open>\<open>wp m Q tr\<close>: the run of \<open>m\<close> from the trace \<open>tr\<close> ends with a result and a trace in \<open>Q\<close>.\<close>

definition wp :: "'a io \<Rightarrow> ('a \<Rightarrow> trace \<Rightarrow> bool) \<Rightarrow> trace \<Rightarrow> bool" where
  "wp m Q tr = (case run_state m tr of (a, tr') \<Rightarrow> Q a tr')"

lemma wp_bind [simp]: "wp (State_Monad.bind m f) Q tr = wp m (\<lambda>a. wp (f a) Q) tr"
  by (simp add: wp_def split: prod.splits)

lemma wp_return [simp]: "wp (State_Monad.return x) Q tr = Q x tr"
  by (simp add: wp_def)

lemma wp_if [simp]: "wp (if b then m else n) Q tr = (if b then wp m Q tr else wp n Q tr)"
  by simp

lemma wp_option [simp]:
  "wp (case x of None \<Rightarrow> m | Some y \<Rightarrow> f y) Q tr = (case x of None \<Rightarrow> wp m Q tr | Some y \<Rightarrow> wp (f y) Q tr)"
  by (simp split: option.splits)

lemma wp_os_do [simp]: "wp (os_do c) Q tr = Q () (tr @ [c])"
  by (simp add: wp_def os_do_def)

lemma wp_os_ask [simp]: "wp (os_ask answer c) Q tr = Q (answer tr) (tr @ [c])"
  by (simp add: wp_def os_ask_def)

lemma wp_mono: "wp m Q tr \<Longrightarrow> (\<And>a tr'. Q a tr' \<Longrightarrow> Q' a tr') \<Longrightarrow> wp m Q' tr"
  by (auto simp: wp_def)

lemma wp_conj: "wp m Q tr \<Longrightarrow> wp m Q' tr \<Longrightarrow> wp m (\<lambda>a tr'. Q a tr' \<and> Q' a tr') tr"
  by (auto simp: wp_def)

lemma wp_run: "wp m Q tr \<Longrightarrow> run_state m tr = (a, tr') \<Longrightarrow> Q a tr'"
  by (simp add: wp_def)

lemma run_wp: "(\<And>a tr'. run_state m tr = (a, tr') \<Longrightarrow> Q a tr') \<Longrightarrow> wp m Q tr"
  by (simp add: wp_def split: prod.splits)

lemma run_os_do [simp]: "run_state (os_do c) tr = ((), tr @ [c])"
  by (simp add: os_do_def)

lemma run_os_ask [simp]: "run_state (os_ask answer c) tr = (answer tr, tr @ [c])"
  by (simp add: os_ask_def)

lemmas sys_defs = sys_open_def sys_ioctl_def sys_write_def sys_system_def sys_popen_def
  sys_resolves_def sys_fopen_def

text \<open>
  \<open>asked b tr c P\<close>: in the trace \<open>tr\<close>, after its part \<open>b\<close>, the call \<open>c\<close> was made at a history that satisfies
  \<open>P\<close>. Such evidence survives whatever happens later.
\<close>

definition asked :: "trace \<Rightarrow> trace \<Rightarrow> os_call \<Rightarrow> (trace \<Rightarrow> bool) \<Rightarrow> bool" where
  "asked b tr c P \<longleftrightarrow> (\<exists>h. prefix b h \<and> prefix (h @ [c]) tr \<and> P h)"

lemma asked_here [intro]: "prefix b tr \<Longrightarrow> P tr \<Longrightarrow> asked b (tr @ [c]) c P"
  unfolding asked_def by blast

lemma asked_later: "asked b tr c P \<Longrightarrow> prefix tr tr' \<Longrightarrow> asked b tr' c P"
  unfolding asked_def by (meson prefix_order.trans)

text \<open>The seconds a run spends in \<^verbatim>\<open>sleep\<close>.\<close>

fun slept :: "trace \<Rightarrow> nat" where
  "slept [] = 0"
| "slept (c # tr) = (case c of Sleep n \<Rightarrow> n | _ \<Rightarrow> 0) + slept tr"

lemma slept_append [simp]: "slept (tr @ tr') = slept tr + slept tr'"
  by (induction tr) auto

text \<open>The scancodes written, which only the acknowledgement writes.\<close>

fun is_write :: "os_call \<Rightarrow> bool" where
  "is_write (WriteScancode fd sc) = True"
| "is_write _ = False"

definition writes :: "trace \<Rightarrow> os_call list" where
  "writes tr = filter is_write tr"

lemma writes_append [simp]: "writes (tr @ tr') = writes tr @ writes tr'"
  by (simp add: writes_def)

lemma writes_simps [simp]: "writes [] = []" "\<not> is_write c \<Longrightarrow> writes (c # tr) = writes tr"
  by (simp_all add: writes_def)

text \<open>
  \<open>effect tr m E n\<close>: the run of \<open>m\<close> from \<open>tr\<close> only adds to the trace, writes no scancode, sleeps at
  most \<open>n\<close> seconds and ends with a result and a trace that satisfy \<open>E\<close>.
\<close>

definition effect :: "trace \<Rightarrow> 'a io \<Rightarrow> ('a \<Rightarrow> trace \<Rightarrow> bool) \<Rightarrow> nat \<Rightarrow> bool" where
  "effect tr m E n \<longleftrightarrow> wp m (\<lambda>a tr'. prefix tr tr' \<and> writes tr' = writes tr
     \<and> slept tr' \<le> slept tr + n \<and> E a tr') tr"

lemma effect_bind:
  assumes "effect tr m E a" and "a \<le> n"
    and "\<And>x tr'. prefix tr tr' \<Longrightarrow> E x tr' \<Longrightarrow> effect tr' (f x) F (n - a)"
  shows "effect tr (State_Monad.bind m f) F n"
proof -
  obtain x tr' where m: "run_state m tr = (x, tr')" by (cases "run_state m tr")
  obtain y tr'' where f: "run_state (f x) tr' = (y, tr'')" by (cases "run_state (f x) tr'")
  have 1: "prefix tr tr'" "writes tr' = writes tr" "slept tr' \<le> slept tr + a" "E x tr'"
    using assms(1) m by (simp_all add: effect_def wp_def)
  have "prefix tr' tr''" "writes tr'' = writes tr'" "slept tr'' \<le> slept tr' + (n - a)" "F y tr''"
    using assms(3) [OF 1(1,4)] f by (simp_all add: effect_def wp_def)
  with 1 assms(2) m f show ?thesis
    by (auto simp: effect_def wp_def)
qed

lemma effect_weaken:
  "effect tr m E a \<Longrightarrow> (\<And>x tr'. prefix tr tr' \<Longrightarrow> E x tr' \<Longrightarrow> F x tr') \<Longrightarrow> a \<le> n \<Longrightarrow> effect tr m F n"
  by (auto simp: effect_def wp_def)

lemma effect_return [intro!]: "E x tr \<Longrightarrow> effect tr (State_Monad.return x) E n"
  by (simp add: effect_def)

lemma effect_sleep: "effect tr (os_do (Sleep k)) (\<lambda>_ tr'. tr' = tr @ [Sleep k]) k"
  by (simp add: effect_def)

lemma effect_os_do:
  "(case c of Sleep k \<Rightarrow> k | _ \<Rightarrow> 0) = 0 \<Longrightarrow> \<not> is_write c \<Longrightarrow> effect tr (os_do c) (\<lambda>_ tr'. tr' = tr @ [c]) 0"
  by (simp add: effect_def)

lemma effect_if: "(b \<Longrightarrow> effect tr m E n) \<Longrightarrow> (\<not> b \<Longrightarrow> effect tr m' E n) \<Longrightarrow> effect tr (if b then m else m') E n"
  by simp

lemma effect_option:
  "(x = None \<Longrightarrow> effect tr m E n) \<Longrightarrow> (\<And>y. x = Some y \<Longrightarrow> effect tr (f y) E n) \<Longrightarrow>
   effect tr (case x of None \<Rightarrow> m | Some y \<Rightarrow> f y) E n"
  by (cases x) simp_all

lemma effect_run:
  "effect tr m E n \<Longrightarrow> run_state m tr = (a, tr') \<Longrightarrow> prefix tr tr' \<and> writes tr' = writes tr
     \<and> slept tr' \<le> slept tr + n \<and> E a tr'"
  by (simp add: effect_def wp_def)

end
