(* ===== verification/Shell.thy ===== *)
theory Shell
  imports Protocol
begin

text \<open>
  Quoting for the shell: \<^verbatim>\<open>shell_escape\<close> of \<^verbatim>\<open>daemon/wfr_network.c\<close>, and the quoting rules of the
  POSIX shell that its result is read by. \<open>sh_lex\<close> states those rules for what the daemon's commands
  use: blanks, single quotes, backslashes and operators; a command that needs more (expansions,
  double quotes, comments, patterns) has no value there.
\<close>

fun shell_escape_loop :: "string \<Rightarrow> nat \<Rightarrow> string \<Rightarrow> string option" where
  "shell_escape_loop dst dst_size [] = Some dst"
| "shell_escape_loop dst dst_size (c # src) =
     (if c = CHR 0x27 then
        (if length dst + 4 \<ge> dst_size then None
         else shell_escape_loop (dst @ [CHR 0x27, CHR 0x5C, CHR 0x27, CHR 0x27]) dst_size src)
      else
        (if length dst + 1 \<ge> dst_size then None
         else shell_escape_loop (dst @ [c]) dst_size src))"

definition shell_escape :: "string \<Rightarrow> nat \<Rightarrow> string option" where
  "shell_escape src dst_size =
     (if 0 \<ge> dst_size then None else
      case shell_escape_loop [CHR 0x27] dst_size src of
        None \<Rightarrow> None
      | Some dst \<Rightarrow> if length dst + 1 \<ge> dst_size then None else Some (dst @ [CHR 0x27]))"

section \<open>The shell's reading of a command\<close>

datatype sh_token = Word string | Op char

datatype sh_mode = Blank | InWord string | Quoted string

definition sh_operator :: "char \<Rightarrow> bool" where
  "sh_operator c \<longleftrightarrow> c \<in> set '';&|<>()'' \<or> c = CHR 0x0A"

definition sh_special :: "char \<Rightarrow> bool" where
  "sh_special c \<longleftrightarrow> c \<in> set ''$`*?[#~!{}'' \<or> c = CHR 0x22 \<or> c = CHR 0x00"

definition flush :: "sh_mode \<Rightarrow> sh_token list" where
  "flush m = (case m of Blank \<Rightarrow> [] | InWord w \<Rightarrow> [Word w] | Quoted w \<Rightarrow> [Word w])"

definition grow :: "sh_mode \<Rightarrow> string" where
  "grow m = (case m of Blank \<Rightarrow> [] | InWord w \<Rightarrow> w | Quoted w \<Rightarrow> w)"

fun sh_lex :: "sh_mode \<Rightarrow> string \<Rightarrow> sh_token list option" where
  "sh_lex (Quoted w) [] = None"
| "sh_lex (Quoted w) (c # s) = (if c = CHR 0x27 then sh_lex (InWord w) s else sh_lex (Quoted (w @ [c])) s)"
| "sh_lex m [] = Some (flush m)"
| "sh_lex m [c] =
     (if c = CHR 0x27 \<or> c = CHR 0x5C \<or> sh_special c then None
      else if c = CHR '' '' \<or> c = CHR 0x09 then Some (flush m)
      else if sh_operator c then Some (flush m @ [Op c])
      else Some [Word (grow m @ [c])])"
| "sh_lex m (c # d # s) =
     (if c = CHR 0x27 then sh_lex (Quoted (grow m)) (d # s)
      else if c = CHR 0x5C then (if d = CHR 0x0A then sh_lex m s else sh_lex (InWord (grow m @ [d])) s)
      else if sh_special c then None
      else if c = CHR '' '' \<or> c = CHR 0x09 then map_option ((@) (flush m)) (sh_lex Blank (d # s))
      else if sh_operator c then map_option ((@) (flush m @ [Op c])) (sh_lex Blank (d # s))
      else sh_lex (InWord (grow m @ [c])) (d # s))"

definition sh_tokens :: "string \<Rightarrow> sh_token list option" where
  "sh_tokens cmd = sh_lex Blank cmd"

section \<open>What the escaped string is\<close>

fun quote_body :: "string \<Rightarrow> string" where
  "quote_body [] = []"
| "quote_body (c # s) =
     (if c = CHR 0x27 then [CHR 0x27, CHR 0x5C, CHR 0x27, CHR 0x27] else [c]) @ quote_body s"

definition sh_quote :: "string \<Rightarrow> string" where
  "sh_quote s = CHR 0x27 # quote_body s @ [CHR 0x27]"

lemma length_quote_body: "length (quote_body s) \<le> 4 * length s"
  by (induction s) auto

lemma escape_loop_fits:
  "length dst + length (quote_body src) < n \<Longrightarrow> shell_escape_loop dst n src = Some (dst @ quote_body src)"
  by (induction dst n src rule: shell_escape_loop.induct) (auto split: if_splits)

lemma escape_loop_result: "shell_escape_loop dst n src = Some r \<Longrightarrow> r = dst @ quote_body src"
  by (induction dst n src rule: shell_escape_loop.induct) (auto split: if_splits)

lemma shell_escape_result:
  assumes "shell_escape src n = Some r" shows "r = sh_quote src" and "length r < n"
  using assms escape_loop_result [of "[CHR 0x27]" n src]
  by (auto simp: shell_escape_def sh_quote_def split: if_splits option.splits)

lemma shell_escape_fits:
  assumes "4 * length src + 2 < n" shows "shell_escape src n = Some (sh_quote src)"
proof -
  have "shell_escape_loop [CHR 0x27] n src = Some ([CHR 0x27] @ quote_body src)"
    using assms length_quote_body [of src] by (intro escape_loop_fits) simp
  then show ?thesis
    using assms length_quote_body [of src] by (simp add: shell_escape_def sh_quote_def)
qed

lemma length_sh_quote: "length (sh_quote s) \<le> 4 * length s + 2"
  using length_quote_body [of s] by (simp add: sh_quote_def)

section \<open>Reading it back\<close>

lemma sh_lex_quote:
  "(case m of Quoted _ \<Rightarrow> False | _ \<Rightarrow> True) \<Longrightarrow> sh_lex m (CHR 0x27 # d # s) = sh_lex (Quoted (grow m)) (d # s)"
  by (cases m) auto

lemma sh_lex_backslash:
  "d \<noteq> CHR 0x0A \<Longrightarrow> sh_lex (InWord w) (CHR 0x5C # d # s) = sh_lex (InWord (w @ [d])) s"
  by (simp add: grow_def)

lemma sh_lex_body:
  "sh_lex (Quoted w) (quote_body s @ CHR 0x27 # rest) = sh_lex (InWord (w @ s)) rest"
proof (induction s arbitrary: w)
  case (Cons c s)
  show ?case
  proof (cases "c = CHR 0x27")
    case False
    with Cons [of "w @ [c]"] show ?thesis by simp
  next
    case True
    have "sh_lex (InWord (w @ [CHR 0x27])) (CHR 0x27 # quote_body s @ CHR 0x27 # rest)
        = sh_lex (Quoted (w @ [CHR 0x27])) (quote_body s @ CHR 0x27 # rest)"
      by (cases "quote_body s @ CHR 0x27 # rest") (auto simp: grow_def)
    with True Cons [of "w @ [CHR 0x27]"] show ?thesis
      by (simp add: sh_lex_backslash del: sh_lex.simps(8))
  qed
qed simp

text \<open>An escaped string is exactly one word of the command, with the string as its value.\<close>

lemma sh_lex_escaped: "sh_lex Blank (sh_quote s @ rest) = sh_lex (InWord s) rest"
proof -
  have "sh_lex Blank (sh_quote s @ rest) = sh_lex (Quoted []) (quote_body s @ CHR 0x27 # rest)"
    by (cases "quote_body s @ CHR 0x27 # rest") (auto simp: sh_quote_def grow_def)
  then show ?thesis by (simp add: sh_lex_body)
qed

lemma sh_lex_space:
  "sh_lex Blank (CHR '' '' # x) = sh_lex Blank x"
  "sh_lex (InWord w) (CHR '' '' # x) = map_option ((@) [Word w]) (sh_lex Blank x)"
proof -
  have ops: "\<not> sh_special CHR '' ''" "\<not> sh_operator CHR '' ''"
    by (simp_all add: sh_special_def sh_operator_def)
  have id: "map_option ((@) []) y = y" for y :: "sh_token list option"
    by (cases y) auto
  show "sh_lex Blank (CHR '' '' # x) = sh_lex Blank x"
    by (cases x) (simp_all add: flush_def ops id)
  show "sh_lex (InWord w) (CHR '' '' # x) = map_option ((@) [Word w]) (sh_lex Blank x)"
    by (cases x) (simp_all add: flush_def ops)
qed

text \<open>Inside single quotes every char but the quote stands for itself.\<close>

lemma sh_lex_quoted_plain:
  "CHR 0x27 \<notin> set s \<Longrightarrow> sh_lex (Quoted w) (s @ CHR 0x27 # rest) = sh_lex (InWord (w @ s)) rest"
  by (induction s arbitrary: w) auto

text \<open>A word of plain chars.\<close>

definition sh_plain :: "char \<Rightarrow> bool" where
  "sh_plain c \<longleftrightarrow> \<not> sh_special c \<and> \<not> sh_operator c \<and> c \<notin> {CHR 0x27, CHR 0x5C, CHR '' '', CHR 0x09}"

lemma sh_lex_plain_in:
  "\<forall>c\<in>set s. sh_plain c \<Longrightarrow> sh_lex (InWord w) (s @ CHR '' '' # rest) = sh_lex (InWord (w @ s)) (CHR '' '' # rest)"
proof (induction s arbitrary: w)
  case (Cons c s)
  then have "sh_lex (InWord w) ((c # s) @ CHR '' '' # rest) = sh_lex (InWord (w @ [c])) (s @ CHR '' '' # rest)"
    by (cases "s @ CHR '' '' # rest") (auto simp: sh_plain_def grow_def)
  with Cons show ?case by simp
qed simp

lemma sh_lex_plain_word:
  assumes "\<forall>c\<in>set s. sh_plain c" and "s \<noteq> []"
  shows "sh_lex Blank (s @ CHR '' '' # rest) = map_option ((@) [Word s]) (sh_lex Blank rest)"
proof -
  obtain c s' where s: "s = c # s'" using assms(2) by (cases s) auto
  have "sh_lex Blank ((c # s') @ CHR '' '' # rest) = sh_lex (InWord [c]) (s' @ CHR '' '' # rest)"
    using assms(1) s by (cases "s' @ CHR '' '' # rest") (auto simp: sh_plain_def grow_def)
  with assms(1) s show ?thesis
    by (simp add: sh_lex_plain_in sh_lex_space)
qed

section \<open>Properties\<close>

text \<open>
  Escaping for the shell never lets a string out of its quotes: whenever \<^verbatim>\<open>shell_escape\<close>
  succeeds, its result fits the buffer with its NUL and the shell reads it, in whatever command it
  ends, as one word with exactly the original string as value.
\<close>

theorem shell_escape_one_word:
  assumes "shell_escape src n = Some quoted"
  shows "length quoted < n \<and> sh_lex Blank (quoted @ CHR '' '' # rest) = map_option ((@) [Word src]) (sh_lex Blank rest)"
  using shell_escape_result [OF assms] by (simp add: sh_lex_escaped sh_lex_space)

theorem shell_escape_one_word_witness:
  "\<exists>q. shell_escape [CHR ''a'', CHR 0x27, CHR '';'', CHR ''b''] 32 = Some q
     \<and> sh_lex Blank (q @ '' x'') = Some [Word [CHR ''a'', CHR 0x27, CHR '';'', CHR ''b''], Word ''x'']"
proof -
  have q: "shell_escape [CHR ''a'', CHR 0x27, CHR '';'', CHR ''b''] 32
      = Some (sh_quote [CHR ''a'', CHR 0x27, CHR '';'', CHR ''b''])"
    by (rule shell_escape_fits) simp
  from shell_escape_one_word [OF q, of "''x''"] q show ?thesis
    by (simp add: grow_def sh_special_def sh_operator_def)
qed

end
