(* ===== verification/Network.thy ===== *)
theory Network
  imports Os Shell
begin

unbundle bit_operations_syntax

text \<open>
  Joining a network: \<^verbatim>\<open>daemon/wfr_network.c\<close>. Each function is a run of operating-system calls
  (theory Os); an \<^verbatim>\<open>out\<close> buffer with a false result is \<open>None\<close> where no caller reads it then. A
  \<^verbatim>\<open>snprintf\<close> into a buffer of size \<open>n\<close> is \<open>str_trunc (n - 1)\<close> of the formatted text.
\<close>

abbreviation dq :: string where "dq \<equiv> [CHR 0x22]"
abbreviation sq :: string where "sq \<equiv> [CHR 0x27]"
abbreviation bs :: string where "bs \<equiv> [CHR 0x5C]"
abbreviation nl :: string where "nl \<equiv> [CHR 0x0A]"

section \<open>Running commands\<close>

definition WEXITSTATUS :: "int \<Rightarrow> int" where
  "WEXITSTATUS status = (status div 256) mod 256"

definition run_cmd :: "os_env \<Rightarrow> string \<Rightarrow> int io" where
  "run_cmd env cmd = do {
     status \<leftarrow> sys_system env cmd;
     State_Monad.return (if status = -1 then -1 else WEXITSTATUS status)
   }"

definition run_wpa_cmd :: "os_env \<Rightarrow> string \<Rightarrow> bool io" where
  "run_wpa_cmd env cmd = do {
     fp \<leftarrow> sys_popen env cmd;
     State_Monad.return (case fp of
        None \<Rightarrow> False
      | Some contents \<Rightarrow>
          let buf = (case fgets 64 contents of None \<Rightarrow> [] | Some line \<Rightarrow> chomp line)
          in strncmp_eq buf ''OK'' 2)
   }"

definition run_cmd_output :: "os_env \<Rightarrow> string \<Rightarrow> nat \<Rightarrow> string option io" where
  "run_cmd_output env cmd out_size = do {
     fp \<leftarrow> sys_popen env cmd;
     State_Monad.return (case fp of
        None \<Rightarrow> None
      | Some contents \<Rightarrow> map_option chomp (fgets out_size contents))
   }"

definition verify_connectivity :: "os_env \<Rightarrow> bool io" where
  "verify_connectivity env = sys_resolves env ''connectivitycheck.gstatic.com'' ''80''"

section \<open>Asking the host\<close>

definition wpa_state_cmd :: "string \<Rightarrow> string" where
  "wpa_state_cmd iface = str_trunc 255 (''wpa_cli -i '' @ iface @ '' status 2>/dev/null | grep ''
     @ sq @ ''^wpa_state='' @ sq @ '' | cut -d= -f2'')"

definition get_wpa_state :: "os_env \<Rightarrow> string \<Rightarrow> string option io" where
  "get_wpa_state env iface = do {
     r \<leftarrow> run_cmd_output env (wpa_state_cmd iface) 64;
     State_Monad.return (case r of Some state \<Rightarrow> if state \<noteq> [] then Some state else None | None \<Rightarrow> None)
   }"

definition wpa_ssid_cmd :: "string \<Rightarrow> string" where
  "wpa_ssid_cmd iface = str_trunc 255 (''wpa_cli -i '' @ iface @ '' status 2>/dev/null | grep ''
     @ sq @ ''^ssid='' @ sq @ '' | cut -d= -f2'')"

definition get_wpa_ssid :: "os_env \<Rightarrow> string \<Rightarrow> nat \<Rightarrow> string option io" where
  "get_wpa_ssid env iface out_size = do {
     r \<leftarrow> run_cmd_output env (wpa_ssid_cmd iface) out_size;
     State_Monad.return (case r of Some out \<Rightarrow> if out \<noteq> [] then Some out else None | None \<Rightarrow> None)
   }"

function wait_for_wpa_association_from :: "os_env \<Rightarrow> string \<Rightarrow> string \<Rightarrow> nat \<Rightarrow> nat \<Rightarrow> int io" where
  "wait_for_wpa_association_from env iface target_ssid max_wait elapsed =
     (if elapsed < max_wait then do {
        os_do (Sleep 2);
        st \<leftarrow> get_wpa_state env iface;
        (case st of
           None \<Rightarrow> State_Monad.return 0
         | Some state \<Rightarrow>
             if state = ''COMPLETED'' then do {
               connected \<leftarrow> get_wpa_ssid env iface (WFR_SSID_MAX_LEN + 1);
               State_Monad.return (case connected of
                  Some connected_ssid \<Rightarrow> if connected_ssid \<noteq> target_ssid then -1 else 1
                | None \<Rightarrow> 1)
             }
             else if state = ''DISCONNECTED'' \<and> elapsed > 6 then State_Monad.return (-1)
             else wait_for_wpa_association_from env iface target_ssid max_wait (elapsed + 2))
      }
      else State_Monad.return 0)"
  by pat_completeness auto
termination
  by (relation "measure (\<lambda>(_, _, _, max_wait, elapsed). max_wait - elapsed)") auto

declare wait_for_wpa_association_from.simps [simp del]

definition wait_for_wpa_association :: "os_env \<Rightarrow> string \<Rightarrow> string \<Rightarrow> nat \<Rightarrow> int io" where
  "wait_for_wpa_association env iface target_ssid max_wait =
     wait_for_wpa_association_from env iface target_ssid max_wait 0"

definition ip_addr_cmd :: "string \<Rightarrow> string" where
  "ip_addr_cmd iface = str_trunc 255 (''ip -4 addr show '' @ iface @ '' 2>/dev/null | grep -oP ''
     @ sq @ ''inet '' @ bs @ ''K[0-9.]+'' @ sq)"

definition link_local :: "string \<Rightarrow> bool" where
  "link_local ip \<longleftrightarrow> strncmp_eq ip ''169.254.'' 8"

function wait_for_dhcp_from :: "os_env \<Rightarrow> string \<Rightarrow> nat \<Rightarrow> nat \<Rightarrow> bool io" where
  "wait_for_dhcp_from env iface max_wait elapsed =
     (if elapsed < max_wait then do {
        os_do (Sleep 2);
        r \<leftarrow> run_cmd_output env (ip_addr_cmd iface) 64;
        (if (case r of Some ip \<Rightarrow> ip \<noteq> [] \<and> \<not> link_local ip | None \<Rightarrow> False)
         then State_Monad.return True
         else wait_for_dhcp_from env iface max_wait (elapsed + 2))
      }
      else State_Monad.return False)"
  by pat_completeness auto
termination
  by (relation "measure (\<lambda>(_, _, max_wait, elapsed). max_wait - elapsed)") auto

declare wait_for_dhcp_from.simps [simp del]

definition wait_for_dhcp :: "os_env \<Rightarrow> string \<Rightarrow> nat \<Rightarrow> bool io" where
  "wait_for_dhcp env iface max_wait = wait_for_dhcp_from env iface max_wait 0"

definition detect_cmd :: string where
  "detect_cmd = ''for d in /sys/class/net/*/wireless; do [ -d '' @ dq @ ''$d'' @ dq
     @ '' ] && basename '' @ dq @ ''$(dirname '' @ dq @ ''$d'' @ dq @ '')'' @ dq @ '' && break; done''"

text \<open>The interface name, which fits the 32-byte buffers of all callers.\<close>

definition detect_wifi_iface :: "os_env \<Rightarrow> nat \<Rightarrow> string option io" where
  "detect_wifi_iface env out_size = do {
     r \<leftarrow> run_cmd_output env detect_cmd 32;
     State_Monad.return (case r of
        Some iface \<Rightarrow> if iface \<noteq> [] then Some (str_trunc (out_size - 1) iface) else None
      | None \<Rightarrow> None)
   }"

definition wfr_net_has_networkmanager :: "os_env \<Rightarrow> bool io" where
  "wfr_net_has_networkmanager env = do {
     status \<leftarrow> run_cmd env ''which nmcli >/dev/null 2>&1'';
     (if status \<noteq> 0 then State_Monad.return False
      else do {
        status \<leftarrow> run_cmd env ''systemctl is-active --quiet NetworkManager'';
        State_Monad.return (status = 0)
      })
   }"

definition has_systemd_networkd :: "os_env \<Rightarrow> bool io" where
  "has_systemd_networkd env = do {
     status \<leftarrow> run_cmd env ''systemctl is-active --quiet systemd-networkd'';
     State_Monad.return (status = 0)
   }"

definition current_cmd :: string where
  "current_cmd = ''nmcli -t -f active,ssid dev wifi 2>/dev/null | grep '' @ sq @ ''^yes:'' @ sq"

definition current_by_wpa :: "os_env \<Rightarrow> nat \<Rightarrow> string option io" where
  "current_by_wpa env out_size = do {
     r \<leftarrow> detect_wifi_iface env 32;
     (case r of
        None \<Rightarrow> State_Monad.return None
      | Some iface \<Rightarrow> get_wpa_ssid env iface out_size)
   }"

definition wfr_net_get_current :: "os_env \<Rightarrow> nat \<Rightarrow> string option io" where
  "wfr_net_get_current env out_size = do {
     nm \<leftarrow> wfr_net_has_networkmanager env;
     (if nm then do {
        line \<leftarrow> run_cmd_output env current_cmd 256;
        (case line of
           None \<Rightarrow> current_by_wpa env out_size
         | Some l \<Rightarrow>
             let colon = dropWhile (\<lambda>c. c \<noteq> CHR '':'') l in
             if colon \<noteq> [] \<and> tl colon \<noteq> []
             then State_Monad.return (Some (str_trunc (out_size - 1) (tl colon)))
             else current_by_wpa env out_size)
      }
      else current_by_wpa env out_size)
   }"

section \<open>NetworkManager\<close>

definition hidden_arg :: "WfrWifiCreds \<Rightarrow> string" where
  "hidden_arg creds = (if hidden creds then '' hidden yes'' else [])"

definition nmcli_connect_cmd :: "WfrWifiCreds \<Rightarrow> string option" where
  "nmcli_connect_cmd creds =
     (case shell_escape (ssid creds) 256 of
        None \<Rightarrow> None
      | Some escaped_ssid \<Rightarrow>
          if security creds = WFR_SEC_OPEN then
            Some (str_trunc 1023 (''nmcli dev wifi connect '' @ escaped_ssid @ hidden_arg creds @ '' 2>&1''))
          else
            (case shell_escape (password creds) 256 of
               None \<Rightarrow> None
             | Some escaped_pass \<Rightarrow>
                 Some (str_trunc 1023 (''nmcli dev wifi connect '' @ escaped_ssid @ '' password ''
                   @ escaped_pass @ hidden_arg creds @ '' 2>&1''))))"

definition wfr_net_connect_nmcli :: "os_env \<Rightarrow> WfrWifiCreds \<Rightarrow> bool io" where
  "wfr_net_connect_nmcli env creds =
     (case nmcli_connect_cmd creds of
        None \<Rightarrow> State_Monad.return False
      | Some cmd \<Rightarrow> do {
          status \<leftarrow> run_cmd env cmd;
          (if status \<noteq> 0 then State_Monad.return False
           else do {
             os_do (Sleep 3);
             verify_connectivity env;
             State_Monad.return True
           })
        })"

section \<open>systemd-networkd\<close>

definition wpa_cmd :: "string \<Rightarrow> string \<Rightarrow> string" where
  "wpa_cmd iface args = str_trunc 511 (''wpa_cli -i '' @ iface @ args @ '' 2>/dev/null'')"

definition set_network_cmd :: "string \<Rightarrow> string \<Rightarrow> string \<Rightarrow> string" where
  "set_network_cmd iface net_id setting = wpa_cmd iface ('' set_network '' @ net_id @ setting)"

definition quoted_setting :: "string \<Rightarrow> string \<Rightarrow> string" where
  "quoted_setting key v = key @ sq @ dq @ v @ dq @ sq"

definition networkd_set_security :: "os_env \<Rightarrow> string \<Rightarrow> string \<Rightarrow> WfrWifiCreds \<Rightarrow> bool io" where
  "networkd_set_security env iface net_id creds =
     (if security creds = WFR_SEC_OPEN then do {
        run_wpa_cmd env (set_network_cmd iface net_id '' key_mgmt NONE'');
        State_Monad.return True
      }
      else if security creds = WFR_SEC_SAE then do {
        ok \<leftarrow> run_wpa_cmd env (set_network_cmd iface net_id '' key_mgmt SAE'');
        (if \<not> ok then State_Monad.return False
         else run_wpa_cmd env (set_network_cmd iface net_id (quoted_setting '' psk '' (password creds))))
      }
      else run_wpa_cmd env (set_network_cmd iface net_id (quoted_setting '' psk '' (password creds))))"

definition dhclient_cmd :: "string \<Rightarrow> string" where
  "dhclient_cmd iface =
     str_trunc 511 (''dhclient -r '' @ iface @ '' 2>/dev/null; dhclient '' @ iface @ '' 2>/dev/null'')"

definition networkd_finish :: "os_env \<Rightarrow> string \<Rightarrow> bool io" where
  "networkd_finish env iface = do {
     run_cmd env (dhclient_cmd iface);
     dhcp \<leftarrow> wait_for_dhcp env iface 15;
     (if \<not> dhcp then State_Monad.return False
      else do {
        verify_connectivity env;
        run_wpa_cmd env (wpa_cmd iface '' set update_config 1'');
        run_wpa_cmd env (wpa_cmd iface '' save_config'');
        State_Monad.return True
      })
   }"

definition networkd_select :: "os_env \<Rightarrow> string \<Rightarrow> string \<Rightarrow> WfrWifiCreds \<Rightarrow> bool io" where
  "networkd_select env iface net_id creds = do {
     (if hidden creds then run_wpa_cmd env (set_network_cmd iface net_id '' scan_ssid 1'')
      else State_Monad.return True);
     ok \<leftarrow> run_wpa_cmd env (wpa_cmd iface ('' select_network '' @ net_id));
     (if \<not> ok then State_Monad.return False
      else do {
        wpa_result \<leftarrow> wait_for_wpa_association env iface (ssid creds) 20;
        (if wpa_result \<le> 0 then State_Monad.return False else networkd_finish env iface)
      })
   }"

definition wfr_net_connect_networkd :: "os_env \<Rightarrow> WfrWifiCreds \<Rightarrow> bool io" where
  "wfr_net_connect_networkd env creds = do {
     dev \<leftarrow> detect_wifi_iface env 32;
     (case dev of
        None \<Rightarrow> State_Monad.return False
      | Some iface \<Rightarrow> do {
          added \<leftarrow> run_cmd_output env (wpa_cmd iface '' add_network'') 8;
          (case added of
             None \<Rightarrow> State_Monad.return False
           | Some net_id \<Rightarrow>
               if net_id = ''FAIL'' then State_Monad.return False
               else do {
                 ok \<leftarrow> run_wpa_cmd env (set_network_cmd iface net_id (quoted_setting '' ssid '' (ssid creds)));
                 (if \<not> ok then State_Monad.return False
                  else do {
                    ok \<leftarrow> networkd_set_security env iface net_id creds;
                    (if \<not> ok then State_Monad.return False
                     else networkd_select env iface net_id creds)
                  })
               })
        })
   }"

section \<open>ifupdown\<close>

definition wpa_conf_path :: "string \<Rightarrow> string" where
  "wpa_conf_path iface =
     str_trunc 127 (''/etc/wpa_supplicant/wpa_supplicant-infrafid-'' @ iface @ ''.conf'')"

definition ifcfg_path :: string where
  "ifcfg_path = ''/etc/network/interfaces.d/infrafid''"

definition wpa_conf_lines :: "WfrWifiCreds \<Rightarrow> string list" where
  "wpa_conf_lines creds =
     [''ctrl_interface=DIR=/var/run/wpa_supplicant GROUP=netdev'' @ nl,
      ''update_config=1'' @ nl @ nl,
      ''network={'' @ nl,
      ''    ssid='' @ dq @ ssid creds @ dq @ nl]
     @ (if security creds = WFR_SEC_OPEN then [''    key_mgmt=NONE'' @ nl]
        else if security creds = WFR_SEC_SAE then
          [''    key_mgmt=SAE'' @ nl, ''    psk='' @ dq @ password creds @ dq @ nl]
        else [''    psk='' @ dq @ password creds @ dq @ nl])
     @ (if hidden creds then [''    scan_ssid=1'' @ nl] else [])
     @ [''}'' @ nl]"

definition ifcfg_lines :: "string \<Rightarrow> string list" where
  "ifcfg_lines iface =
     [''# Managed by infrafid'' @ nl, ''auto '' @ iface @ nl, ''iface '' @ iface @ '' inet dhcp'' @ nl,
      ''    wpa-conf '' @ wpa_conf_path iface @ nl]"

fun fprintf_all :: "string \<Rightarrow> string list \<Rightarrow> unit io" where
  "fprintf_all path [] = State_Monad.return ()"
| "fprintf_all path (l # ls) = do { os_do (Fprintf path l); fprintf_all path ls }"

definition interfaces_bring_up :: "os_env \<Rightarrow> string \<Rightarrow> WfrWifiCreds \<Rightarrow> bool io" where
  "interfaces_bring_up env iface creds = do {
     run_cmd env (str_trunc 255 (''wpa_cli -i '' @ iface @ '' terminate 2>/dev/null; sleep 1''));
     run_cmd env (str_trunc 255 (''ifdown '' @ iface @ '' 2>&1; ifup '' @ iface @ '' 2>&1''));
     wpa_result \<leftarrow> wait_for_wpa_association env iface (ssid creds) 20;
     (if wpa_result < 0 then State_Monad.return False
      else do {
        dhcp \<leftarrow> wait_for_dhcp env iface 15;
        (if \<not> dhcp then State_Monad.return False
         else do {
           verify_connectivity env;
           State_Monad.return True
         })
      })
   }"

definition wfr_net_connect_interfaces :: "os_env \<Rightarrow> WfrWifiCreds \<Rightarrow> bool io" where
  "wfr_net_connect_interfaces env creds = do {
     dev \<leftarrow> detect_wifi_iface env 32;
     (case dev of
        None \<Rightarrow> State_Monad.return False
      | Some iface \<Rightarrow> do {
          wpa \<leftarrow> sys_fopen env (wpa_conf_path iface);
          (if \<not> wpa then State_Monad.return False
           else do {
             fprintf_all (wpa_conf_path iface) (wpa_conf_lines creds);
             os_do (Fclose (wpa_conf_path iface));
             ifcfg \<leftarrow> sys_fopen env ifcfg_path;
             (if \<not> ifcfg then do {
                os_do (Unlink (wpa_conf_path iface));
                State_Monad.return False
              }
              else do {
                fprintf_all ifcfg_path (ifcfg_lines iface);
                os_do (Fclose ifcfg_path);
                interfaces_bring_up env iface creds
              })
           })
        })
   }"

section \<open>The interface of the module\<close>

definition wfr_net_connect :: "os_env \<Rightarrow> WfrWifiCreds option \<Rightarrow> bool io" where
  "wfr_net_connect env creds =
     (case creds of
        None \<Rightarrow> State_Monad.return False
      | Some c \<Rightarrow>
          if ssid c = [] then State_Monad.return False
          else do {
            nm \<leftarrow> wfr_net_has_networkmanager env;
            (if nm then wfr_net_connect_nmcli env c
             else do {
               networkd \<leftarrow> has_systemd_networkd env;
               (if networkd then wfr_net_connect_networkd env c
                else wfr_net_connect_interfaces env c)
             })
          })"

definition rollback_interfaces :: "os_env \<Rightarrow> string \<Rightarrow> bool io" where
  "rollback_interfaces env iface = do {
     run_cmd env (str_trunc 255 (''wpa_cli -i '' @ iface @ '' terminate 2>/dev/null''));
     run_cmd env (str_trunc 255 (''ifdown '' @ iface @ '' 2>&1''));
     os_do (Unlink ifcfg_path);
     run_cmd env ''rm -f /etc/wpa_supplicant/wpa_supplicant-infrafid-*.conf 2>/dev/null'';
     run_cmd env (str_trunc 255 (''ifup '' @ iface @ '' 2>&1''));
     State_Monad.return True
   }"

definition rollback_nmcli_cmd :: "string \<Rightarrow> string" where
  "rollback_nmcli_cmd escaped_ssid = str_trunc 511 (''nmcli con up '' @ escaped_ssid @ '' 2>&1'')"

definition wfr_net_rollback :: "os_env \<Rightarrow> string option \<Rightarrow> bool io" where
  "wfr_net_rollback env prev =
     (case prev of
        None \<Rightarrow> State_Monad.return False
      | Some s \<Rightarrow>
          if s = [] then State_Monad.return False
          else do {
            nm \<leftarrow> wfr_net_has_networkmanager env;
            (if nm then
               (case shell_escape s 256 of
                  None \<Rightarrow> State_Monad.return False
                | Some escaped_ssid \<Rightarrow> do {
                    status \<leftarrow> run_cmd env (rollback_nmcli_cmd escaped_ssid);
                    State_Monad.return (status = 0)
                  })
             else do {
               dev \<leftarrow> detect_wifi_iface env 32;
               (case dev of
                  None \<Rightarrow> State_Monad.return False
                | Some iface \<Rightarrow> do {
                    networkd \<leftarrow> has_systemd_networkd env;
                    (if networkd then do {
                       run_wpa_cmd env (str_trunc 255 (''wpa_cli -i '' @ iface @ '' reconfigure 2>/dev/null''));
                       State_Monad.return True
                     }
                     else rollback_interfaces env iface)
                  })
             })
          })"

text \<open>The second component is what the caller finds in \<^verbatim>\<open>out\<close>, also after a false result.\<close>

definition wfr_net_get_ip :: "os_env \<Rightarrow> string \<Rightarrow> nat \<Rightarrow> (bool \<times> string) io" where
  "wfr_net_get_ip env out out_size = do {
     dev \<leftarrow> detect_wifi_iface env 32;
     (case dev of
        None \<Rightarrow> State_Monad.return (False, out)
      | Some iface \<Rightarrow> do {
          r \<leftarrow> run_cmd_output env (ip_addr_cmd iface) out_size;
          State_Monad.return (case r of
             None \<Rightarrow> (False, out)
           | Some ip \<Rightarrow> (ip \<noteq> [] \<and> \<not> link_local ip, ip))
        })
   }"

end
