(* ===== verification/Network_Facts.thy ===== *)
theory Network_Facts
  imports Network
begin

text \<open>
  What the network module does, for every behaviour of the host: the commands it runs and what the
  shell makes of them, the evidence behind a reported success, and how long it can wait.
\<close>

section \<open>Straight-line operations\<close>

definition cmd_status :: "os_env \<Rightarrow> trace \<Rightarrow> string \<Rightarrow> int" where
  "cmd_status env tr cmd =
     (if env_system env tr cmd = -1 then -1 else WEXITSTATUS (env_system env tr cmd))"

definition cmd_line :: "os_env \<Rightarrow> trace \<Rightarrow> string \<Rightarrow> nat \<Rightarrow> string option" where
  "cmd_line env tr cmd n =
     (case env_popen env tr cmd of None \<Rightarrow> None | Some contents \<Rightarrow> map_option chomp (fgets n contents))"

definition nonempty :: "string option \<Rightarrow> string option" where
  "nonempty r = (case r of Some s \<Rightarrow> if s \<noteq> [] then Some s else None | None \<Rightarrow> None)"

lemma nonempty_Some [simp]: "nonempty r = Some s \<longleftrightarrow> r = Some s \<and> s \<noteq> []"
  by (auto simp: nonempty_def split: option.splits)

definition wpa_ok :: "os_env \<Rightarrow> trace \<Rightarrow> string \<Rightarrow> bool" where
  "wpa_ok env tr cmd =
     (case env_popen env tr cmd of
        None \<Rightarrow> False
      | Some contents \<Rightarrow> strncmp_eq (case fgets 64 contents of None \<Rightarrow> [] | Some line \<Rightarrow> chomp line) ''OK'' 2)"

lemma wp_run_cmd [simp]: "wp (run_cmd env cmd) Q tr = Q (cmd_status env tr cmd) (tr @ [System cmd])"
  by (simp add: run_cmd_def sys_system_def cmd_status_def)

lemma wp_run_wpa_cmd [simp]: "wp (run_wpa_cmd env cmd) Q tr = Q (wpa_ok env tr cmd) (tr @ [Popen cmd])"
  by (simp add: run_wpa_cmd_def sys_popen_def wpa_ok_def Let_def cong: option.case_cong)

lemma wp_run_cmd_output [simp]:
  "wp (run_cmd_output env cmd n) Q tr = Q (cmd_line env tr cmd n) (tr @ [Popen cmd])"
  by (simp add: run_cmd_output_def sys_popen_def cmd_line_def)

lemma wp_verify [simp]:
  "wp (verify_connectivity env) Q tr
   = Q (env_resolves env tr ''connectivitycheck.gstatic.com'' ''80'')
       (tr @ [GetAddrInfo ''connectivitycheck.gstatic.com'' ''80''])"
  by (simp add: verify_connectivity_def sys_resolves_def)

lemma wp_wpa_state [simp]:
  "wp (get_wpa_state env iface) Q tr
   = Q (nonempty (cmd_line env tr (wpa_state_cmd iface) 64)) (tr @ [Popen (wpa_state_cmd iface)])"
  by (simp add: get_wpa_state_def nonempty_def)

lemma wp_wpa_ssid [simp]:
  "wp (get_wpa_ssid env iface n) Q tr
   = Q (nonempty (cmd_line env tr (wpa_ssid_cmd iface) n)) (tr @ [Popen (wpa_ssid_cmd iface)])"
  by (simp add: get_wpa_ssid_def nonempty_def)

lemma cmd_line_length: "cmd_line env tr cmd n = Some l \<Longrightarrow> length l \<le> n - 1"
  by (auto simp: cmd_line_def split: option.splits dest!: length_fgets)
    (metis length_chomp order_trans)

lemma nul_free_fgets: "fgets n s = Some l \<Longrightarrow> nul_free l"
  by (auto simp: fgets_def split: if_splits)

lemma cmd_line_nul_free: "cmd_line env tr cmd n = Some l \<Longrightarrow> nul_free l"
  by (auto simp: cmd_line_def split: option.splits dest!: nul_free_fgets intro: nul_free_chomp)

text \<open>The interface name of the host: at most 31 chars, so the copies of it are never cut.\<close>

definition wifi_iface :: "os_env \<Rightarrow> trace \<Rightarrow> string option" where
  "wifi_iface env tr = nonempty (cmd_line env tr detect_cmd 32)"

lemma wifi_iface_props:
  "wifi_iface env tr = Some iface \<Longrightarrow> iface \<noteq> [] \<and> length iface \<le> 31 \<and> nul_free iface"
  using cmd_line_length [of env tr detect_cmd 32] cmd_line_nul_free [of env tr detect_cmd 32]
  by (auto simp: wifi_iface_def)

lemma wp_detect [simp]:
  "wp (detect_wifi_iface env 32) Q tr = Q (wifi_iface env tr) (tr @ [Popen detect_cmd])"
proof -
  have "str_trunc 31 l = l" if "cmd_line env tr detect_cmd 32 = Some l" for l
    using cmd_line_length [OF that] by simp
  then have "(case cmd_line env tr detect_cmd 32 of
      Some iface \<Rightarrow> if iface \<noteq> [] then Some (str_trunc (32 - 1) iface) else None | None \<Rightarrow> None)
      = wifi_iface env tr"
    by (simp add: wifi_iface_def nonempty_def split: option.splits)
  then show ?thesis by (simp add: detect_wifi_iface_def)
qed

definition nm_active :: "os_env \<Rightarrow> trace \<Rightarrow> bool" where
  "nm_active env tr \<longleftrightarrow> cmd_status env tr ''which nmcli >/dev/null 2>&1'' = 0
     \<and> cmd_status env (tr @ [System ''which nmcli >/dev/null 2>&1'']) ''systemctl is-active --quiet NetworkManager'' = 0"

definition nm_trace :: "os_env \<Rightarrow> trace \<Rightarrow> trace" where
  "nm_trace env tr = tr @ System ''which nmcli >/dev/null 2>&1''
     # (if cmd_status env tr ''which nmcli >/dev/null 2>&1'' \<noteq> 0 then []
        else [System ''systemctl is-active --quiet NetworkManager''])"

lemma wp_has_nm [simp]:
  "wp (wfr_net_has_networkmanager env) Q tr = Q (nm_active env tr) (nm_trace env tr)"
  by (simp add: wfr_net_has_networkmanager_def nm_active_def nm_trace_def)

lemma wp_has_networkd [simp]:
  "wp (has_systemd_networkd env) Q tr
   = Q (cmd_status env tr ''systemctl is-active --quiet systemd-networkd'' = 0)
       (tr @ [System ''systemctl is-active --quiet systemd-networkd''])"
  by (simp add: has_systemd_networkd_def)

lemma wp_fopen [simp]: "wp (sys_fopen env path) Q tr = Q (env_fopen env tr path) (tr @ [Fopen path])"
  by (simp add: sys_fopen_def)

lemma wp_fprintf_all [simp]: "wp (fprintf_all path ls) Q tr = Q () (tr @ map (Fprintf path) ls)"
  by (induction ls arbitrary: tr) auto

lemma slept_nm_trace [simp]: "slept (nm_trace env tr) = slept tr"
  by (simp add: nm_trace_def)

lemma writes_nm_trace [simp]: "writes (nm_trace env tr) = writes tr"
  by (simp add: nm_trace_def)

lemma writes_fprintf [simp]: "writes (map (Fprintf path) ls) = []"
  by (induction ls) auto

lemma slept_fprintf [simp]: "slept (map (Fprintf path) ls) = 0"
  by (induction ls) auto

text \<open>One call each, which does not sleep.\<close>

lemma effect_run_cmd: "effect tr (run_cmd env cmd) (\<lambda>a tr'. a = cmd_status env tr cmd \<and> tr' = tr @ [System cmd]) 0"
  by (simp add: effect_def)

lemma effect_run_wpa_cmd: "effect tr (run_wpa_cmd env cmd) (\<lambda>a tr'. a = wpa_ok env tr cmd \<and> tr' = tr @ [Popen cmd]) 0"
  by (simp add: effect_def)

lemma effect_run_cmd_output:
  "effect tr (run_cmd_output env cmd n) (\<lambda>a tr'. a = cmd_line env tr cmd n \<and> tr' = tr @ [Popen cmd]) 0"
  by (simp add: effect_def)

lemma effect_verify: "effect tr (verify_connectivity env) (\<lambda>_ _. True) 0"
  by (simp add: effect_def)

lemma effect_wpa_state:
  "effect tr (get_wpa_state env iface) (\<lambda>a tr'. a = nonempty (cmd_line env tr (wpa_state_cmd iface) 64)
     \<and> tr' = tr @ [Popen (wpa_state_cmd iface)]) 0"
  by (simp add: effect_def)

lemma effect_detect:
  "effect tr (detect_wifi_iface env 32) (\<lambda>a tr'. a = wifi_iface env tr \<and> tr' = tr @ [Popen detect_cmd]) 0"
  by (simp add: effect_def)

lemma effect_fopen: "effect tr (sys_fopen env path) (\<lambda>a tr'. a = env_fopen env tr path \<and> tr' = tr @ [Fopen path]) 0"
  by (simp add: effect_def)

lemma effect_fprintf_all: "effect tr (fprintf_all path ls) (\<lambda>_ tr'. tr' = tr @ map (Fprintf path) ls) 0"
  by (simp add: effect_def)

lemma effect_has_nm: "effect tr (wfr_net_has_networkmanager env) (\<lambda>a tr'. a = nm_active env tr \<and> tr' = nm_trace env tr) 0"
  by (simp add: effect_def) (simp add: nm_trace_def)

lemma effect_has_networkd:
  "effect tr (has_systemd_networkd env) (\<lambda>a tr'. (a \<longleftrightarrow> cmd_status env tr ''systemctl is-active --quiet systemd-networkd'' = 0)
     \<and> tr' = tr @ [System ''systemctl is-active --quiet systemd-networkd'']) 0"
  by (simp add: effect_def)

lemmas effect_calls = effect_run_cmd effect_run_wpa_cmd effect_run_cmd_output effect_verify
  effect_wpa_state effect_detect effect_fopen effect_fprintf_all effect_has_nm effect_has_networkd

section \<open>Waiting\<close>

text \<open>Evidence gathered after \<open>b\<close>: an address that is not link-local; an association with no other network.\<close>

definition address_seen :: "os_env \<Rightarrow> string \<Rightarrow> trace \<Rightarrow> trace \<Rightarrow> bool" where
  "address_seen env iface b tr \<longleftrightarrow> asked b tr (Popen (ip_addr_cmd iface))
     (\<lambda>h. \<exists>ip. cmd_line env h (ip_addr_cmd iface) 64 = Some ip \<and> ip \<noteq> [] \<and> \<not> link_local ip)"

definition associated :: "os_env \<Rightarrow> string \<Rightarrow> string \<Rightarrow> trace \<Rightarrow> trace \<Rightarrow> bool" where
  "associated env iface target b tr \<longleftrightarrow>
     asked b tr (Popen (wpa_state_cmd iface)) (\<lambda>h. cmd_line env h (wpa_state_cmd iface) 64 = Some ''COMPLETED'')
     \<and> asked b tr (Popen (wpa_ssid_cmd iface))
         (\<lambda>h. \<forall>s. cmd_line env h (wpa_ssid_cmd iface) 33 = Some s \<longrightarrow> s = [] \<or> s = target)"

lemma address_seen_later: "address_seen env iface b tr \<Longrightarrow> prefix tr tr' \<Longrightarrow> address_seen env iface b tr'"
  unfolding address_seen_def by (rule asked_later)

lemma associated_later: "associated env iface s b tr \<Longrightarrow> prefix tr tr' \<Longrightarrow> associated env iface s b tr'"
  unfolding associated_def by (blast intro: asked_later)

lemmas seen_later = address_seen_later associated_later

text \<open>The rounds of a waiting loop: one every two seconds.\<close>

lemma wait_rounds:
  "e < w \<Longrightarrow> 2 * ((w + 1 - e) div 2) = 2 + 2 * ((w + 1 - (e + 2)) div 2)" for e w :: nat
proof -
  assume "e < w"
  then have "w + 1 - e = Suc (Suc (w + 1 - (e + 2)))" by simp
  then show ?thesis by simp
qed

lemma wait_dhcp_from:
  "prefix b tr \<Longrightarrow> effect tr (wait_for_dhcp_from env iface w e) (\<lambda>ok tr'. ok \<longrightarrow> address_seen env iface b tr') (2 * ((w + 1 - e) div 2))"
proof (induction "w - e" arbitrary: e tr rule: less_induct)
  case less
  show ?case
  proof (cases "e < w")
    case False
    then show ?thesis by (auto simp: wait_for_dhcp_from.simps)
  next
    case True
    have IH: "prefix b tr \<Longrightarrow> effect tr (wait_for_dhcp_from env iface w (e + 2)) (\<lambda>ok tr'. ok \<longrightarrow> address_seen env iface b tr')
        (2 * ((w + 1 - (e + 2)) div 2))" for tr
      using True by (intro less.hyps) simp_all
    have here: "address_seen env iface b tr2"
      if "prefix b tr1" "cmd_line env tr1 (ip_addr_cmd iface) 64 = Some ip" "ip \<noteq> []" "\<not> link_local ip"
        "tr2 = tr1 @ [Popen (ip_addr_cmd iface)]" for tr1 tr2 ip
      unfolding address_seen_def that(5) using that by (intro asked_here) blast+
    show ?thesis
      unfolding wait_for_dhcp_from.simps [of env iface w e] wait_rounds [OF True] if_P [OF True]
    proof (rule effect_bind [OF effect_sleep], simp,
        rule effect_bind [OF effect_run_cmd_output], simp, elim conjE, rule effect_if)
      fix r tr1 tr2
      assume "prefix tr tr1" and "case r of None \<Rightarrow> False | Some ip \<Rightarrow> ip \<noteq> [] \<and> \<not> link_local ip"
        and "r = cmd_line env tr1 (ip_addr_cmd iface) 64" "tr2 = tr1 @ [Popen (ip_addr_cmd iface)]"
      then show "effect tr2 (State_Monad.return True) (\<lambda>ok tr'. ok \<longrightarrow> address_seen env iface b tr')
          (2 + 2 * ((w + 1 - (e + 2)) div 2) - 2 - 0)"
        using here [of tr1] less.prems by (intro effect_return) (auto split: option.splits intro: prefix_order.trans)
    qed (use IH less.prems in \<open>auto intro: prefix_order.trans\<close>)
  qed
qed

lemma associatedI:
  assumes "cmd_line env tr1 (wpa_state_cmd iface) 64 = Some ''COMPLETED''"
    and "\<And>s. cmd_line env tr2 (wpa_ssid_cmd iface) 33 = Some s \<Longrightarrow> s = [] \<or> s = target"
    and "tr2 = tr1 @ [Popen (wpa_state_cmd iface)]" and "tr3 = tr2 @ [Popen (wpa_ssid_cmd iface)]"
    and b: "prefix b tr1"
  shows "associated env iface target b tr3"
  unfolding associated_def
proof
  have "asked b tr2 (Popen (wpa_state_cmd iface))
      (\<lambda>h. cmd_line env h (wpa_state_cmd iface) 64 = Some ''COMPLETED'')"
    unfolding assms(3) using b assms(1) by (intro asked_here)
  then show "asked b tr3 (Popen (wpa_state_cmd iface))
      (\<lambda>h. cmd_line env h (wpa_state_cmd iface) 64 = Some ''COMPLETED'')"
    by (rule asked_later) (simp add: assms(4))
  show "asked b tr3 (Popen (wpa_ssid_cmd iface))
      (\<lambda>h. \<forall>s. cmd_line env h (wpa_ssid_cmd iface) 33 = Some s \<longrightarrow> s = [] \<or> s = target)"
    unfolding assms(4) using b assms(2,3) by (intro asked_here) auto
qed

lemma effect_wpa_ssid:
  "effect tr (get_wpa_ssid env iface n) (\<lambda>a tr'. a = nonempty (cmd_line env tr (wpa_ssid_cmd iface) n)
     \<and> tr' = tr @ [Popen (wpa_ssid_cmd iface)]) 0"
  by (simp add: effect_def)

lemma wait_wpa_from:
  "prefix b tr \<Longrightarrow> effect tr (wait_for_wpa_association_from env iface target w e)
     (\<lambda>r tr'. 0 < r \<longrightarrow> associated env iface target b tr') (2 * ((w + 1 - e) div 2))"
proof (induction "w - e" arbitrary: e tr rule: less_induct)
  case less
  show ?case
  proof (cases "e < w")
    case False
    then show ?thesis by (auto simp: wait_for_wpa_association_from.simps)
  next
    case True
    let ?E = "\<lambda>(r :: int) tr'. 0 < r \<longrightarrow> associated env iface target b tr'"
    have IH: "prefix b tr \<Longrightarrow> effect tr (wait_for_wpa_association_from env iface target w (e + 2)) ?E
        (2 * ((w + 1 - (e + 2)) div 2))" for tr
      using True by (intro less.hyps) simp_all
    have compl: "effect tr2 (do {
          connected \<leftarrow> get_wpa_ssid env iface (WFR_SSID_MAX_LEN + 1);
          State_Monad.return (case connected of
             Some connected_ssid \<Rightarrow> if connected_ssid \<noteq> target then -1 else 1
           | None \<Rightarrow> 1) }) ?E n"
      if c: "cmd_line env tr1 (wpa_state_cmd iface) 64 = Some ''COMPLETED''"
        and t: "tr2 = tr1 @ [Popen (wpa_state_cmd iface)]" and b: "prefix b tr1" for tr1 tr2 n
    proof (rule effect_bind [OF effect_wpa_ssid], simp, elim conjE, rule effect_return)
      fix r tr3
      assume "r = nonempty (cmd_line env tr2 (wpa_ssid_cmd iface) (WFR_SSID_MAX_LEN + 1))"
        and "tr3 = tr2 @ [Popen (wpa_ssid_cmd iface)]"
      then show "?E (case r of Some connected_ssid \<Rightarrow> if connected_ssid \<noteq> target then -1 else 1 | None \<Rightarrow> 1) tr3"
        using associatedI [OF c _ t _ b, of target tr3]
        by (auto simp: WFR_SSID_MAX_LEN_def nonempty_def split: option.splits if_splits)
    qed
    show ?thesis
      unfolding wait_for_wpa_association_from.simps [of env iface target w e] wait_rounds [OF True] if_P [OF True]
    proof (rule effect_bind [OF effect_sleep], simp, rule effect_bind [OF effect_wpa_state], simp, elim conjE,
        rule effect_option)
      fix r tr1 tr2 state
      assume pre: "prefix tr tr1" and "r = nonempty (cmd_line env tr1 (wpa_state_cmd iface) 64)" "r = Some state"
        and t: "tr2 = tr1 @ [Popen (wpa_state_cmd iface)]"
      then have l: "cmd_line env tr1 (wpa_state_cmd iface) 64 = Some state"
        by (metis nonempty_Some)
      show "effect tr2 (if state = ''COMPLETED'' then do {
             connected \<leftarrow> get_wpa_ssid env iface (WFR_SSID_MAX_LEN + 1);
             State_Monad.return (case connected of
                Some connected_ssid \<Rightarrow> if connected_ssid \<noteq> target then -1 else 1
              | None \<Rightarrow> 1) }
           else if state = ''DISCONNECTED'' \<and> e > 6 then State_Monad.return (-1)
           else wait_for_wpa_association_from env iface target w (e + 2)) ?E
         (2 + 2 * ((w + 1 - (e + 2)) div 2) - 2 - 0)"
        using compl [OF _ t] l IH [of tr2] prefix_order.trans [OF less.prems pre] t
        by (intro effect_if effect_return) simp_all
    qed auto
  qed
qed

lemma wait_dhcp: "prefix b tr \<Longrightarrow> effect tr (wait_for_dhcp env iface 15) (\<lambda>ok tr'. ok \<longrightarrow> address_seen env iface b tr') 16"
  using wait_dhcp_from [of b tr env iface 15 0] by (simp add: wait_for_dhcp_def)

lemma wait_wpa:
  "prefix b tr \<Longrightarrow> effect tr (wait_for_wpa_association env iface target 20) (\<lambda>r tr'. 0 < r \<longrightarrow> associated env iface target b tr') 20"
  using wait_wpa_from [of b tr env iface target 20 0] by (simp add: wait_for_wpa_association_def)

section \<open>Connecting\<close>

lemma finish_networkd:
  assumes "prefix b tr"
  shows "effect tr (networkd_finish env iface) (\<lambda>ok tr'. ok \<longrightarrow> address_seen env iface b tr') 16"
  unfolding networkd_finish_def
proof (rule effect_bind [OF effect_run_cmd], simp, rule effect_bind [OF wait_dhcp [where b = b]], use assms in simp, simp, rule effect_if)
  fix x :: int and tr1 ok tr2
  assume "ok \<longrightarrow> address_seen env iface b tr2" "\<not> \<not> ok"
  then show "effect tr2 (do { verify_connectivity env; run_wpa_cmd env (wpa_cmd iface '' set update_config 1'');
      run_wpa_cmd env (wpa_cmd iface '' save_config''); State_Monad.return True })
      (\<lambda>ok tr'. ok \<longrightarrow> address_seen env iface b tr') (16 - 0 - 16)"
    by (auto simp: effect_def intro: address_seen_later)
qed auto

lemma select_networkd:
  assumes "prefix b tr"
  shows "effect tr (networkd_select env iface net_id c)
     (\<lambda>ok tr'. ok \<longrightarrow> associated env iface (ssid c) b tr' \<and> address_seen env iface b tr') 36"
  unfolding networkd_select_def
proof (rule effect_bind [where E = "\<lambda>_ _. True" and a = 0])
  show "effect tr (if hidden c then run_wpa_cmd env (set_network_cmd iface net_id '' scan_ssid 1'')
      else State_Monad.return True) (\<lambda>_ _. True) 0"
    by (simp add: effect_def)
next
  fix x :: bool and tr1
  assume b1: "prefix tr tr1"
  show "effect tr1 (do {
      ok \<leftarrow> run_wpa_cmd env (wpa_cmd iface ('' select_network '' @ net_id));
      (if \<not> ok then State_Monad.return False
       else do {
         wpa_result \<leftarrow> wait_for_wpa_association env iface (ssid c) 20;
         (if wpa_result \<le> 0 then State_Monad.return False else networkd_finish env iface)
       }) }) (\<lambda>ok tr'. ok \<longrightarrow> associated env iface (ssid c) b tr' \<and> address_seen env iface b tr') (36 - 0)"
  proof (rule effect_bind [OF effect_run_wpa_cmd], simp, rule effect_if)
    fix ok tr2
    assume "prefix tr1 tr2"
    then have b: "prefix b tr2" using assms b1 by (meson prefix_order.trans)
    show "effect tr2 (do { wpa_result \<leftarrow> wait_for_wpa_association env iface (ssid c) 20;
         (if wpa_result \<le> 0 then State_Monad.return False else networkd_finish env iface) })
      (\<lambda>ok tr'. ok \<longrightarrow> associated env iface (ssid c) b tr' \<and> address_seen env iface b tr') (36 - 0 - 0)"
    proof (rule effect_bind [OF wait_wpa [OF b]], simp, rule effect_if)
      fix r :: int and tr3
      assume "prefix tr2 tr3" "0 < r \<longrightarrow> associated env iface (ssid c) b tr3" "\<not> r \<le> 0"
      then show "effect tr3 (networkd_finish env iface)
          (\<lambda>ok tr'. ok \<longrightarrow> associated env iface (ssid c) b tr' \<and> address_seen env iface b tr') (36 - 0 - 0 - 20)"
        using b by (intro effect_weaken [OF finish_networkd [where b = b]]) (auto intro: associated_later prefix_order.trans)
    qed auto
  qed auto
qed simp

lemma set_security_networkd: "effect tr (networkd_set_security env iface net_id c) (\<lambda>_ _. True) 0"
  by (simp add: networkd_set_security_def effect_def)

lemma connect_networkd:
  "effect tr (wfr_net_connect_networkd env c) (\<lambda>ok tr'. ok \<longrightarrow>
     (\<exists>iface. wifi_iface env tr = Some iface \<and> associated env iface (ssid c) tr tr' \<and> address_seen env iface tr tr')) 36"
  unfolding wfr_net_connect_networkd_def
  apply (rule effect_bind [OF effect_detect], simp)
  apply (rule effect_option, blast)
  apply (rule effect_bind [OF effect_run_cmd_output], simp)
  apply (rule effect_option, blast)
  apply (rule effect_if, blast)
  apply (rule effect_bind [OF effect_run_wpa_cmd], simp)
  apply (rule effect_if, blast)
  apply (rule effect_bind [OF set_security_networkd], simp)
  apply (rule effect_if, blast)
  apply (rule effect_weaken [OF select_networkd [where b = tr]]; auto intro: prefix_order.trans dest: sym append_prefixD)
  done

lemma bring_up_interfaces:
  "prefix b tr \<Longrightarrow> effect tr (interfaces_bring_up env iface c) (\<lambda>ok tr'. ok \<longrightarrow> address_seen env iface b tr') 36"
  unfolding interfaces_bring_up_def
  apply (rule effect_bind [OF effect_run_cmd], simp)
  apply (rule effect_bind [OF effect_run_cmd], simp)
  apply (rule effect_bind [OF wait_wpa [where b = b]], simp, simp)
  apply (rule effect_if, blast)
  apply (rule effect_bind [OF wait_dhcp [where b = b]], (meson prefix_order.trans prefixI), simp)
  apply (rule effect_if, blast)
  apply (rule effect_bind [OF effect_verify], simp)
  apply (rule effect_return)
  apply (auto intro: address_seen_later)
  done

lemma connect_interfaces:
  "effect tr (wfr_net_connect_interfaces env c) (\<lambda>ok tr'. ok \<longrightarrow>
     (\<exists>iface. wifi_iface env tr = Some iface \<and> address_seen env iface tr tr')) 36"
  unfolding wfr_net_connect_interfaces_def
  apply (rule effect_bind [OF effect_detect], simp)
  apply (rule effect_option, blast)
  apply (rule effect_bind [OF effect_fopen], simp)
  apply (rule effect_if, blast)
  apply (rule effect_bind [OF effect_fprintf_all], simp)
  apply (rule effect_bind [OF effect_os_do], simp, simp, simp)
  apply (rule effect_bind [OF effect_fopen], simp)
  apply (rule effect_if)
   apply (rule effect_bind [OF effect_os_do], simp, simp, simp, blast)
  apply (rule effect_bind [OF effect_fprintf_all], simp)
  apply (rule effect_bind [OF effect_os_do], simp, simp, simp)
  apply (rule effect_weaken [OF bring_up_interfaces [where b = tr]]; auto intro: prefix_order.trans dest: sym append_prefixD)
  done

text \<open>
  What a wait status says: the process exited with status 0; or a signal ended it, which the code, which
  looks at the exit status only, does not tell from the former.
\<close>

definition exited_with_0 :: "int \<Rightarrow> bool" where
  "exited_with_0 status \<longleftrightarrow> status mod 128 = 0 \<and> (status div 256) mod 256 = 0"

definition ended_by_signal :: "int \<Rightarrow> bool" where
  "ended_by_signal status \<longleftrightarrow> status \<noteq> -1 \<and> status mod 128 \<noteq> 0"

lemma cmd_status_0: "cmd_status env tr cmd = 0 \<Longrightarrow>
    exited_with_0 (env_system env tr cmd) \<or> ended_by_signal (env_system env tr cmd)"
  by (auto simp: cmd_status_def WEXITSTATUS_def exited_with_0_def ended_by_signal_def split: if_splits)

definition nmcli_ran :: "(int \<Rightarrow> bool) \<Rightarrow> os_env \<Rightarrow> WfrWifiCreds \<Rightarrow> trace \<Rightarrow> trace \<Rightarrow> bool" where
  "nmcli_ran P env c b tr \<longleftrightarrow> (\<exists>cmd. nmcli_connect_cmd c = Some cmd
     \<and> asked b tr (System cmd) (\<lambda>h. P (env_system env h cmd)))"

lemma connect_nmcli:
  "effect tr (wfr_net_connect_nmcli env c)
     (\<lambda>ok tr'. ok \<longrightarrow> nmcli_ran exited_with_0 env c tr tr' \<or> nmcli_ran ended_by_signal env c tr tr') 3"
proof -
  have ran: "nmcli_ran exited_with_0 env c tr tr' \<or> nmcli_ran ended_by_signal env c tr tr'"
    if "nmcli_connect_cmd c = Some cmd" "cmd_status env tr cmd = 0" "prefix (tr @ [System cmd]) tr'" for cmd tr'
    using that cmd_status_0 [OF that(2)] by (auto simp: nmcli_ran_def asked_def)
  show ?thesis
    unfolding wfr_net_connect_nmcli_def
    apply (rule effect_option, blast)
    apply (rule effect_bind [OF effect_run_cmd], simp)
    apply (rule effect_if, blast)
    apply (rule effect_bind [OF effect_sleep], simp)
    apply (rule effect_bind [OF effect_verify], simp)
    apply (rule effect_return)
    apply (intro impI ran; auto simp: prefix_def)
    done
qed

definition networkd_active :: "os_env \<Rightarrow> trace \<Rightarrow> bool" where
  "networkd_active env tr \<longleftrightarrow> cmd_status env tr ''systemctl is-active --quiet systemd-networkd'' = 0"

text \<open>
  What a successful connection that starts at \<open>tr\<close> rests on, by the host's network manager. The
  interface is the one the attempt detects.
\<close>

definition networkd_trace :: "os_env \<Rightarrow> trace \<Rightarrow> trace" where
  "networkd_trace env tr = nm_trace env tr @ [System ''systemctl is-active --quiet systemd-networkd'']"

definition connected_evidence :: "os_env \<Rightarrow> trace \<Rightarrow> WfrWifiCreds \<Rightarrow> trace \<Rightarrow> bool" where
  "connected_evidence env tr c tr' \<longleftrightarrow>
     (if nm_active env tr
      then nmcli_ran exited_with_0 env c tr tr' \<or> nmcli_ran ended_by_signal env c tr tr'
      else \<exists>iface. wifi_iface env (networkd_trace env tr) = Some iface
        \<and> address_seen env iface (networkd_trace env tr) tr'
        \<and> (networkd_active env (nm_trace env tr) \<longrightarrow> associated env iface (ssid c) (networkd_trace env tr) tr'))"

lemma nmcli_ran_base: "nmcli_ran P env c b' tr \<Longrightarrow> prefix b b' \<Longrightarrow> nmcli_ran P env c b tr"
  unfolding nmcli_ran_def asked_def by (meson prefix_order.trans)

lemma prefix_nm_trace: "prefix tr (nm_trace env tr)"
  by (simp add: nm_trace_def)

lemma connect_effect:
  "effect tr (wfr_net_connect env (Some c)) (\<lambda>ok tr'. ok \<longrightarrow> connected_evidence env tr c tr') 36"
  unfolding wfr_net_connect_def option.case
  apply (rule effect_if, blast)
  apply (rule effect_bind [OF effect_has_nm], simp)
  apply (rule effect_if)
   apply (rule effect_weaken [OF connect_nmcli]; auto simp: connected_evidence_def intro: nmcli_ran_base prefix_nm_trace)
  apply (rule effect_bind [OF effect_has_networkd], simp)
  apply (rule effect_if)
   apply (rule effect_weaken [OF connect_networkd]; auto simp: connected_evidence_def networkd_active_def networkd_trace_def)
  apply (rule effect_weaken [OF connect_interfaces]; auto simp: connected_evidence_def networkd_active_def networkd_trace_def)
  done

section \<open>Properties\<close>

text \<open>
  C7: the daemon reports a connection only on evidence gathered in this attempt, whatever the host
  answers. With NetworkManager: the nmcli command for the credentials exited with status 0, or was ended
  by a signal, which the code takes for the same. Otherwise: the wireless interface that the attempt
  detected had an address that is not link-local, and with systemd-networkd wpa_supplicant reported
  that interface's association as completed, on no other SSID. The daemon's own calls of \<^verbatim>\<open>sleep\<close>, which
  do not count the time its commands take, add up to at most 36 seconds.
\<close>

theorem connect_success_evidence:
  assumes "run_state (wfr_net_connect env (Some c)) tr = (ok, tr')"
  shows "prefix tr tr' \<and> slept tr' \<le> slept tr + 36 \<and> (ok \<longrightarrow> connected_evidence env tr c tr')"
  using effect_run [OF connect_effect assms] by blast

text \<open>A host on which every command succeeds, so NetworkManager is taken to be active.\<close>

definition nm_host :: os_env where
  "nm_host = \<lparr>env_open = \<lambda>_ _ _. 3, env_ioctl = \<lambda>_ _ _. 0, env_evbits_msc = \<lambda>_ _. True,
     env_write_ok = \<lambda>_ _ _. True, env_system = \<lambda>_ _. 0, env_popen = \<lambda>_ _. None,
     env_resolves = \<lambda>_ _ _. True, env_fopen = \<lambda>_ _. True\<rparr>"

definition quote_creds :: WfrWifiCreds where
  "quote_creds = \<lparr>ssid = ''it'' @ sq @ ''s;'', password = ''a b'', security = 1, hidden = True\<rparr>"

lemma quote_creds_wf [simp]: "wf_creds quote_creds" "ssid quote_creds \<noteq> []"
  by (simp_all add: quote_creds_def wf_creds_def wfr_const)

lemma nm_host_active [simp]: "nm_active nm_host tr"
  by (simp add: nm_active_def cmd_status_def nm_host_def WEXITSTATUS_def)

text \<open>For credentials that fit the struct the nmcli command is never cut and never fails to build.\<close>

definition nmcli_text :: "WfrWifiCreds \<Rightarrow> string" where
  "nmcli_text c = ''nmcli dev wifi connect '' @ sh_quote (ssid c)
     @ (if security c = WFR_SEC_OPEN then [] else '' password '' @ sh_quote (password c))
     @ hidden_arg c @ '' 2>&1''"

lemma nmcli_connect_cmd_eq:
  assumes "wf_creds c"
  shows "nmcli_connect_cmd c = Some (nmcli_text c)"
proof -
  have l: "length (ssid c) \<le> 32" "length (password c) \<le> 63"
    using assms by (simp_all add: wf_creds_def wfr_const)
  then have "shell_escape (ssid c) 256 = Some (sh_quote (ssid c))"
    "shell_escape (password c) 256 = Some (sh_quote (password c))"
    by (auto intro!: shell_escape_fits)
  moreover have "length (sh_quote (ssid c)) \<le> 130" "length (sh_quote (password c)) \<le> 254"
    using l length_sh_quote [of "ssid c"] length_sh_quote [of "password c"] by linarith+
  then have "length (nmcli_text c) \<le> 1023"
    by (simp add: nmcli_text_def hidden_arg_def)
  then have "str_trunc 1023 (nmcli_text c) = nmcli_text c"
    by (rule str_trunc_short)
  ultimately show ?thesis
    by (cases "security c = WFR_SEC_OPEN")
      (simp_all add: nmcli_connect_cmd_def nmcli_text_def del: str_trunc_short)
qed

lemma nm_host_connects:
  "wf_creds c \<Longrightarrow> ssid c \<noteq> [] \<Longrightarrow> wp (wfr_net_connect nm_host (Some c)) (\<lambda>ok _. ok) tr"
  by (simp add: nmcli_connect_cmd_eq wfr_net_connect_def wfr_net_connect_nmcli_def)
    (simp add: cmd_status_def nm_host_def WEXITSTATUS_def)

lemma nm_host_evidence: "connected_evidence nm_host tr c tr' \<longleftrightarrow> nmcli_ran exited_with_0 nm_host c tr tr'"
  by (auto simp: connected_evidence_def nmcli_ran_def asked_def nm_host_def ended_by_signal_def nm_active_def
      cmd_status_def WEXITSTATUS_def)

theorem connect_success_evidence_witness:
  "\<exists>tr'. run_state (wfr_net_connect nm_host (Some quote_creds)) [] = (True, tr')
     \<and> nmcli_ran exited_with_0 nm_host quote_creds [] tr' \<and> slept tr' \<le> 36"
proof -
  obtain ok tr' where run: "run_state (wfr_net_connect nm_host (Some quote_creds)) [] = (ok, tr')"
    by fastforce
  have ok using nm_host_connects [OF quote_creds_wf] run by (rule wp_run)
  then show ?thesis
    using connect_success_evidence [OF run] run by (simp add: nm_host_evidence)
qed

section \<open>What the shell makes of the commands\<close>

lemma sh_lex_word_space:
  "\<forall>c\<in>set w. sh_plain c \<Longrightarrow> w \<noteq> [] \<Longrightarrow> sh_lex Blank (w @ '' '' @ rest) = map_option ((@) [Word w]) (sh_lex Blank rest)"
  using sh_lex_plain_word [of w rest] by simp

lemma sh_lex_redirect:
  "sh_lex Blank ''2>&1'' = Some [Word ''2'', Op CHR ''>'', Op CHR ''&'', Word ''1'']"
  by (simp add: sh_special_def sh_operator_def flush_def grow_def)

text \<open>
  C19: no SSID and no password can escape the nmcli command: for all credentials that fit the struct
  the shell reads the command \<^verbatim>\<open>wfr_net_connect_nmcli\<close> runs as one nmcli call whose arguments are the
  SSID and the password, char for char, followed only by the redirection.
\<close>

theorem nmcli_command_words:
  assumes "wf_creds c"
  shows "\<exists>cmd. nmcli_connect_cmd c = Some cmd \<and> sh_tokens cmd = Some
    (map Word ([''nmcli'', ''dev'', ''wifi'', ''connect'', ssid c]
       @ (if security c = WFR_SEC_OPEN then [] else [''password'', password c])
       @ (if hidden c then [''hidden'', ''yes''] else []))
     @ [Word ''2'', Op CHR ''>'', Op CHR ''&'', Word ''1''])"
proof -
  have plain: "\<forall>c\<in>set w. sh_plain c"
    if "w \<in> {''nmcli'', ''dev'', ''wifi'', ''connect'', ''password'', ''hidden'', ''yes''}" for w
    using that by (auto simp: sh_plain_def sh_special_def sh_operator_def)
  have w: "sh_lex Blank (w @ '' '' @ rest) = map_option ((@) [Word w]) (sh_lex Blank rest)"
    if "w \<in> {''nmcli'', ''dev'', ''wifi'', ''connect'', ''password'', ''hidden'', ''yes''}" for w rest
    using plain [OF that] that by (intro sh_lex_word_space) auto
  have q: "sh_lex Blank (sh_quote s @ '' '' @ rest) = map_option ((@) [Word s]) (sh_lex Blank rest)" for s rest
    by (simp add: sh_lex_escaped sh_lex_space)
  have t: "nmcli_text c = ''nmcli'' @ '' '' @ ''dev'' @ '' '' @ ''wifi'' @ '' '' @ ''connect'' @ '' ''
      @ sh_quote (ssid c) @ '' ''
      @ (if security c = WFR_SEC_OPEN then [] else ''password'' @ '' '' @ sh_quote (password c) @ '' '')
      @ (if hidden c then ''hidden'' @ '' '' @ ''yes'' @ '' '' else []) @ ''2>&1''"
    by (simp add: nmcli_text_def hidden_arg_def)
  have "sh_tokens (nmcli_text c) = Some
    (map Word ([''nmcli'', ''dev'', ''wifi'', ''connect'', ssid c]
       @ (if security c = WFR_SEC_OPEN then [] else [''password'', password c])
       @ (if hidden c then [''hidden'', ''yes''] else []))
     @ [Word ''2'', Op CHR ''>'', Op CHR ''&'', Word ''1''])"
    unfolding sh_tokens_def t
    by (cases "security c = WFR_SEC_OPEN"; cases "hidden c";
        simp only: w q sh_lex_redirect append_assoc insert_iff simp_thms if_True if_False
          append_Nil option.map; simp)
  then show ?thesis using nmcli_connect_cmd_eq [OF assms] by blast
qed

theorem nmcli_command_words_witness:
  "\<exists>cmd. nmcli_connect_cmd quote_creds = Some cmd \<and> sh_tokens cmd = Some
    (map Word [''nmcli'', ''dev'', ''wifi'', ''connect'', ''it'' @ sq @ ''s;'', ''password'', ''a b'', ''hidden'', ''yes'']
     @ [Word ''2'', Op CHR ''>'', Op CHR ''&'', Word ''1''])"
  using nmcli_command_words [OF quote_creds_wf(1)] by (simp add: quote_creds_def WFR_SEC_OPEN_def)

text \<open>The systemd-networkd path hands the SSID to the shell between quotes of its own, unescaped.\<close>

lemma networkd_sets_ssid:
  assumes "wifi_iface env tr = Some iface"
    and "cmd_line env (tr @ [Popen detect_cmd]) (wpa_cmd iface '' add_network'') 8 = Some net_id"
    and "net_id \<noteq> ''FAIL''"
  shows "effect tr (wfr_net_connect_networkd env c)
    (\<lambda>_ tr'. Popen (set_network_cmd iface net_id (quoted_setting '' ssid '' (ssid c))) \<in> set tr') 36"
  unfolding wfr_net_connect_networkd_def
  apply (rule effect_bind [OF effect_detect], simp)
  apply (simp add: assms(1))
  apply (rule effect_bind [OF effect_run_cmd_output], simp)
  apply (simp add: assms(2) [simplified] assms(3))
  apply (rule effect_bind [OF effect_run_wpa_cmd], simp)
  apply (rule effect_if, simp add: effect_return)
  apply (rule effect_bind [OF set_security_networkd], simp)
  apply (rule effect_if, simp add: effect_return in_mono [OF set_mono_prefix])
  apply (rule effect_weaken [OF select_networkd]; simp add: in_mono [OF set_mono_prefix])
  done

lemma set_ssid_text:
  assumes "length iface \<le> 31" and "length net_id \<le> 7" and "length s \<le> 32"
  shows "set_network_cmd iface net_id (quoted_setting '' ssid '' s)
    = ''wpa_cli'' @ '' '' @ ''-i'' @ '' '' @ iface @ '' '' @ ''set_network'' @ '' '' @ net_id @ '' '' @ ''ssid'' @ '' ''
      @ CHR 0x27 # (dq @ s @ dq) @ CHR 0x27 # '' 2>/dev/null''"
  using assms by (simp add: set_network_cmd_def wpa_cmd_def quoted_setting_def)

lemma sh_lex_quoted:
  "sh_lex Blank (CHR 0x27 # d # s) = sh_lex (Quoted []) (d # s)"
  by (simp add: grow_def)

lemma set_ssid_lex:
  assumes "\<forall>c\<in>set iface. sh_plain c" and "iface \<noteq> []"
    and "\<forall>c\<in>set net_id. sh_plain c" and "net_id \<noteq> []"
  shows "sh_lex Blank (''wpa_cli'' @ '' '' @ ''-i'' @ '' '' @ iface @ '' '' @ ''set_network'' @ '' '' @ net_id @ '' ''
      @ ''ssid'' @ '' '' @ rest)
    = map_option ((@) (map Word [''wpa_cli'', ''-i'', iface, ''set_network'', net_id, ''ssid'']))
        (sh_lex Blank rest)"
proof -
  have plain: "\<forall>c\<in>set w. sh_plain c" if "w \<in> {''wpa_cli'', ''-i'', ''set_network'', ''ssid''}" for w
    using that by (auto simp: sh_plain_def sh_special_def sh_operator_def)
  have w: "sh_lex Blank (w @ '' '' @ rest) = map_option ((@) [Word w]) (sh_lex Blank rest)"
    if "w \<in> {''wpa_cli'', ''-i'', ''set_network'', ''ssid''}" for w rest
    using plain [OF that] that by (intro sh_lex_word_space) auto
  show ?thesis
    by (simp only: w insert_iff simp_thms sh_lex_word_space [OF assms(1,2)] sh_lex_word_space [OF assms(3,4)])
      (cases "sh_lex Blank rest"; simp)
qed

lemma redirect_null: "sh_lex (InWord w) '' 2>/dev/null''
    = Some [Word w, Word ''2'', Op CHR ''>'', Word ''/dev/null'']"
  by (simp add: sh_special_def sh_operator_def flush_def grow_def)

text \<open>
  On the systemd-networkd path an SSID without a single quote reaches wpa_cli unchanged: the
  command that sets it is made, and the shell reads it as one wpa_cli call with the quoted SSID as
  its last argument.
\<close>

theorem networkd_plain_ssid:
  assumes "run_state (wfr_net_connect_networkd env c) tr = (ok, tr')"
    and "wifi_iface env tr = Some iface"
    and "cmd_line env (tr @ [Popen detect_cmd]) (wpa_cmd iface '' add_network'') 8 = Some net_id"
    and "net_id \<noteq> ''FAIL''" and "net_id \<noteq> []"
    and "\<forall>c\<in>set iface. sh_plain c" and "\<forall>c\<in>set net_id. sh_plain c"
    and "wf_creds c" and "CHR 0x27 \<notin> set (ssid c)"
  shows "\<exists>cmd. Popen cmd \<in> set tr' \<and> sh_tokens cmd = Some
    (map Word [''wpa_cli'', ''-i'', iface, ''set_network'', net_id, ''ssid'', dq @ ssid c @ dq]
      @ [Word ''2'', Op CHR ''>'', Word ''/dev/null''])"
proof -
  have if31: "iface \<noteq> []" "length iface \<le> 31"
    using wifi_iface_props [OF assms(2)] by simp_all
  have "length net_id \<le> 7" using cmd_line_length [OF assms(3)] by simp
  moreover have "length (ssid c) \<le> 32" using assms(8) by (simp add: wf_creds_def wfr_const)
  ultimately have t: "set_network_cmd iface net_id (quoted_setting '' ssid '' (ssid c))
    = ''wpa_cli'' @ '' '' @ ''-i'' @ '' '' @ iface @ '' '' @ ''set_network'' @ '' '' @ net_id @ '' '' @ ''ssid'' @ '' ''
      @ CHR 0x27 # (dq @ ssid c @ dq) @ CHR 0x27 # '' 2>/dev/null''"
    using if31 by (intro set_ssid_text) auto
  have q: "sh_lex Blank (CHR 0x27 # (dq @ ssid c @ dq) @ CHR 0x27 # '' 2>/dev/null'')
      = Some [Word (dq @ ssid c @ dq), Word ''2'', Op CHR ''>'', Word ''/dev/null'']"
    using assms(9) sh_lex_quoted_plain [of "dq @ ssid c @ dq" "[]" "'' 2>/dev/null''"] redirect_null
    by (simp add: sh_lex_quoted del: sh_lex.simps)
  have "sh_tokens (set_network_cmd iface net_id (quoted_setting '' ssid '' (ssid c))) = Some
    (map Word [''wpa_cli'', ''-i'', iface, ''set_network'', net_id, ''ssid'', dq @ ssid c @ dq]
      @ [Word ''2'', Op CHR ''>'', Word ''/dev/null''])"
    unfolding sh_tokens_def t set_ssid_lex [OF assms(6) if31(1) assms(7,5)] q by simp
  moreover have "Popen (set_network_cmd iface net_id (quoted_setting '' ssid '' (ssid c))) \<in> set tr'"
    using effect_run [OF networkd_sets_ssid [OF assms(2-4)] assms(1)] by blast
  ultimately show ?thesis by blast
qed

text \<open>A host with systemd-networkd and a running wpa_supplicant on wlan0.\<close>

definition nd_host :: os_env where
  "nd_host = nm_host\<lparr>env_system := \<lambda>_ cmd. if cmd = ''which nmcli >/dev/null 2>&1'' then 256 else 0,
     env_popen := \<lambda>_ cmd. if cmd = detect_cmd then Some (''wlan0'' @ nl)
       else if cmd = wpa_cmd ''wlan0'' '' add_network'' then Some (''0'' @ nl)
       else Some (''OK'' @ nl)\<rparr>"

lemma nd_host_iface: "wifi_iface nd_host tr = Some ''wlan0''"
  by (simp add: wifi_iface_def cmd_line_def nd_host_def nm_host_def fgets_def c_str_def chomp_def)

lemma nd_host_add: "cmd_line nd_host tr (wpa_cmd ''wlan0'' '' add_network'') 8 = Some ''0''"
proof -
  have "wpa_cmd ''wlan0'' '' add_network'' \<noteq> detect_cmd"
    by (simp add: wpa_cmd_def detect_cmd_def)
  then show ?thesis
    by (simp add: cmd_line_def nd_host_def nm_host_def fgets_def c_str_def chomp_def)
qed

lemma sh_plain_literal:
  "\<forall>c\<in>set ''wlan0''. sh_plain c" "\<forall>c\<in>set ''0''. sh_plain c"
  by (simp_all add: sh_plain_def sh_special_def sh_operator_def)

definition plain_creds :: WfrWifiCreds where
  "plain_creds = \<lparr>ssid = ''a b'' @ dq, password = ''12345678'', security = 1, hidden = False\<rparr>"

theorem networkd_plain_ssid_witness:
  "\<exists>ok tr'. run_state (wfr_net_connect_networkd nd_host plain_creds) [] = (ok, tr')
     \<and> (\<exists>cmd. Popen cmd \<in> set tr' \<and> sh_tokens cmd = Some
       (map Word [''wpa_cli'', ''-i'', ''wlan0'', ''set_network'', ''0'', ''ssid'', dq @ ''a b'' @ dq @ dq]
        @ [Word ''2'', Op CHR ''>'', Word ''/dev/null'']))"
proof -
  obtain ok tr' where run: "run_state (wfr_net_connect_networkd nd_host plain_creds) [] = (ok, tr')"
    by fastforce
  have wf: "wf_creds plain_creds" by (simp add: plain_creds_def wf_creds_def wfr_const)
  have q: "CHR 0x27 \<notin> set (ssid plain_creds)" by (simp add: plain_creds_def)
  have n: "''0'' \<noteq> ''FAIL''" "''0'' \<noteq> []" by simp_all
  have s: "ssid plain_creds = ''a b'' @ dq" by (simp add: plain_creds_def)
  show ?thesis
    using networkd_plain_ssid [OF run nd_host_iface nd_host_add n sh_plain_literal wf q] run
    unfolding s by auto
qed

text \<open>An SSID with single quotes.\<close>

definition evil_creds :: WfrWifiCreds where
  "evil_creds = \<lparr>ssid = sq @ '';reboot;'' @ sq, password = ''12345678'', security = 1, hidden = False\<rparr>"

text \<open>
  C28: on the systemd-networkd path a received SSID can run commands on the host. The SSID is put
  between single quotes without being escaped; for an SSID that holds single quotes the shell is given
  a second command, here reboot, as a command of its own between two separators.
\<close>

theorem networkd_command_injection:
  "wf_creds evil_creds \<and> (\<exists>cmd. Popen cmd \<in> set (snd (run_state (wfr_net_connect_networkd nd_host evil_creds) []))
     \<and> sh_tokens cmd = Some
       (map Word [''wpa_cli'', ''-i'', ''wlan0'', ''set_network'', ''0'', ''ssid'', dq]
        @ [Op CHR '';'', Word ''reboot'', Op CHR '';'']
        @ [Word dq, Word ''2'', Op CHR ''>'', Word ''/dev/null'']))"
proof -
  obtain ok tr' where run: "run_state (wfr_net_connect_networkd nd_host evil_creds) [] = (ok, tr')"
    by fastforce
  have n: "''0'' \<noteq> ''FAIL''" "''0'' \<noteq> []" "''wlan0'' \<noteq> []" by simp_all
  have s: "ssid evil_creds = sq @ '';reboot;'' @ sq" by (simp add: evil_creds_def)
  have "Popen (set_network_cmd ''wlan0'' ''0'' (quoted_setting '' ssid '' (ssid evil_creds))) \<in> set tr'"
    using effect_run [OF networkd_sets_ssid [OF nd_host_iface nd_host_add n(1)] run] by blast
  moreover have "sh_lex Blank (CHR 0x27 # (dq @ ssid evil_creds @ dq) @ CHR 0x27 # '' 2>/dev/null'')
      = Some ([Word dq] @ [Op CHR '';'', Word ''reboot'', Op CHR '';'']
        @ [Word dq, Word ''2'', Op CHR ''>'', Word ''/dev/null''])"
    by (simp add: s sh_special_def sh_operator_def flush_def grow_def)
  then have "sh_tokens (set_network_cmd ''wlan0'' ''0'' (quoted_setting '' ssid '' (ssid evil_creds))) = Some
       (map Word [''wpa_cli'', ''-i'', ''wlan0'', ''set_network'', ''0'', ''ssid'', dq]
        @ [Op CHR '';'', Word ''reboot'', Op CHR '';'']
        @ [Word dq, Word ''2'', Op CHR ''>'', Word ''/dev/null''])"
    using set_ssid_text [of "''wlan0''" "''0''" "ssid evil_creds"]
      set_ssid_lex [OF sh_plain_literal(1) n(3) sh_plain_literal(2) n(2)]
    by (simp add: sh_tokens_def s)
  moreover have "wf_creds evil_creds"
    by (simp add: evil_creds_def wf_creds_def wfr_const)
  ultimately show ?thesis using run by auto
qed

text \<open>
  A command that was killed counts as one that succeeded: when the wait status of nmcli says that
  a signal ended it, the exit status that is looked at is 0 and the connection is reported.
\<close>

theorem killed_nmcli_is_success:
  assumes "wf_creds c" and "ssid c \<noteq> []" and "nm_active env tr"
    and "env_system env (nm_trace env tr) (nmcli_text c) = signal" and "0 < signal" and "signal < 128"
  shows "fst (run_state (wfr_net_connect env (Some c)) tr)"
proof -
  have st: "cmd_status env (nm_trace env tr) (nmcli_text c) = 0"
    using assms(4-6) by (simp add: cmd_status_def WEXITSTATUS_def)
  have "wp (wfr_net_connect env (Some c)) (\<lambda>ok _. ok) tr"
    by (simp add: wfr_net_connect_def wfr_net_connect_nmcli_def assms(2,3) st nmcli_connect_cmd_eq [OF assms(1)])
  then show ?thesis by (simp add: wp_def split: prod.splits)
qed

theorem killed_nmcli_is_success_witness:
  "fst (run_state (wfr_net_connect
     (nm_host\<lparr>env_system := \<lambda>_ cmd. if cmd = nmcli_text quote_creds then 9 else 0\<rparr>) (Some quote_creds)) [])"
proof (rule killed_nmcli_is_success [OF quote_creds_wf, where signal = 9])
  show "nm_active (nm_host\<lparr>env_system := \<lambda>_ cmd. if cmd = nmcli_text quote_creds then 9 else 0\<rparr>) []"
    by (simp add: nm_active_def cmd_status_def WEXITSTATUS_def)
qed simp_all

end
