(* ===== verification/Ack_Send.thy ===== *)
theory Ack_Send
  imports Os Framing
begin

unbundle bit_operations_syntax

text \<open>
  The daemon's acknowledgement transmitter, \<^verbatim>\<open>daemon/wfr_ack.c\<close>, over the operating-system calls of
  theory Os: one LIRC scancode per frame, with the same framing as the credentials.
\<close>

definition wfr_ack_open :: "os_env \<Rightarrow> string \<Rightarrow> int io" where
  "wfr_ack_open env device = do {
     fd \<leftarrow> sys_open env device O_WRONLY;
     (if fd < 0 then State_Monad.return (-1)
      else do {
        r \<leftarrow> sys_ioctl env fd LIRC_SET_SEND_MODE_SCANCODE;
        (if r < 0 then do {
           os_do (Close fd);
           State_Monad.return (-1)
         }
         else State_Monad.return fd)
      })
   }"

definition wfr_ack_close :: "int \<Rightarrow> unit io" where
  "wfr_ack_close fd = (if fd \<ge> 0 then os_do (Close fd) else State_Monad.return ())"

definition rc6_scancode :: "byte \<Rightarrow> byte \<Rightarrow> lirc_scancode" where
  "rc6_scancode address command =
     \<lparr>sc_rc_proto = RC_PROTO_RC6_0, sc_scancode = push_bit 8 (ucast address) OR ucast command\<rparr>"

definition send_rc6 :: "os_env \<Rightarrow> int \<Rightarrow> byte \<Rightarrow> byte \<Rightarrow> bool io" where
  "send_rc6 env fd address command = sys_write env fd (rc6_scancode address command)"

definition delay_ms :: "nat \<Rightarrow> unit io" where
  "delay_ms ms = os_do (Nanosleep (ms div 1000) (ms mod 1000 * 1000000))"

fun send_ack_data :: "os_env \<Rightarrow> int \<Rightarrow> byte \<Rightarrow> byte list \<Rightarrow> bool io" where
  "send_ack_data env fd pass [] = State_Monad.return True"
| "send_ack_data env fd pass (b # data) = do {
     ok \<leftarrow> send_rc6 env fd (WFR_FRAME_MAGIC OR WFR_FRAME_TYPE_DATA OR pass) b;
     (if \<not> ok then State_Monad.return False
      else do {
        delay_ms WFR_RC6_INTER_MSG_MS;
        send_ack_data env fd pass data
      })
   }"

text \<open>The payload text before \<^verbatim>\<open>snprintf\<close> cuts it; its length is what \<^verbatim>\<open>snprintf\<close> returns.\<close>

definition ack_payload :: "bool \<Rightarrow> string option \<Rightarrow> string" where
  "ack_payload success ip_str =
     (case ip_str of
        Some ip \<Rightarrow> if success then WFR_ACK_PREFIX_OK @ ip else WFR_ACK_PREFIX_FAIL
      | None \<Rightarrow> WFR_ACK_PREFIX_FAIL)"

definition wfr_ack_send :: "os_env \<Rightarrow> int \<Rightarrow> bool \<Rightarrow> string option \<Rightarrow> bool io" where
  "wfr_ack_send env fd success ip_str =
     (if fd < 0 then State_Monad.return False
      else
        let payload = ack_payload success ip_str; payload_len = length payload in
        if payload_len = 0 \<or> payload_len > 255 then State_Monad.return False
        else
          let data = map byte_of_char payload; crc = wfr_crc8 data; pass = 0 in
          do {
            ok \<leftarrow> send_rc6 env fd (WFR_FRAME_MAGIC OR WFR_FRAME_TYPE_START OR pass) (of_nat payload_len);
            (if \<not> ok then State_Monad.return False
             else do {
               delay_ms WFR_RC6_INTER_MSG_MS;
               ok \<leftarrow> send_ack_data env fd pass data;
               (if \<not> ok then State_Monad.return False
                else send_rc6 env fd (WFR_FRAME_MAGIC OR WFR_FRAME_TYPE_END OR pass) crc)
             })
          })"

section \<open>What reaches the air\<close>

text \<open>How a receiver of RC-6 reads a scancode: the address is the second byte, the command the first.\<close>

definition scancode_frame :: "64 word \<Rightarrow> frame" where
  "scancode_frame sc = (ucast (drop_bit 8 sc AND 0xFF), ucast (sc AND 0xFF))"

lemma scancode_bytes:
  "(ucast (drop_bit 8 (push_bit 8 (ucast a) OR ucast c :: 64 word)) :: byte) = a"
  "(ucast (push_bit 8 (ucast a) OR ucast c :: 64 word) :: byte) = c" for a c :: byte
  by (auto intro!: bit_word_eqI simp: bit_ucast_iff bit_drop_bit_eq bit_or_iff bit_push_bit_iff
      simp del: drop_bit_or dest: bit_imp_le_length)

lemma scancode_frame_rc6 [simp]: "scancode_frame (sc_scancode (rc6_scancode a c)) = (a, c)"
  by (simp add: scancode_frame_def rc6_scancode_def ucast_low_byte scancode_bytes del: drop_bit_or)

fun frames_written :: "trace \<Rightarrow> frame list" where
  "frames_written [] = []"
| "frames_written (c # tr) =
     (case c of WriteScancode fd sc \<Rightarrow> [scancode_frame (sc_scancode sc)] | _ \<Rightarrow> []) @ frames_written tr"

lemma frames_written_append [simp]: "frames_written (tr @ tr') = frames_written tr @ frames_written tr'"
  by (induction tr) auto

lemma wp_send_rc6 [simp]:
  "wp (send_rc6 env fd a c) Q tr
   = Q (env_write_ok env tr fd (rc6_scancode a c)) (tr @ [WriteScancode fd (rc6_scancode a c)])"
  by (simp add: send_rc6_def sys_write_def)

lemma wp_delay_ms [simp]: "wp (delay_ms ms) Q tr = Q () (tr @ [Nanosleep (ms div 1000) (ms mod 1000 * 1000000)])"
  by (simp add: delay_ms_def)

abbreviation ack_data_frames :: "byte list \<Rightarrow> frame list" where
  "ack_data_frames bs \<equiv> map (\<lambda>b. (frame_addr WFR_FRAME_TYPE_DATA 0, b)) bs"

lemma send_ack_data_wp:
  "wp (send_ack_data env fd 0 bs) (\<lambda>ok tr'. prefix tr tr' \<and> (\<exists>k \<le> length bs. (ok \<longrightarrow> k = length bs)
     \<and> frames_written tr' = frames_written tr @ ack_data_frames (take k bs))
     \<and> ((\<forall>h sc. env_write_ok env h fd sc) \<longrightarrow> ok)) tr"
proof (induction bs arbitrary: tr)
  case (Cons b bs)
  let ?sc = "rc6_scancode (WFR_FRAME_MAGIC OR WFR_FRAME_TYPE_DATA OR 0) b"
  let ?tr = "(tr @ [WriteScancode fd ?sc]) @ [Nanosleep (WFR_RC6_INTER_MSG_MS div 1000) (WFR_RC6_INTER_MSG_MS mod 1000 * 1000000)]"
  have f: "frames_written ?tr = frames_written tr @ [(frame_addr WFR_FRAME_TYPE_DATA 0, b)]"
    by (simp add: frame_addr_def)
  have "wp (send_ack_data env fd 0 bs) (\<lambda>ok tr'. prefix tr tr' \<and> (\<exists>k \<le> length (b # bs). (ok \<longrightarrow> k = length (b # bs))
     \<and> frames_written tr' = frames_written tr @ ack_data_frames (take k (b # bs)))
     \<and> ((\<forall>h sc. env_write_ok env h fd sc) \<longrightarrow> ok)) ?tr"
  proof (rule wp_mono [OF Cons], elim conjE exE)
    fix ok tr' k
    assume pr: "prefix ?tr tr'" and go: "(\<forall>h sc. env_write_ok env h fd sc) \<longrightarrow> ok"
      and k: "k \<le> length bs" "ok \<longrightarrow> k = length bs"
        "frames_written tr' = frames_written ?tr @ ack_data_frames (take k bs)"
    have "prefix tr tr'" using pr by (metis append_assoc prefix_def)
    moreover have "frames_written tr' = frames_written tr @ ack_data_frames (take (Suc k) (b # bs))"
      using k(3) unfolding f by simp
    ultimately show "prefix tr tr' \<and> (\<exists>k \<le> length (b # bs). (ok \<longrightarrow> k = length (b # bs))
      \<and> frames_written tr' = frames_written tr @ ack_data_frames (take k (b # bs)))
      \<and> ((\<forall>h sc. env_write_ok env h fd sc) \<longrightarrow> ok)"
      using go k(1,2) by (intro conjI exI [of _ "Suc k"]) auto
  qed
  moreover have "frames_written (tr @ [WriteScancode fd ?sc])
      = frames_written tr @ ack_data_frames (take 1 (b # bs))"
    by (simp add: frame_addr_def)
  ultimately show ?case
    by (auto intro!: exI [of _ "1::nat"])
qed simp

lemma ack_send_wp:
  assumes fd: "0 \<le> fd" and len: "payload = map byte_of_char (ack_payload success ip)" "length payload \<le> 255"
  shows "wp (wfr_ack_send env fd success ip) (\<lambda>ok tr'. prefix tr tr' \<and> (\<exists>fs.
     frames_written tr' = frames_written tr @ fs \<and> prefix fs (wfr_frames 0 payload)
     \<and> (ok \<longrightarrow> fs = wfr_frames 0 payload)) \<and> ((\<forall>h sc. env_write_ok env h fd sc) \<longrightarrow> ok)) tr"
proof -
  let ?E = "\<lambda>ok tr'. prefix tr tr' \<and> (\<exists>fs. frames_written tr' = frames_written tr @ fs
     \<and> prefix fs (wfr_frames 0 payload) \<and> (ok \<longrightarrow> fs = wfr_frames 0 payload))
     \<and> ((\<forall>h sc. env_write_ok env h fd sc) \<longrightarrow> ok)"
  let ?s = "(frame_addr WFR_FRAME_TYPE_START 0, of_nat (length payload) :: byte)"
  let ?e = "(frame_addr WFR_FRAME_TYPE_END 0, wfr_crc8 payload)"
  have l: "length (ack_payload success ip) = length payload" "length payload \<noteq> 0"
    using len by (auto simp: ack_payload_def wfr_const split: option.splits)
  define tr1 where "tr1 = (tr @ [WriteScancode fd (rc6_scancode (fst ?s) (snd ?s))])
    @ [Nanosleep (WFR_RC6_INTER_MSG_MS div 1000) (WFR_RC6_INTER_MSG_MS mod 1000 * 1000000)]"
  have f1: "frames_written tr1 = frames_written tr @ [?s]" and p1: "prefix tr tr1"
    by (simp_all add: tr1_def)
  have w: "wfr_frames 0 payload = ?s # ack_data_frames payload @ [?e]"
    by (simp add: wfr_frames_def)
  have rest: "wp (do { ok \<leftarrow> send_ack_data env fd 0 payload;
      (if \<not> ok then State_Monad.return False else send_rc6 env fd (fst ?e) (snd ?e)) }) ?E tr1"
  proof (simp only: wp_bind, rule wp_mono [OF send_ack_data_wp], elim conjE exE)
    fix ok tr2 k
    assume p2: "prefix tr1 tr2" and k: "k \<le> length payload" "ok \<longrightarrow> k = length payload"
      and f2: "frames_written tr2 = frames_written tr1 @ ack_data_frames (take k payload)"
      and all: "(\<forall>h sc. env_write_ok env h fd sc) \<longrightarrow> ok"
    have p: "prefix tr tr2" using p1 p2 by (rule prefix_order.trans)
    have f: "frames_written tr2 = frames_written tr @ ?s # ack_data_frames (take k payload)"
      unfolding f2 f1 by simp
    have pre: "prefix (?s # ack_data_frames (take k payload)) (wfr_frames 0 payload)"
      unfolding w by (metis Cons_prefix_Cons append_take_drop_id map_append append_assoc prefixI)
    show "wp (if \<not> ok then State_Monad.return False else send_rc6 env fd (fst ?e) (snd ?e)) ?E tr2"
    proof (cases ok)
      case False
      with p f pre all show ?thesis by auto
    next
      case True
      with k have "k = length payload" by simp
      with True p f show ?thesis by (auto simp: w)
    qed
  qed
  have g: "\<not> fd < 0" "\<not> (length payload = 0 \<or> length payload > 255)"
    using fd l len(2) by auto
  have run: "wfr_ack_send env fd success ip = do {
      ok \<leftarrow> send_rc6 env fd (fst ?s) (snd ?s);
      (if \<not> ok then State_Monad.return False
       else do {
         delay_ms WFR_RC6_INTER_MSG_MS;
         ok \<leftarrow> send_ack_data env fd 0 payload;
         (if \<not> ok then State_Monad.return False else send_rc6 env fd (fst ?e) (snd ?e))
       }) }"
    unfolding wfr_ack_send_def Let_def if_not_P [OF g(1)] if_not_P [OF g(2)] len(1) [symmetric] l(1)
    by (simp add: frame_addr_def cong: if_cong)
  have s: "prefix [?s] (wfr_frames 0 payload)" by (simp add: w)
  show ?thesis
  proof (cases "env_write_ok env tr fd (rc6_scancode (fst ?s) (snd ?s))")
    case True
    with rest show ?thesis
      by (simp only: run wp_bind wp_send_rc6 tr1_def wp_delay_ms not_True_eq_False if_False)
  next
    case False
    with s show ?thesis
      unfolding run wp_bind wp_send_rc6 by auto
  qed
qed

section \<open>Properties\<close>

text \<open>
  The acknowledgement goes out as one complete frame sequence or is reported as not sent: on an
  open device, with an address that leaves room in the payload, the scancodes written are those of
  \<^verbatim>\<open>OK:\<close> and the address, or of \<^verbatim>\<open>FAIL\<close>, cut only after a write that failed, and the result is true
  only for the whole sequence, which is sent whenever the device accepts every write.
\<close>

theorem ack_send_frames:
  assumes "0 \<le> fd" and "length (ack_payload success ip) \<le> 255"
    and "run_state (wfr_ack_send env fd success ip) tr = (ok, tr')"
  shows "\<exists>fs. frames_written tr' = frames_written tr @ fs
    \<and> prefix fs (wfr_frames 0 (map byte_of_char (ack_payload success ip)))
    \<and> (ok \<longrightarrow> fs = wfr_frames 0 (map byte_of_char (ack_payload success ip)))
    \<and> ((\<forall>h sc. env_write_ok env h fd sc) \<longrightarrow> ok)"
  using wp_run [OF ack_send_wp [OF assms(1) refl, of success ip env tr] assms(3)] assms(2) by auto

theorem ack_send_frames_witness:
  "\<exists>tr'. run_state (wfr_ack_send \<lparr>env_open = \<lambda>_ _ _. 3, env_ioctl = \<lambda>_ _ _. 0, env_evbits_msc = \<lambda>_ _. True,
       env_write_ok = \<lambda>_ _ _. True, env_system = \<lambda>_ _. 0, env_popen = \<lambda>_ _. None,
       env_resolves = \<lambda>_ _ _. True, env_fopen = \<lambda>_ _. True\<rparr> 4 True (Some ''10.0.0.2'')) [] = (True, tr')
     \<and> frames_written tr' = wfr_frames 0 (map byte_of_char ''OK:10.0.0.2'')"
proof -
  let ?env = "\<lparr>env_open = \<lambda>_ _ _. 3, env_ioctl = \<lambda>_ _ _. 0, env_evbits_msc = \<lambda>_ _. True,
       env_write_ok = \<lambda>_ _ _. True, env_system = \<lambda>_ _. 0, env_popen = \<lambda>_ _. None,
       env_resolves = \<lambda>_ _ _. True, env_fopen = \<lambda>_ _. True\<rparr>"
  obtain ok tr' where run: "run_state (wfr_ack_send ?env 4 True (Some ''10.0.0.2'')) [] = (ok, tr')"
    by fastforce
  have p: "ack_payload True (Some ''10.0.0.2'') = ''OK:10.0.0.2''"
    by (simp add: ack_payload_def wfr_const)
  show ?thesis
    using ack_send_frames [OF _ _ run] run unfolding p by auto
qed

text \<open>
  A failed \<^verbatim>\<open>wfr_ack_open\<close> leaves no file descriptor behind: its result is the descriptor it
  opened, or -1, and in the second case a descriptor that had been opened was closed.
\<close>

theorem ack_open_no_leak:
  assumes "run_state (wfr_ack_open env device) tr = (fd, tr')"
  shows "(fd = -1 \<or> 0 \<le> fd \<and> fd = env_open env tr device O_WRONLY)
    \<and> (fd = -1 \<and> 0 \<le> env_open env tr device O_WRONLY \<longrightarrow> last tr' = Close (env_open env tr device O_WRONLY))
    \<and> (0 \<le> fd \<longrightarrow> (\<forall>n. Close n \<in> set tr' \<longrightarrow> Close n \<in> set tr))"
  using assms by (auto simp: wfr_ack_open_def sys_open_def sys_ioctl_def split: if_splits)

theorem ack_open_no_leak_witness:
  "\<exists>env. run_state (wfr_ack_open env ''/dev/lirc0'') [] =
     (-1, [Open ''/dev/lirc0'' O_WRONLY, Ioctl 5 LIRC_SET_SEND_MODE_SCANCODE, Close 5])"
proof -
  let ?env = "\<lparr>env_open = \<lambda>_ _ _. 5, env_ioctl = \<lambda>_ _ _. -1, env_evbits_msc = \<lambda>_ _. True,
       env_write_ok = \<lambda>_ _ _. True, env_system = \<lambda>_ _. 0, env_popen = \<lambda>_ _. None,
       env_resolves = \<lambda>_ _ _. True, env_fopen = \<lambda>_ _. True\<rparr>"
  have run: "run_state (wfr_ack_open ?env ''/dev/lirc0'') [] =
     (-1, [Open ''/dev/lirc0'' O_WRONLY, Ioctl 5 LIRC_SET_SEND_MODE_SCANCODE, Close 5])"
    by (simp add: wfr_ack_open_def sys_open_def sys_ioctl_def)
  from ack_open_no_leak [OF run] run show ?thesis by blast
qed

end
