(* ===== verification/Receivers.thy ===== *)
theory Receivers
  imports Os Daemon_Decode
begin

unbundle bit_operations_syntax

text \<open>
  The daemon's two infrared receivers: \<^verbatim>\<open>daemon/wfr_lirc.c\<close> reads scancodes the kernel decoded,
  \<^verbatim>\<open>daemon/wfr_evdev.c\<close> raw NEC words. A receiver blocks in \<^verbatim>\<open>read\<close>; what its reads will return is a
  list of arrivals, and a read with none left is still blocked (\<open>None\<close>). The locale
  \<open>scancode_reader\<close> is what the main loop relies on: the reader returns the first event it accepts,
  and gives up on the first read that fails.
\<close>

datatype 'e read_result = ReadOk 'e | ReadShort | ReadError int

text \<open>
  One return of \<^verbatim>\<open>read\<close>: its result; whether SIGTERM or SIGINT is handled between the test of \<^verbatim>\<open>running\<close>
  before that return and the next test after it, so while the read waits or while what it completes is
  handled; and the clock readings the decoder takes if a frame comes of it.
\<close>

record 'e arrival =
  arr_result :: "'e read_result"
  arr_stop :: bool
  arr_clock :: "timespec \<times> timespec"

text \<open>
  What a read loop gives: the frame or, for the C result -1, nothing; the last arrival's clock;
  whether a signal came; and the arrivals left.
\<close>

type_synonym 'e read_outcome = "(frame option \<times> (timespec \<times> timespec) \<times> bool \<times> 'e arrival list) option"

definition also_stop :: "bool \<Rightarrow> 'e read_outcome \<Rightarrow> 'e read_outcome" where
  "also_stop s = map_option (\<lambda>(f, t, s', rest). (f, t, s \<or> s', rest))"

section \<open>LIRC\<close>

definition wfr_lirc_open :: "os_env \<Rightarrow> string \<Rightarrow> int io" where
  "wfr_lirc_open env device = do {
     fd \<leftarrow> sys_open env device O_RDONLY;
     (if fd < 0 then State_Monad.return (-1)
      else do {
        r \<leftarrow> sys_ioctl env fd LIRC_SET_REC_MODE_SCANCODE;
        (if r < 0 then do {
           os_do (Close fd);
           State_Monad.return (-1)
         }
         else State_Monad.return fd)
      })
   }"

definition wfr_lirc_close :: "int \<Rightarrow> unit io" where
  "wfr_lirc_close fd = (if fd \<ge> 0 then os_do (Close fd) else State_Monad.return ())"

fun wfr_lirc_read_scancode :: "lirc_scancode arrival list \<Rightarrow> lirc_scancode read_outcome" where
  "wfr_lirc_read_scancode [] = None"
| "wfr_lirc_read_scancode (r # rest) =
     (case arr_result r of
        ReadOk sc \<Rightarrow>
          (if sc_rc_proto sc \<noteq> RC_PROTO_RC6_0 \<and> sc_rc_proto sc \<noteq> RC_PROTO_NEC
           then also_stop (arr_stop r) (wfr_lirc_read_scancode rest)
           else
             let address = ucast (drop_bit 8 (sc_scancode sc) AND 0xFF);
                 command = ucast (sc_scancode sc AND 0xFF)
             in Some (Some (address, command), arr_clock r, arr_stop r, rest))
      | _ \<Rightarrow> Some (None, arr_clock r, arr_stop r, rest))"

section \<open>evdev\<close>

record input_event =
  ev_type :: u16
  ev_code :: u16
  ev_value :: u32

definition EV_MSC :: u16 where "EV_MSC = 4"
definition MSC_RAW :: u16 where "MSC_RAW = 3"

definition reverse_bits :: "byte \<Rightarrow> byte" where
  "reverse_bits b =
     (let b = drop_bit 4 (b AND 0xF0) OR push_bit 4 (b AND 0x0F);
          b = drop_bit 2 (b AND 0xCC) OR push_bit 2 (b AND 0x33);
          b = drop_bit 1 (b AND 0xAA) OR push_bit 1 (b AND 0x55)
      in b)"

definition wfr_evdev_open :: "os_env \<Rightarrow> string \<Rightarrow> int io" where
  "wfr_evdev_open env device = do {
     fd \<leftarrow> sys_open env device O_RDONLY;
     (if fd < 0 then State_Monad.return (-1)
      else do {
        r \<leftarrow> sys_ioctl env fd EVIOCGBIT_0;
        (if r < 0 then do {
           os_do (Close fd);
           State_Monad.return (-1)
         }
         else do {
           tr \<leftarrow> State_Monad.get;
           (if \<not> env_evbits_msc env tr fd then do {
              os_do (Close fd);
              State_Monad.return (-1)
            }
            else State_Monad.return fd)
         })
      })
   }"

definition wfr_evdev_close :: "int \<Rightarrow> unit io" where
  "wfr_evdev_close fd = (if fd \<ge> 0 then os_do (Close fd) else State_Monad.return ())"

fun wfr_evdev_read_scancode :: "input_event arrival list \<Rightarrow> input_event read_outcome" where
  "wfr_evdev_read_scancode [] = None"
| "wfr_evdev_read_scancode (r # rest) =
     (case arr_result r of
        ReadOk ev \<Rightarrow>
          (if ev_type ev \<noteq> EV_MSC \<or> ev_code ev \<noteq> MSC_RAW
           then also_stop (arr_stop r) (wfr_evdev_read_scancode rest)
           else
             let raw = ev_value ev;
                 addr = reverse_bits (ucast (drop_bit 24 raw AND 0xFF));
                 addr_inv = reverse_bits (ucast (drop_bit 16 raw AND 0xFF));
                 cmd = reverse_bits (ucast (drop_bit 8 raw AND 0xFF));
                 cmd_inv = reverse_bits (ucast (raw AND 0xFF))
             in if addr XOR addr_inv \<noteq> 0xFF
                then also_stop (arr_stop r) (wfr_evdev_read_scancode rest)
                else if cmd XOR cmd_inv \<noteq> 0xFF
                then also_stop (arr_stop r) (wfr_evdev_read_scancode rest)
                else Some (Some (addr, cmd), arr_clock r, arr_stop r, rest))
      | _ \<Rightarrow> Some (None, arr_clock r, arr_stop r, rest))"

section \<open>What a reader accepts\<close>

definition lirc_accepts :: "lirc_scancode \<Rightarrow> frame option" where
  "lirc_accepts sc =
     (if sc_rc_proto sc = RC_PROTO_RC6_0 \<or> sc_rc_proto sc = RC_PROTO_NEC
      then Some (ucast (drop_bit 8 (sc_scancode sc) AND 0xFF), ucast (sc_scancode sc AND 0xFF))
      else None)"

text \<open>The bytes of a raw word, from the top.\<close>

definition raw_byte :: "u32 \<Rightarrow> nat \<Rightarrow> byte" where
  "raw_byte raw i = ucast (drop_bit (8 * (3 - i)) raw AND 0xFF)"

definition evdev_accepts :: "input_event \<Rightarrow> frame option" where
  "evdev_accepts ev =
     (if ev_type ev = EV_MSC \<and> ev_code ev = MSC_RAW
        \<and> reverse_bits (raw_byte (ev_value ev) 0) XOR reverse_bits (raw_byte (ev_value ev) 1) = 0xFF
        \<and> reverse_bits (raw_byte (ev_value ev) 2) XOR reverse_bits (raw_byte (ev_value ev) 3) = 0xFF
      then Some (reverse_bits (raw_byte (ev_value ev) 0), reverse_bits (raw_byte (ev_value ev) 2))
      else None)"

section \<open>The contract of a reader\<close>

text \<open>The frames that a list of arrivals holds, with their clock readings.\<close>

fun heard :: "('e \<Rightarrow> frame option) \<Rightarrow> 'e arrival list \<Rightarrow> ((timespec \<times> timespec) \<times> frame) list" where
  "heard accepts [] = []"
| "heard accepts (r # rs) =
     (case arr_result r of
        ReadOk e \<Rightarrow> (case accepts e of Some f \<Rightarrow> [(arr_clock r, f)] | None \<Rightarrow> [])
      | _ \<Rightarrow> []) @ heard accepts rs"

definition undisturbed :: "'e arrival list \<Rightarrow> bool" where
  "undisturbed rs \<longleftrightarrow> list_all (\<lambda>r. \<not> arr_stop r) rs"

locale scancode_reader =
  fixes read :: "'e arrival list \<Rightarrow> 'e read_outcome"
    and accepts :: "'e \<Rightarrow> frame option"
  assumes read_nil: "read [] = None"
    and read_step: "read (r # rest) =
      (case arr_result r of
         ReadOk e \<Rightarrow>
           (case accepts e of
              None \<Rightarrow> also_stop (arr_stop r) (read rest)
            | Some f \<Rightarrow> Some (Some f, arr_clock r, arr_stop r, rest))
       | _ \<Rightarrow> Some (None, arr_clock r, arr_stop r, rest))"
begin

lemma read_shorter: "read rs = Some (f, t, s, rest) \<Longrightarrow> length rest < length rs"
proof (induction rs arbitrary: f t s rest)
  case (Cons r rs)
  have "length rest \<le> length rs" if "also_stop (arr_stop r) (read rs) = Some (f, t, s, rest)"
    using that Cons.IH by (fastforce simp: also_stop_def)
  with Cons.prems show ?case
    by (auto simp: read_step split: read_result.splits option.splits)
qed (simp add: read_nil)

text \<open>Events that are not accepted are invisible.\<close>

lemma read_skip:
  assumes "list_all (\<lambda>r. \<not> arr_stop r \<and> (\<exists>e. arr_result r = ReadOk e \<and> accepts e = None)) rs"
  shows "read (rs @ rest) = read rest"
  using assms
proof (induction rs)
  case (Cons r rs)
  then have "read ((r # rs) @ rest) = also_stop False (read rest)"
    by (auto simp: read_step)
  then show ?case by (cases "read rest") (auto simp: also_stop_def)
qed simp

text \<open>The frames of successive reads are the frames of the arrivals.\<close>

lemma read_heard:
  "case read rs of
     None \<Rightarrow> heard accepts rs = []
   | Some (f, t, s, rest) \<Rightarrow>
       heard accepts rs = (case f of Some f \<Rightarrow> [(t, f)] | None \<Rightarrow> []) @ heard accepts rest
       \<and> (undisturbed rs \<longrightarrow> \<not> s \<and> undisturbed rest)"
proof (induction rs)
  case (Cons r rs)
  then show ?case
    by (auto simp: read_step also_stop_def undisturbed_def split: read_result.splits option.splits)
qed (simp add: read_nil)

text \<open>A read that a signal interrupts ends in the failure it reports.\<close>

lemma read_interrupted:
  assumes "undisturbed pre" and "arr_result r = ReadError e" and "arr_stop r"
  shows "case read (pre @ r # rest) of
     None \<Rightarrow> False
   | Some (f, t, s, rest') \<Rightarrow>
       (f = None \<and> s \<and> heard accepts pre = [])
       \<or> (\<exists>pre'. \<not> s \<and> length pre' < length pre \<and> undisturbed pre' \<and> rest' = pre' @ r # rest
            \<and> heard accepts pre = (case f of Some f \<Rightarrow> [(t, f)] | None \<Rightarrow> []) @ heard accepts pre')"
  using assms(1)
proof (induction pre)
  case Nil
  then show ?case using assms(2,3) by (simp add: read_step)
next
  case (Cons q pre)
  then have q: "\<not> arr_stop q" "undisturbed pre" by (auto simp: undisturbed_def)
  show ?case
  proof (cases "\<exists>e. arr_result q = ReadOk e \<and> accepts e = None")
    case True
    then have eq: "read ((q # pre) @ r # rest) = also_stop False (read (pre @ r # rest))"
      "heard accepts (q # pre) = heard accepts pre"
      using q by (auto simp: read_step)
    show ?thesis
      using Cons.IH [OF q(2)] unfolding eq by (auto simp: also_stop_def split: option.splits)
  next
    case False
    then show ?thesis
      using q by (auto simp: read_step split: read_result.splits option.splits intro!: exI [of _ pre])
  qed
qed

text \<open>A reader yields only what it accepts.\<close>

lemma read_accepts:
  assumes "read rs = Some (Some f, t, s, rest)"
  shows "\<exists>r e. r \<in> set rs \<and> arr_result r = ReadOk e \<and> accepts e = Some f \<and> arr_clock r = t"
  using assms
proof (induction rs arbitrary: s)
  case (Cons r rs)
  then show ?case
    by (fastforce simp: read_step also_stop_def split: read_result.splits option.splits)
qed (simp add: read_nil)

end

interpretation lirc: scancode_reader wfr_lirc_read_scancode lirc_accepts
  by unfold_locales (auto simp: lirc_accepts_def Let_def split: read_result.splits)

lemma evdev_step:
  "wfr_evdev_read_scancode (r # rest) =
     (case arr_result r of
        ReadOk e \<Rightarrow>
          (case evdev_accepts e of
             None \<Rightarrow> also_stop (arr_stop r) (wfr_evdev_read_scancode rest)
           | Some f \<Rightarrow> Some (Some f, arr_clock r, arr_stop r, rest))
      | _ \<Rightarrow> Some (None, arr_clock r, arr_stop r, rest))"
  by (auto simp: evdev_accepts_def raw_byte_def Let_def split: read_result.splits)

interpretation evdev: scancode_reader wfr_evdev_read_scancode evdev_accepts
  by unfold_locales (rule wfr_evdev_read_scancode.simps, rule evdev_step)

section \<open>Raw NEC words\<close>

lemma bit_reverse_bits: "n < 8 \<Longrightarrow> bit (reverse_bits b) n \<longleftrightarrow> bit b (7 - n)"
proof -
  assume "n < 8"
  then have n: "n = 0 \<or> n = 1 \<or> n = 2 \<or> n = 3 \<or> n = 4 \<or> n = 5 \<or> n = 6 \<or> n = 7" by linarith
  note bits = reverse_bits_def Let_def bit_or_iff bit_and_iff bit_drop_bit_eq bit_push_bit_iff comp_def
  show ?thesis
    using n by (elim disjE; hypsubst; unfold bits; simp)
qed

lemma reverse_bits_involution [simp]: "reverse_bits (reverse_bits b) = b"
  by (rule bit_word_eqI) (simp add: bit_reverse_bits)

lemma xor_full: "a XOR b = 0xFF \<longleftrightarrow> b = NOT a" for a b :: byte
proof -
  have "(0xFF :: byte) = mask 8" by (simp add: mask_eq_exp_minus_1)
  then have f: "(0xFF :: byte) = NOT 0" by simp
  have "a XOR b = NOT 0 \<longleftrightarrow> NOT (a XOR b) = 0"
    by (metis bit.double_compl)
  also have "\<dots> \<longleftrightarrow> NOT a XOR b = 0"
    by (simp add: bit.xor_compl_left)
  also have "\<dots> \<longleftrightarrow> b = NOT a"
    by (metis xor.commute xor_self_eq xor_left_cancel bit.xor_self)
  finally show ?thesis unfolding f .
qed

text \<open>The word the receiver reports for a NEC frame, each byte with its bits in the order received.\<close>

definition nec_raw :: "byte \<Rightarrow> byte \<Rightarrow> u32" where
  "nec_raw a c = push_bit 24 (ucast (reverse_bits a)) OR push_bit 16 (ucast (reverse_bits (NOT a)))
     OR push_bit 8 (ucast (reverse_bits c)) OR ucast (reverse_bits (NOT c))"

definition raw_word :: "byte \<Rightarrow> byte \<Rightarrow> byte \<Rightarrow> byte \<Rightarrow> u32" where
  "raw_word b0 b1 b2 b3 = push_bit 24 (ucast b0) OR push_bit 16 (ucast b1) OR push_bit 8 (ucast b2) OR ucast b3"

lemma bit_raw_byte: "n < 8 \<Longrightarrow> bit (raw_byte raw i) n \<longleftrightarrow> bit raw (8 * (3 - i) + n)"
  by (simp add: raw_byte_def ucast_low_byte bit_ucast_iff bit_drop_bit_eq)

lemma bit_raw_word:
  "bit (raw_word b0 b1 b2 b3) n \<longleftrightarrow> n < 32 \<and>
     (if n < 8 then bit b3 n else if n < 16 then bit b2 (n - 8)
      else if n < 24 then bit b1 (n - 16) else bit b0 (n - 24))"
proof -
  have out: "\<not> bit (b :: byte) m" if "8 \<le> m" for b m
    using bit_imp_le_length [of b m] that by auto
  show ?thesis
    by (auto simp: raw_word_def bit_or_iff bit_push_bit_iff bit_ucast_iff out dest: bit_imp_le_length)
qed

lemma raw_byte_word [simp]:
  "raw_byte (raw_word b0 b1 b2 b3) 0 = b0" "raw_byte (raw_word b0 b1 b2 b3) 1 = b1"
  "raw_byte (raw_word b0 b1 b2 b3) (Suc 0) = b1"
  "raw_byte (raw_word b0 b1 b2 b3) 2 = b2" "raw_byte (raw_word b0 b1 b2 b3) 3 = b3"
  by (rule bit_word_eqI; simp add: bit_raw_byte bit_raw_word)+

lemma raw_word_bytes: "raw_word (raw_byte raw 0) (raw_byte raw 1) (raw_byte raw 2) (raw_byte raw 3) = raw"
proof (rule bit_word_eqI)
  fix n assume "n < LENGTH(32)"
  then have n: "n < 32" by simp
  show "bit (raw_word (raw_byte raw 0) (raw_byte raw 1) (raw_byte raw 2) (raw_byte raw 3)) n \<longleftrightarrow> bit raw n"
    using n by (simp add: bit_raw_word bit_raw_byte)
qed

lemma nec_raw_word:
  "nec_raw a c = raw_word (reverse_bits a) (reverse_bits (NOT a)) (reverse_bits c) (reverse_bits (NOT c))"
  by (simp add: nec_raw_def raw_word_def)

lemma evdev_accepts_raw:
  assumes "ev_type ev = EV_MSC" and "ev_code ev = MSC_RAW"
  shows "evdev_accepts ev = Some (a, c) \<longleftrightarrow> ev_value ev = nec_raw a c"
proof
  assume "ev_value ev = nec_raw a c"
  then show "evdev_accepts ev = Some (a, c)"
    using assms by (simp add: evdev_accepts_def nec_raw_word xor_full)
next
  assume "evdev_accepts ev = Some (a, c)"
  then have "reverse_bits (raw_byte (ev_value ev) 0) = a" "reverse_bits (raw_byte (ev_value ev) 1) = NOT a"
    "reverse_bits (raw_byte (ev_value ev) 2) = c" "reverse_bits (raw_byte (ev_value ev) 3) = NOT c"
    by (auto simp: evdev_accepts_def xor_full split: if_splits)
  then have "raw_byte (ev_value ev) 0 = reverse_bits a" "raw_byte (ev_value ev) 1 = reverse_bits (NOT a)"
    "raw_byte (ev_value ev) 2 = reverse_bits c" "raw_byte (ev_value ev) 3 = reverse_bits (NOT c)"
    by (metis reverse_bits_involution)+
  then show "ev_value ev = nec_raw a c"
    using raw_word_bytes [of "ev_value ev"] by (simp add: nec_raw_word)
qed

lemma evdev_accepts_not_raw:
  "\<not> (ev_type ev = EV_MSC \<and> ev_code ev = MSC_RAW) \<Longrightarrow> evdev_accepts ev = None"
  by (auto simp: evdev_accepts_def)

section \<open>Properties\<close>

text \<open>
  C26: the evdev receiver accepts exactly the words of NEC frames. When a read returns an event,
  \<^verbatim>\<open>wfr_evdev_read_scancode\<close> returns the address \<open>a\<close> and the command \<open>c\<close> if it is a raw event whose value is
  the bit-reversed \<open>a\<close>, its complement, \<open>c\<close> and its complement; and when there are no such \<open>a\<close> and \<open>c\<close>, because
  a byte was received wrong or the event is of another kind, it drops the event and reads on.
\<close>

theorem evdev_accepts_nec:
  assumes "arr_result r = ReadOk ev"
  shows "(\<forall>a c. ev_type ev = EV_MSC \<and> ev_code ev = MSC_RAW \<and> ev_value ev = nec_raw a c \<longrightarrow>
      wfr_evdev_read_scancode (r # rest) = Some (Some (a, c), arr_clock r, arr_stop r, rest))
    \<and> (\<not> (\<exists>a c. ev_type ev = EV_MSC \<and> ev_code ev = MSC_RAW \<and> ev_value ev = nec_raw a c) \<longrightarrow>
      wfr_evdev_read_scancode (r # rest) = also_stop (arr_stop r) (wfr_evdev_read_scancode rest))"
proof (cases "ev_type ev = EV_MSC \<and> ev_code ev = MSC_RAW")
  case True
  then have acc: "evdev_accepts ev = Some (a, c) \<longleftrightarrow> ev_value ev = nec_raw a c" for a c
    by (simp add: evdev_accepts_raw)
  then have "evdev_accepts ev = None" if "\<nexists>a c. ev_value ev = nec_raw a c"
    using that by (cases "evdev_accepts ev") auto
  with True acc assms show ?thesis
    unfolding evdev_step by (auto simp: acc [THEN iffD2])
next
  case False
  with assms show ?thesis
    unfolding evdev_step by (auto simp: evdev_accepts_not_raw)
qed

text \<open>A NEC word after one in which a bit of the command was received wrong.\<close>

theorem evdev_accepts_nec_witness:
  "let now = \<lparr>tv_sec = 7, tv_nsec = 0\<rparr> in wfr_evdev_read_scancode (map (\<lambda>raw.
       \<lparr>arr_result = ReadOk \<lparr>ev_type = 4, ev_code = 3, ev_value = raw\<rparr>, arr_stop = False, arr_clock = (now, now)\<rparr>) [raw_word 0x25 0xDA 0xEB 0x15, nec_raw 0xA4 0x57])
   = Some (Some (0xA4, 0x57), (now, now), False, [])"
proof -
  let ?now = "\<lparr>tv_sec = 7, tv_nsec = 0\<rparr>"
  have raw: "raw_word 0x25 0xDA 0xEB 0x15 \<noteq> nec_raw a c" for a c
  proof
    assume eq: "raw_word 0x25 0xDA 0xEB 0x15 = nec_raw a c"
    have "raw_byte (raw_word 0x25 0xDA 0xEB 0x15) 2 = reverse_bits c"
      "raw_byte (raw_word 0x25 0xDA 0xEB 0x15) 3 = reverse_bits (NOT c)"
      unfolding eq nec_raw_word by simp_all
    then have "c = reverse_bits 0xEB" "NOT c = reverse_bits 0x15"
      by (simp_all only: raw_byte_word reverse_bits_involution)
    then show False
      by (simp add: reverse_bits_def Let_def)
  qed
  let ?r = "\<lambda>raw. \<lparr>arr_result = ReadOk \<lparr>ev_type = 4, ev_code = 3, ev_value = raw\<rparr>,
    arr_stop = False, arr_clock = (?now, ?now)\<rparr>"
  have bad: "wfr_evdev_read_scancode (?r (raw_word 0x25 0xDA 0xEB 0x15) # rest)
      = also_stop False (wfr_evdev_read_scancode rest)" for rest
    using evdev_accepts_nec [of "?r (raw_word 0x25 0xDA 0xEB 0x15)" _ rest]
    by (simp add: raw del: wfr_evdev_read_scancode.simps)
  have good: "wfr_evdev_read_scancode (?r (nec_raw 0xA4 0x57) # rest) = Some (Some (0xA4, 0x57), (?now, ?now), False, rest)" for rest
    using evdev_accepts_nec [of "?r (nec_raw 0xA4 0x57)" _ rest]
    by (simp add: EV_MSC_def MSC_RAW_def del: wfr_evdev_read_scancode.simps)
  show ?thesis
    by (simp add: Let_def bad good also_stop_def del: wfr_evdev_read_scancode.simps)
qed

end
