(* ===== verification/Daemon_Main.thy ===== *)
theory Daemon_Main
  imports Network_Facts Ack_Send Receivers Wifi_String
begin

text \<open>
  The daemon, \<^verbatim>\<open>daemon/main.c\<close>: its options, the receive loop, and what it does with credentials.
  The result of \<^verbatim>\<open>getopt_long\<close> is a list of options; the static \<^verbatim>\<open>ack_fd\<close> is an argument of what
  uses it. A run over a list of arrivals ends when the process exits, or when the next \<^verbatim>\<open>read\<close> blocks.
\<close>

section \<open>Handling credentials\<close>

definition send_ack :: "os_env \<Rightarrow> int \<Rightarrow> bool \<Rightarrow> unit io" where
  "send_ack env ack_fd success =
     (if ack_fd < 0 then State_Monad.return ()
      else do {
        ip \<leftarrow> (if success then do {
                 r \<leftarrow> wfr_net_get_ip env [] 32;
                 State_Monad.return (snd r)
               }
               else State_Monad.return []);
        os_do (Sleep 1);
        wfr_ack_send env ack_fd success (if ip \<noteq> [] then Some ip else None);
        State_Monad.return ()
      })"

definition handle_credentials :: "os_env \<Rightarrow> int \<Rightarrow> string \<Rightarrow> unit io" where
  "handle_credentials env ack_fd payload =
     (case wfr_parse_wifi_string payload of
        None \<Rightarrow> State_Monad.return ()
      | Some creds \<Rightarrow> do {
          current \<leftarrow> wfr_net_get_current env (WFR_SSID_MAX_LEN + 1);
          let prev_ssid = (case current of None \<Rightarrow> [] | Some s \<Rightarrow> s);
          ok \<leftarrow> wfr_net_connect env (Some creds);
          (if ok then send_ack env ack_fd True
           else do {
             send_ack env ack_fd False;
             (if prev_ssid \<noteq> [] then do {
                wfr_net_rollback env (Some prev_ssid);
                State_Monad.return ()
              }
              else State_Monad.return ())
           })
        })"

section \<open>The receive loop\<close>

datatype rx = LircRx "lirc_scancode arrival list" | EvdevRx "input_event arrival list"

fun rx_read :: "rx \<Rightarrow> (frame option \<times> (timespec \<times> timespec) \<times> bool \<times> rx) option" where
  "rx_read (LircRx rs) =
     map_option (\<lambda>(f, t, s, rest). (f, t, s, LircRx rest)) (wfr_lirc_read_scancode rs)"
| "rx_read (EvdevRx rs) =
     map_option (\<lambda>(f, t, s, rest). (f, t, s, EvdevRx rest)) (wfr_evdev_read_scancode rs)"

fun rx_left :: "rx \<Rightarrow> nat" where
  "rx_left (LircRx rs) = length rs"
| "rx_left (EvdevRx rs) = length rs"

lemma rx_read_shorter: "rx_read rx = Some (f, t, s, rx') \<Longrightarrow> rx_left rx' < rx_left rx"
  by (cases rx) (auto dest: lirc.read_shorter evdev.read_shorter)

datatype loop_end = Stopped WfrDecoder | Blocked WfrDecoder

function main_loop :: "os_env \<Rightarrow> int \<Rightarrow> rx \<Rightarrow> WfrDecoder \<Rightarrow> loop_end io" where
  "main_loop env ack_fd rx decoder =
     (case rx_read rx of
        None \<Rightarrow> State_Monad.return (Blocked decoder)
      | Some (None, clock, stop, rx') \<Rightarrow>
          (if stop then State_Monad.return (Stopped decoder) else main_loop env ack_fd rx' decoder)
      | Some (Some (address, command), clock, stop, rx') \<Rightarrow>
          (case wfr_decode_feed_scancode clock decoder address command (WFR_MAX_TOTAL_PAYLOAD + 1) of
             (decoder', result, payload) \<Rightarrow> do {
               (if result > 0 then handle_credentials env ack_fd (c_str (the payload))
                else State_Monad.return ());
               (if stop then State_Monad.return (Stopped decoder')
                else main_loop env ack_fd rx' decoder')
             }))"
  by pat_completeness auto
termination
  by (relation "measure (\<lambda>(_, _, rx, _). rx_left rx)") (auto dest: rx_read_shorter)

declare main_loop.simps [simp del]

section \<open>Options\<close>

datatype getopt_result =
    Opt_device string | Opt_evdev string | Opt_ack_device string
  | Opt_foreground | Opt_verbose | Opt_version | Opt_help | Opt_unknown

record options =
  device :: string
  evdev_device :: "string option"
  ack_device :: "string option"
  foreground :: bool
  verbose :: bool

definition default_options :: options where
  "default_options = \<lparr>device = ''/dev/lirc0'', evdev_device = None, ack_device = None,
     foreground = False, verbose = False\<rparr>"

text \<open>Left: the exit status of an option that ends the program.\<close>

fun parse_options :: "getopt_result list \<Rightarrow> options \<Rightarrow> int + options" where
  "parse_options [] cfg = Inr cfg"
| "parse_options (opt # argv) cfg =
     (case opt of
        Opt_device path \<Rightarrow> parse_options argv (cfg\<lparr>device := path\<rparr>)
      | Opt_evdev path \<Rightarrow> parse_options argv (cfg\<lparr>evdev_device := Some path\<rparr>)
      | Opt_ack_device path \<Rightarrow> parse_options argv (cfg\<lparr>ack_device := Some path\<rparr>)
      | Opt_foreground \<Rightarrow> parse_options argv (cfg\<lparr>foreground := True\<rparr>)
      | Opt_verbose \<Rightarrow> parse_options argv (cfg\<lparr>verbose := True\<rparr>)
      | Opt_version \<Rightarrow> Inl 0
      | Opt_help \<Rightarrow> Inl 0
      | Opt_unknown \<Rightarrow> Inl 1)"

section \<open>The program\<close>

datatype daemon_end = Exited int | Listening WfrDecoder

definition daemon_main ::
  "os_env \<Rightarrow> getopt_result list \<Rightarrow> lirc_scancode arrival list \<Rightarrow> input_event arrival list \<Rightarrow> daemon_end io" where
  "daemon_main env argv lirc_arrivals evdev_arrivals =
     (case parse_options argv default_options of
        Inl code \<Rightarrow> State_Monad.return (Exited code)
      | Inr cfg \<Rightarrow>
          let ack_dev = (case ack_device cfg of None \<Rightarrow> device cfg | Some path \<Rightarrow> path) in
          do {
            rx_fd \<leftarrow> (case evdev_device cfg of
                       Some path \<Rightarrow> wfr_evdev_open env path
                     | None \<Rightarrow> wfr_lirc_open env (device cfg));
            (if rx_fd < 0 then State_Monad.return (Exited 1)
             else do {
               ack_fd \<leftarrow> wfr_ack_open env ack_dev;
               r \<leftarrow> main_loop env ack_fd
                      (if evdev_device cfg \<noteq> None then EvdevRx evdev_arrivals else LircRx lirc_arrivals)
                      wfr_decode_init;
               (case r of
                  Blocked decoder \<Rightarrow> State_Monad.return (Listening decoder)
                | Stopped decoder \<Rightarrow> do {
                    wfr_ack_close ack_fd;
                    (if evdev_device cfg \<noteq> None then wfr_evdev_close rx_fd else wfr_lirc_close rx_fd);
                    State_Monad.return (Exited 0)
                  })
             })
          })"

section \<open>The loop handles what the decoder delivers\<close>

fun rx_heard :: "rx \<Rightarrow> ((timespec \<times> timespec) \<times> frame) list" where
  "rx_heard (LircRx rs) = heard lirc_accepts rs"
| "rx_heard (EvdevRx rs) = heard evdev_accepts rs"

fun rx_undisturbed :: "rx \<Rightarrow> bool" where
  "rx_undisturbed (LircRx rs) = undisturbed rs"
| "rx_undisturbed (EvdevRx rs) = undisturbed rs"

lemma rx_read_heard:
  "case rx_read rx of
     None \<Rightarrow> rx_heard rx = []
   | Some (f, t, s, rx') \<Rightarrow>
       rx_heard rx = (case f of Some f \<Rightarrow> [(t, f)] | None \<Rightarrow> []) @ rx_heard rx'
       \<and> (rx_undisturbed rx \<longrightarrow> \<not> s \<and> rx_undisturbed rx')"
proof (cases rx)
  case (LircRx rs)
  then show ?thesis using lirc.read_heard [of rs] by (auto split: option.splits)
next
  case (EvdevRx rs)
  then show ?thesis using evdev.read_heard [of rs] by (auto split: option.splits)
qed

fun handle_all :: "os_env \<Rightarrow> int \<Rightarrow> string list \<Rightarrow> unit io" where
  "handle_all env ack_fd [] = State_Monad.return ()"
| "handle_all env ack_fd (p # ps) = do { handle_credentials env ack_fd (c_str p); handle_all env ack_fd ps }"

lemma feed_positive_output:
  "wfr_decode_feed_scancode t dec a c n = (dec', r, out) \<Longrightarrow> 0 < r \<Longrightarrow> \<exists>s. out = Some s"
  by (auto simp: wfr_decode_feed_scancode_def wfr_decode_check_timeout_def Let_def
      split: prod.splits if_splits)

lemma delivered_step:
  assumes "wfr_decode_feed_scancode t dec a c n = (dec', r, out)"
  shows "(if 0 < r then handle_credentials env ack_fd (c_str (the out)) else State_Monad.return ())
    = handle_all env ack_fd (delivered (r, out))"
  using feed_positive_output [OF assms]
  by (cases "0 < r") (auto simp: delivered_def)

lemma handle_all_append: "handle_all env fd (ps @ qs) = do { handle_all env fd ps; handle_all env fd qs }"
  by (induction ps) (simp_all add: State_Monad.bind_assoc)

abbreviation daemon_feed_all :: "WfrDecoder \<Rightarrow> ((timespec \<times> timespec) \<times> frame) list \<Rightarrow> WfrDecoder \<times> string list" where
  "daemon_feed_all dec fs \<equiv> feed_all wfr_decode_feed_scancode dec fs 256"

text \<open>One round of the loop, by what the read gives.\<close>

lemma main_loop_blocked:
  "rx_read rx = None \<Longrightarrow> main_loop env fd rx dec = State_Monad.return (Blocked dec)"
  by (simp add: main_loop.simps [of env fd rx])

lemma main_loop_round:
  assumes "rx_read rx = Some (f, t, s, rx')"
    and "fs = (case f of Some f \<Rightarrow> [(t, f)] | None \<Rightarrow> [])"
    and "daemon_feed_all dec fs = (dec', outs)"
  shows "main_loop env fd rx dec = do {
     handle_all env fd outs;
     (if s then State_Monad.return (Stopped dec') else main_loop env fd rx' dec') }"
proof (cases f)
  case None
  with assms show ?thesis by (simp add: main_loop.simps [of env fd rx])
next
  case (Some ac)
  obtain a c where ac: "ac = (a, c)" by (cases ac)
  obtain d res out where fd: "wfr_decode_feed_scancode t dec a c 256 = (d, res, out)"
    by (cases "wfr_decode_feed_scancode t dec a c 256") auto
  show ?thesis
    using assms Some ac fd delivered_step [OF fd, of env]
    by (simp add: main_loop.simps [of env fd rx] WFR_MAX_TOTAL_PAYLOAD_def)
qed

lemma feed_all_append:
  "feed_all feed d (fs @ gs) n = (let (d', o1) = feed_all feed d fs n; (d'', o2) = feed_all feed d' gs n in (d'', o1 @ o2))"
proof (induction fs arbitrary: d)
  case (Cons f fs)
  then show ?case by (cases f) (auto split: prod.splits)
qed simp

lemma main_loop_handles:
  "rx_undisturbed rx \<Longrightarrow> main_loop env fd rx dec =
     do { handle_all env fd (snd (daemon_feed_all dec (rx_heard rx)));
          State_Monad.return (Blocked (fst (daemon_feed_all dec (rx_heard rx)))) }"
proof (induction "rx_left rx" arbitrary: rx dec rule: less_induct)
  case less
  note h = rx_read_heard [of rx]
  show ?case
  proof (cases "rx_read rx")
    case None
    with h show ?thesis by (simp add: main_loop_blocked)
  next
    case (Some r)
    then obtain f t s rx' where r: "rx_read rx = Some (f, t, s, rx')" by (cases r) auto
    define fs where "fs = (case f of Some f \<Rightarrow> [(t, f)] | None \<Rightarrow> [])"
    obtain dec' outs where fd: "daemon_feed_all dec fs = (dec', outs)"
      by (cases "daemon_feed_all dec fs")
    have h': "rx_heard rx = fs @ rx_heard rx'" and s: "\<not> s" "rx_undisturbed rx'"
      using h r less.prems by (simp_all add: fs_def)
    show ?thesis
      unfolding main_loop_round [OF r fs_def fd, of env] h' feed_all_append fd
      using s less.hyps [OF rx_read_shorter [OF r] s(2), of dec']
      by (simp add: handle_all_append split: prod.splits)
  qed
qed

section \<open>A signal ends the loop\<close>

text \<open>The arrivals \<open>pre\<close>, undisturbed, and then a read that SIGTERM or SIGINT interrupts.\<close>

fun interrupted_after :: "rx \<Rightarrow> rx \<Rightarrow> bool" where
  "interrupted_after (LircRx pre) (LircRx rs) \<longleftrightarrow> undisturbed pre
     \<and> (\<exists>r rest e. rs = pre @ r # rest \<and> arr_result r = ReadError e \<and> arr_stop r)"
| "interrupted_after (EvdevRx pre) (EvdevRx rs) \<longleftrightarrow> undisturbed pre
     \<and> (\<exists>r rest e. rs = pre @ r # rest \<and> arr_result r = ReadError e \<and> arr_stop r)"
| "interrupted_after _ _ \<longleftrightarrow> False"

lemma rx_read_interrupted:
  assumes "interrupted_after pre rx"
  shows "\<exists>f t s rx'. rx_read rx = Some (f, t, s, rx') \<and>
    ((f = None \<and> s \<and> rx_heard pre = [])
     \<or> (\<exists>pre'. \<not> s \<and> interrupted_after pre' rx'
          \<and> rx_heard pre = (case f of Some f \<Rightarrow> [(t, f)] | None \<Rightarrow> []) @ rx_heard pre'))"
proof (cases rx)
  case (LircRx rs)
  with assms obtain p r rest e where p: "pre = LircRx p" "undisturbed p" "rs = p @ r # rest"
      "arr_result r = ReadError e" "arr_stop r"
    by (cases pre) auto
  from lirc.read_interrupted [OF p(2,4,5), of rest]
  obtain f t s rest' where rd: "wfr_lirc_read_scancode rs = Some (f, t, s, rest')"
    and c: "(f = None \<and> s \<and> heard lirc_accepts p = [])
       \<or> (\<exists>p'. \<not> s \<and> length p' < length p \<and> undisturbed p' \<and> rest' = p' @ r # rest
            \<and> heard lirc_accepts p = (case f of Some f \<Rightarrow> [(t, f)] | None \<Rightarrow> []) @ heard lirc_accepts p')"
    unfolding p(3) by (cases "wfr_lirc_read_scancode (p @ r # rest)") auto
  have "rx_read rx = Some (f, t, s, LircRx rest')" by (simp add: LircRx rd)
  moreover from c have "(f = None \<and> s \<and> rx_heard pre = [])
     \<or> (\<exists>pre'. \<not> s \<and> interrupted_after pre' (LircRx rest')
          \<and> rx_heard pre = (case f of Some f \<Rightarrow> [(t, f)] | None \<Rightarrow> []) @ rx_heard pre')"
  proof (elim disjE exE conjE)
    fix p' assume "\<not> s" "undisturbed p'" "rest' = p' @ r # rest"
      "heard lirc_accepts p = (case f of Some f \<Rightarrow> [(t, f)] | None \<Rightarrow> []) @ heard lirc_accepts p'"
    with p show ?thesis by (intro disjI2 exI [of _ "LircRx p'"]) auto
  qed (simp add: p(1))
  ultimately show ?thesis by blast
next
  case (EvdevRx rs)
  with assms obtain p r rest e where p: "pre = EvdevRx p" "undisturbed p" "rs = p @ r # rest"
      "arr_result r = ReadError e" "arr_stop r"
    by (cases pre) auto
  from evdev.read_interrupted [OF p(2,4,5), of rest]
  obtain f t s rest' where rd: "wfr_evdev_read_scancode rs = Some (f, t, s, rest')"
    and c: "(f = None \<and> s \<and> heard evdev_accepts p = [])
       \<or> (\<exists>p'. \<not> s \<and> length p' < length p \<and> undisturbed p' \<and> rest' = p' @ r # rest
            \<and> heard evdev_accepts p = (case f of Some f \<Rightarrow> [(t, f)] | None \<Rightarrow> []) @ heard evdev_accepts p')"
    unfolding p(3) by (cases "wfr_evdev_read_scancode (p @ r # rest)") auto
  have "rx_read rx = Some (f, t, s, EvdevRx rest')" by (simp add: EvdevRx rd)
  moreover from c have "(f = None \<and> s \<and> rx_heard pre = [])
     \<or> (\<exists>pre'. \<not> s \<and> interrupted_after pre' (EvdevRx rest')
          \<and> rx_heard pre = (case f of Some f \<Rightarrow> [(t, f)] | None \<Rightarrow> []) @ rx_heard pre')"
  proof (elim disjE exE conjE)
    fix p' assume "\<not> s" "undisturbed p'" "rest' = p' @ r # rest"
      "heard evdev_accepts p = (case f of Some f \<Rightarrow> [(t, f)] | None \<Rightarrow> []) @ heard evdev_accepts p'"
    with p show ?thesis by (intro disjI2 exI [of _ "EvdevRx p'"]) auto
  qed (simp add: p(1))
  ultimately show ?thesis by blast
qed

lemma main_loop_interrupted:
  "interrupted_after pre rx \<Longrightarrow> main_loop env fd rx dec =
     do { handle_all env fd (snd (daemon_feed_all dec (rx_heard pre)));
          State_Monad.return (Stopped (fst (daemon_feed_all dec (rx_heard pre)))) }"
proof (induction "rx_left rx" arbitrary: rx pre dec rule: less_induct)
  case less
  obtain f t s rx' where r: "rx_read rx = Some (f, t, s, rx')"
    and c: "(f = None \<and> s \<and> rx_heard pre = [])
     \<or> (\<exists>pre'. \<not> s \<and> interrupted_after pre' rx'
          \<and> rx_heard pre = (case f of Some f \<Rightarrow> [(t, f)] | None \<Rightarrow> []) @ rx_heard pre')"
    using rx_read_interrupted [OF less.prems] by blast
  define fs where "fs = (case f of Some f \<Rightarrow> [(t, f)] | None \<Rightarrow> [])"
  obtain dec' outs where fd: "daemon_feed_all dec fs = (dec', outs)"
    by (cases "daemon_feed_all dec fs")
  note round = main_loop_round [OF r fs_def fd, of env]
  from c show ?case
  proof (elim disjE exE conjE)
    assume "f = None" "s" "rx_heard pre = []"
    with round fd show ?thesis by (simp add: fs_def)
  next
    fix pre' assume s: "\<not> s" "interrupted_after pre' rx'"
      and h: "rx_heard pre = (case f of Some f \<Rightarrow> [(t, f)] | None \<Rightarrow> []) @ rx_heard pre'"
    show ?thesis
      unfolding round h fs_def [symmetric] feed_all_append fd
      using s less.hyps [OF rx_read_shorter [OF r] s(2), of dec']
      by (simp add: handle_all_append split: prod.splits)
  qed
qed

section \<open>The acknowledgement of a connection attempt\<close>

lemma frames_written_writes: "writes tr' = writes tr \<Longrightarrow> frames_written tr' = frames_written tr"
proof -
  have f: "frames_written tr = frames_written (writes tr)" for tr
  proof (induction tr)
    case (Cons c tr)
    then show ?case by (cases c) (simp_all add: writes_def)
  qed simp
  assume "writes tr' = writes tr"
  with f [of tr'] f [of tr] show ?thesis by simp
qed

lemma get_ip_effect:
  "effect tr (wfr_net_get_ip env [] 32) (\<lambda>r _. length (snd r) \<le> 31) 0"
  unfolding wfr_net_get_ip_def
proof (rule effect_bind [OF effect_detect], simp, rule effect_option)
  fix d tr1 iface
  show "effect tr1 (do { r \<leftarrow> run_cmd_output env (ip_addr_cmd iface) 32;
      State_Monad.return (case r of None \<Rightarrow> (False, []) | Some ip \<Rightarrow> (ip \<noteq> [] \<and> \<not> link_local ip, ip)) })
    (\<lambda>r _. length (snd r) \<le> 31) (0 - 0)"
    using cmd_line_length [of env tr1 "ip_addr_cmd iface" 32]
    by (auto simp: effect_def split: option.splits)
qed auto

lemma current_effect: "effect tr (wfr_net_get_current env n) (\<lambda>_ _. True) 0"
proof -
  have w: "effect tr (current_by_wpa env n) (\<lambda>_ _. True) 0" for tr
    unfolding current_by_wpa_def
    by (rule effect_bind [OF effect_detect], simp, rule effect_option)
      (auto intro: effect_weaken [OF effect_wpa_ssid])
  show ?thesis
    unfolding wfr_net_get_current_def
    apply (rule effect_bind [OF effect_has_nm], simp)
    apply (rule effect_if)
     apply (rule effect_bind [OF effect_run_cmd_output], simp)
     apply (rule effect_option)
      apply (simp add: w)
     apply (simp add: Let_def w effect_return)
    apply (simp add: w)
    done
qed

lemma rollback_effect: "effect tr (wfr_net_rollback env prev) (\<lambda>_ _. True) 0"
proof -
  have i: "effect tr (rollback_interfaces env iface) (\<lambda>_ _. True) 0" for tr iface
    by (simp add: rollback_interfaces_def effect_def)
  show ?thesis
    unfolding wfr_net_rollback_def
    apply (rule effect_option, blast)
    apply (rule effect_if, blast)
    apply (rule effect_bind [OF effect_has_nm], simp)
    apply (rule effect_if)
     apply (rule effect_option, blast)
     apply (rule effect_bind [OF effect_run_cmd], simp, blast)
    apply (rule effect_bind [OF effect_detect], simp)
    apply (rule effect_option, blast)
    apply (rule effect_bind [OF effect_has_networkd], simp)
    apply (rule effect_if)
     apply (rule effect_bind [OF effect_run_wpa_cmd], simp, blast)
    apply (simp add: i)
    done
qed

lemma wp_return_fun [simp]: "wp (State_Monad.return x) Q = Q x"
  by (rule ext) simp

text \<open>One acknowledgement: a whole frame sequence for a payload of the given kind.\<close>

definition acknowledged :: "bool \<Rightarrow> trace \<Rightarrow> trace \<Rightarrow> bool" where
  "acknowledged success tr tr' \<longleftrightarrow> (\<exists>ip. frames_written tr' = frames_written tr
     @ wfr_frames 0 (map byte_of_char (ack_payload success ip))
     \<and> (\<forall>s. ip = Some s \<longrightarrow> s \<noteq> [] \<and> length s \<le> 31))"

lemma send_ack_acknowledges:
  assumes fd: "0 \<le> fd" and ok: "\<forall>h sc. env_write_ok env h fd sc"
  shows "wp (send_ack env fd success) (\<lambda>_ tr'. prefix tr tr' \<and> acknowledged success tr tr') tr"
proof -
  have send: "wp (wfr_ack_send env fd success (if ip \<noteq> [] then Some ip else None))
      (\<lambda>_ tr'. prefix tr tr' \<and> acknowledged success tr tr') tr2"
    if t: "prefix tr tr2" "writes tr2 = writes tr" "length ip \<le> 31" for ip tr2
  proof -
    let ?ip = "if ip \<noteq> [] then Some ip else None"
    have len: "length (map byte_of_char (ack_payload success ?ip)) \<le> 255"
      using t(3) by (auto simp: ack_payload_def wfr_const)
    show ?thesis
    proof (rule wp_mono [OF ack_send_wp [OF fd refl len]], elim conjE exE)
      fix a tr3 fs
      assume "prefix tr2 tr3" and "(\<forall>h sc. env_write_ok env h fd sc) \<longrightarrow> a"
        "a \<longrightarrow> fs = wfr_frames 0 (map byte_of_char (ack_payload success ?ip))"
        "frames_written tr3 = frames_written tr2 @ fs"
      with t ok frames_written_writes [OF t(2)] show "prefix tr tr3 \<and> acknowledged success tr tr3"
        unfolding acknowledged_def by (auto intro: prefix_order.trans)
    qed
  qed
  show ?thesis
  proof (cases success)
    case False
    with fd send [of "tr @ [Sleep 1]" "[]"] show ?thesis
      by (simp add: send_ack_def)
  next
    case True
    have "wp (wfr_net_get_ip env [] 32)
      (\<lambda>r. wp (do { os_do (Sleep 1); wfr_ack_send env fd success (if snd r \<noteq> [] then Some (snd r) else None); State_Monad.return () })
        (\<lambda>_ tr'. prefix tr tr' \<and> acknowledged success tr tr')) tr"
    proof (rule wp_mono [OF get_ip_effect [unfolded effect_def]], elim conjE)
      fix r :: "bool \<times> string" and tr1
      assume "prefix tr tr1" "writes tr1 = writes tr" "length (snd r) \<le> 31"
      then show "wp (do { os_do (Sleep 1); wfr_ack_send env fd success (if snd r \<noteq> [] then Some (snd r) else None); State_Monad.return () })
        (\<lambda>_ tr'. prefix tr tr' \<and> acknowledged success tr tr') tr1"
        using send [of "tr1 @ [Sleep 1]" "snd r"] by simp
    qed
    with True fd show ?thesis
      by (simp add: send_ack_def)
  qed
qed

lemma wp_of_run: "run_state m tr = (a, tr') \<Longrightarrow> wp m Q tr = Q a tr'"
  by (simp add: wp_def)

lemma connected_evidence_later:
  "connected_evidence env h c tr \<Longrightarrow> prefix tr tr' \<Longrightarrow> connected_evidence env h c tr'"
  unfolding connected_evidence_def nmcli_ran_def
  by (auto intro: asked_later seen_later split: if_splits)

text \<open>
  What \<^verbatim>\<open>handle_credentials\<close> does with a string that parses: one connection attempt, which starts once the
  current connection has been asked for, then one acknowledgement of its result.
\<close>

definition attempt_start :: "os_env \<Rightarrow> trace \<Rightarrow> trace" where
  "attempt_start env tr = snd (run_state (wfr_net_get_current env (WFR_SSID_MAX_LEN + 1)) tr)"

definition attempt_acknowledged :: "os_env \<Rightarrow> WfrWifiCreds \<Rightarrow> trace \<Rightarrow> bool \<Rightarrow> trace \<Rightarrow> bool" where
  "attempt_acknowledged env c tr success tr' \<longleftrightarrow>
     (\<exists>tr1. run_state (wfr_net_connect env (Some c)) (attempt_start env tr) = (success, tr1)
        \<and> prefix tr1 tr' \<and> acknowledged success tr tr')"

lemma attempt_start_effect:
  "prefix tr (attempt_start env tr) \<and> writes (attempt_start env tr) = writes tr"
  using effect_run [OF current_effect, of env "WFR_SSID_MAX_LEN + 1" tr]
  unfolding attempt_start_def by (metis prod.collapse)

lemma attempt_evidence:
  assumes "attempt_acknowledged env c tr success tr'"
  shows "prefix tr (attempt_start env tr) \<and> prefix (attempt_start env tr) tr'
    \<and> (success \<longrightarrow> connected_evidence env (attempt_start env tr) c tr')"
proof -
  obtain tr1 where run: "run_state (wfr_net_connect env (Some c)) (attempt_start env tr) = (success, tr1)"
    and pre: "prefix tr1 tr'"
    using assms unfolding attempt_acknowledged_def by (elim exE conjE)
  have e: "prefix (attempt_start env tr) tr1 \<and> (success \<longrightarrow> connected_evidence env (attempt_start env tr) c tr1)"
    using effect_run [OF connect_effect run] by (elim conjE) (intro conjI)
  show ?thesis
    using e pre attempt_start_effect [of tr env]
    by (auto intro: prefix_order.trans connected_evidence_later)
qed

lemma handle_credentials_wp:
  assumes fd: "0 \<le> fd" and ok: "\<forall>h sc. env_write_ok env h fd sc" and p: "wfr_parse_wifi_string p = Some c"
  shows "wp (handle_credentials env fd p) (\<lambda>_ tr'. \<exists>success. attempt_acknowledged env c tr success tr') tr"
proof -
  obtain cur where cur: "run_state (wfr_net_get_current env (WFR_SSID_MAX_LEN + 1)) tr = (cur, attempt_start env tr)"
    unfolding attempt_start_def by (metis prod.collapse)
  obtain okc tr2 where con: "run_state (wfr_net_connect env (Some c)) (attempt_start env tr) = (okc, tr2)"
    by (cases "run_state (wfr_net_connect env (Some c)) (attempt_start env tr)")
  have w2: "writes tr2 = writes tr"
    using effect_run [OF connect_effect con] attempt_start_effect [of tr env] by simp
  let ?Q = "\<lambda>(_ :: unit) tr'. \<exists>success. attempt_acknowledged env c tr success tr'"
  have Q: "?Q () tr'" if "prefix tr2 tr'" "acknowledged okc tr tr'" for tr'
    using con that unfolding attempt_acknowledged_def by (intro exI conjI)
  have ack: "wp (send_ack env fd success) (\<lambda>_ tr3. prefix tr2 tr3 \<and> acknowledged success tr tr3) tr2" for success
    using send_ack_acknowledges [OF fd ok, of success tr2] frames_written_writes [OF w2]
    by (simp add: acknowledged_def)
  show ?thesis
  proof (cases okc)
    case True
    have "wp (send_ack env fd True) ?Q tr2"
      by (rule wp_mono [OF ack]) (use Q True in simp)
    with True show ?thesis
      unfolding handle_credentials_def p option.case wp_bind wp_of_run [OF cur] Let_def
      by (simp add: wp_of_run [OF con])
  next
    case False
    have "wp (if prev \<noteq> [] then do { wfr_net_rollback env (Some prev); State_Monad.return () }
          else State_Monad.return ()) ?Q tr3"
      if t: "prefix tr2 tr3" "acknowledged False tr tr3" for tr3 prev
    proof -
      have q: "?Q () tr4" if "prefix tr3 tr4" "writes tr4 = writes tr3" for tr4
      proof (rule Q)
        show "prefix tr2 tr4" using t(1) that(1) by (rule prefix_order.trans)
        show "acknowledged okc tr tr4"
          using t(2) False frames_written_writes [OF that(2)] by (simp add: acknowledged_def)
      qed
      then show ?thesis
        using wp_mono [OF rollback_effect [of tr3 env "Some prev", unfolded effect_def]] by auto
    qed
    then have "wp (do { send_ack env fd False;
         (if prev \<noteq> [] then do { wfr_net_rollback env (Some prev); State_Monad.return () }
          else State_Monad.return ()) }) ?Q tr2" for prev
      unfolding wp_bind by (intro wp_mono [OF ack]) (elim conjE)
    with False show ?thesis
      unfolding handle_credentials_def p option.case wp_bind wp_of_run [OF cur] Let_def
      by (simp add: wp_of_run [OF con])
  qed
qed

section \<open>Properties\<close>

text \<open>
  C9: between signals the receive loop handles exactly what the decoder delivers: over any arrivals, on
  either receiver, with unreadable events skipped and failed reads retried, \<^verbatim>\<open>handle_credentials\<close> is
  called on each payload the decoder completes, in order, and on nothing else.
\<close>

theorem daemon_handles_delivered:
  assumes "rx_undisturbed rx"
  shows "run_state (main_loop env fd rx dec) tr =
    run_state (do { handle_all env fd (snd (feed_all wfr_decode_feed_scancode dec (rx_heard rx) 256));
      State_Monad.return (Blocked (fst (feed_all wfr_decode_feed_scancode dec (rx_heard rx) 256))) }) tr"
  by (simp only: main_loop_handles [OF assms])

definition instant :: "timespec \<times> timespec" where
  "instant = (\<lparr>tv_sec = 7, tv_nsec = 0\<rparr>, \<lparr>tv_sec = 7, tv_nsec = 0\<rparr>)"

text \<open>A LIRC arrival that carries a frame.\<close>

definition lirc_arrival :: "frame \<Rightarrow> lirc_scancode arrival" where
  "lirc_arrival f = \<lparr>arr_result = ReadOk (rc6_scancode (fst f) (snd f)), arr_stop = False, arr_clock = instant\<rparr>"

lemma lirc_accepts_rc6 [simp]: "lirc_accepts (rc6_scancode a c) = Some (a, c)"
proof -
  have "(ucast (drop_bit 8 (sc_scancode (rc6_scancode a c)) AND 0xFF), ucast (sc_scancode (rc6_scancode a c) AND 0xFF)) = (a, c)"
    using scancode_frame_rc6 [of a c] unfolding scancode_frame_def .
  moreover have "sc_rc_proto (rc6_scancode a c) = RC_PROTO_RC6_0" by (simp add: rc6_scancode_def)
  ultimately show ?thesis unfolding lirc_accepts_def by (simp only: simp_thms if_True)
qed

lemma heard_lirc_arrivals [simp]: "heard lirc_accepts (map lirc_arrival fs) = map (\<lambda>f. (instant, f)) fs"
  by (induction fs) (simp_all add: lirc_arrival_def)

lemma undisturbed_lirc_arrivals [simp]: "undisturbed (map lirc_arrival fs)"
  by (simp add: undisturbed_def lirc_arrival_def list_all_iff)

theorem daemon_handles_delivered_witness:
  "run_state (main_loop nm_host 4 (LircRx (map lirc_arrival [(0xA0, 1), (0xA4, 0x58)])) wfr_decode_init) []
   = (Blocked (fst (feed_all wfr_decode_feed_scancode wfr_decode_init
        (map (\<lambda>f. (instant, f)) [(0xA0, 1), (0xA4, 0x58)]) 256)), [])"
proof -
  have "snd (feed_all wfr_decode_feed_scancode wfr_decode_init
      (map (\<lambda>f. (instant, f)) [(0xA0, 1), (0xA4, 0x58)]) 256) = []"
    by (rule daemon_decoder.no_end_nothing)
      (auto simp: frame_type_def wfr_const)
  then show ?thesis
    using daemon_handles_delivered [of "LircRx (map lirc_arrival [(0xA0, 1), (0xA4, 0x58)])" nm_host 4 wfr_decode_init "[]"]
    by (simp del: list.map feed_all.simps)
qed



text \<open>
  C27: SIGTERM or SIGINT while the daemon waits for infrared ends it in order, on either receiver. When
  the receiver opens and the arrivals before the interrupted read are undisturbed, exactly the payloads
  that the decoder completes from them are handled, in order, then the acknowledgement device, if it is
  open, and the receiver are closed, nothing else is done, and the exit status is 0.
\<close>

theorem signal_stops_daemon:
  assumes "parse_options argv default_options = Inr cfg"
    and "run_state (case evdev_device cfg of Some path \<Rightarrow> wfr_evdev_open env path
          | None \<Rightarrow> wfr_lirc_open env (device cfg)) [] = (rx_fd, tr0)" and "0 \<le> rx_fd"
    and "run_state (wfr_ack_open env (case ack_device cfg of None \<Rightarrow> device cfg | Some path \<Rightarrow> path)) tr0 = (ack_fd, tr1)"
    and "interrupted_after pre (if evdev_device cfg \<noteq> None then EvdevRx es else LircRx rs)"
    and "run_state (daemon_main env argv rs es) [] = (r, tr)"
  shows "r = Exited 0 \<and>
    tr = snd (run_state (handle_all env ack_fd
           (snd (feed_all wfr_decode_feed_scancode wfr_decode_init (rx_heard pre) 256))) tr1)
         @ (if 0 \<le> ack_fd then [Close ack_fd] else []) @ [Close rx_fd]"
proof -
  obtain tr2 where h: "run_state (handle_all env ack_fd
      (snd (daemon_feed_all wfr_decode_init (rx_heard pre)))) tr1 = ((), tr2)"
    by (cases "run_state (handle_all env ack_fd (snd (daemon_feed_all wfr_decode_init (rx_heard pre)))) tr1") auto
  show ?thesis
  proof (cases "evdev_device cfg")
    case None
    with assms(2-6) h show ?thesis
      by (auto simp: daemon_main_def assms(1) main_loop_interrupted wfr_ack_close_def wfr_lirc_close_def Let_def)
  next
    case (Some path)
    with assms(2-6) h show ?thesis
      by (auto simp: daemon_main_def assms(1) main_loop_interrupted wfr_ack_close_def wfr_evdev_close_def Let_def)
  qed
qed

text \<open>A transmission is handled, and then SIGTERM interrupts the next read.\<close>

theorem signal_stops_daemon_witness:
  "run_state (daemon_main nm_host [Opt_foreground, Opt_device ''/dev/lirc1'']
     (map lirc_arrival (wfr_frames 0 (map byte_of_char ''WIFI:S:x;T:WEP;;''))
       @ [\<lparr>arr_result = ReadError 4, arr_stop = True, arr_clock = instant\<rparr>]) []) []
   = (Exited 0, snd (run_state (handle_credentials nm_host 3 ''WIFI:S:x;T:WEP;;'')
       [Open ''/dev/lirc1'' O_RDONLY, Ioctl 3 LIRC_SET_REC_MODE_SCANCODE,
        Open ''/dev/lirc1'' O_WRONLY, Ioctl 3 LIRC_SET_SEND_MODE_SCANCODE]) @ [Close 3, Close 3])"
proof -
  let ?fs = "wfr_frames 0 (map byte_of_char ''WIFI:S:x;T:WEP;;'')"
  let ?rs = "map lirc_arrival ?fs @ [\<lparr>arr_result = ReadError 4, arr_stop = True, arr_clock = instant\<rparr>]"
  let ?cfg = "default_options\<lparr>foreground := True, device := ''/dev/lirc1''\<rparr>"
  let ?tr0 = "[Open ''/dev/lirc1'' O_RDONLY, Ioctl 3 LIRC_SET_REC_MODE_SCANCODE]"
  let ?tr1 = "?tr0 @ [Open ''/dev/lirc1'' O_WRONLY, Ioctl 3 LIRC_SET_SEND_MODE_SCANCODE]"
  have o: "parse_options [Opt_foreground, Opt_device ''/dev/lirc1''] default_options = Inr ?cfg" by simp
  have rx: "run_state (case evdev_device ?cfg of Some path \<Rightarrow> wfr_evdev_open nm_host path
      | None \<Rightarrow> wfr_lirc_open nm_host (device ?cfg)) [] = (3, ?tr0)"
    by (simp add: default_options_def wfr_lirc_open_def sys_open_def sys_ioctl_def nm_host_def)
  have ack: "run_state (wfr_ack_open nm_host (case ack_device ?cfg of None \<Rightarrow> device ?cfg | Some path \<Rightarrow> path)) ?tr0
      = (3, ?tr1)"
    by (simp add: default_options_def wfr_ack_open_def sys_open_def sys_ioctl_def nm_host_def)
  have i: "interrupted_after (LircRx (map lirc_arrival ?fs)) (if evdev_device ?cfg \<noteq> None then EvdevRx [] else LircRx ?rs)"
    by (simp add: default_options_def)
  have magic: "frame_magic (fst f)" if "f \<in> set (wfr_frames 0 payload)" for f payload
    using that by (auto simp: wfr_frames_def)
  have "filter (\<lambda>f. frame_magic (fst f)) (wfr_frames 0 payload) = wfr_frames 0 payload" for payload
    by (rule filter_True) (use magic in blast)
  then have f: "filter (\<lambda>f. frame_magic (fst f)) (map snd (map (\<lambda>f. (instant, f)) ?fs)) = ?fs"
    by (simp add: comp_def del: list.map)
  have w: "within_window (map (\<lambda>f. (instant, f)) ?fs)"
    by (auto simp: within_window_def in_window_def list_all_iff clock_near_def instant_def
        decode_elapsed_def WFR_TIMEOUT_SEC_def)
  have "snd (daemon_feed_all wfr_decode_init (map (\<lambda>f. (instant, f)) ?fs))
      = [map char_of_byte (map byte_of_char ''WIFI:S:x;T:WEP;;'')]"
    by (rule daemon_decoder.complete_transmission [OF decoder_reach_inv [OF decoder_reach.init]
      decoder_in_time [OF w pending_near_init] f]) simp_all
  then have d: "snd (daemon_feed_all wfr_decode_init (rx_heard (LircRx (map lirc_arrival ?fs)))) = [''WIFI:S:x;T:WEP;;'']"
    unfolding rx_heard.simps heard_lirc_arrivals by simp
  have h: "run_state (handle_all env fd [p]) tr = run_state (handle_credentials env fd (c_str p)) tr" for env fd p tr
    by (cases "run_state (handle_credentials env fd (c_str p)) tr") (simp add: State_Monad.bind_def)
  obtain r tr where run: "run_state (daemon_main nm_host [Opt_foreground, Opt_device ''/dev/lirc1''] ?rs []) [] = (r, tr)"
    by fastforce
  from signal_stops_daemon [OF o rx _ ack i run] show ?thesis
    unfolding d h run by (simp add: c_str_def)
qed

end
