(* ===== verification/Ack_Decode.thy ===== *)
theory Ack_Decode
  imports Framing
begin

unbundle bit_operations_syntax

text \<open>
  The Flipper's ACK decoder, \<^verbatim>\<open>flipper/wfr_decode.c\<close>. Time is the 32-bit tick counter of the
  firmware: the two \<^verbatim>\<open>furi_get_tick()\<close> readings of a step are arguments, and the firmware's
  \<^verbatim>\<open>furi_ms_to_ticks\<close>, which is not part of the repository, is the parameter \<open>ms_to_ticks\<close>.
\<close>

record WfrAckDecoder =
  ack_payload_buf :: "byte list"
  ack_expected_len :: byte
  ack_write_cursor :: byte
  ack_in_transmission :: bool
  start_tick :: u32

definition wfr_ack_decode_init :: WfrAckDecoder where
  "wfr_ack_decode_init = \<lparr>ack_payload_buf = replicate (WFR_MAX_TOTAL_PAYLOAD + 1) 0,
     ack_expected_len = 0, ack_write_cursor = 0, ack_in_transmission = False, start_tick = 0\<rparr>"

definition ack_decode_reset :: "WfrAckDecoder \<Rightarrow> WfrAckDecoder" where
  "ack_decode_reset dec = wfr_ack_decode_init"

definition ack_check_timeout :: "(nat \<Rightarrow> u32) \<Rightarrow> u32 \<Rightarrow> WfrAckDecoder \<Rightarrow> WfrAckDecoder \<times> bool" where
  "ack_check_timeout ms_to_ticks now dec =
     (if \<not> ack_in_transmission dec then (dec, False)
      else
        let elapsed = now - start_tick dec in
        if elapsed \<ge> ms_to_ticks (WFR_ACK_TIMEOUT_SEC * 1000) then (ack_decode_reset dec, True)
        else (dec, False))"

definition wfr_ack_decode_feed ::
  "(nat \<Rightarrow> u32) \<Rightarrow> u32 \<times> u32 \<Rightarrow> WfrAckDecoder \<Rightarrow> byte \<Rightarrow> byte \<Rightarrow> nat
     \<Rightarrow> WfrAckDecoder \<times> int \<times> string option" where
  "wfr_ack_decode_feed ms_to_ticks ticks dec rc6_address rc6_command out_size =
     (let (now, now') = ticks; (dec, timed_out) = ack_check_timeout ms_to_ticks now dec in
      if timed_out then (dec, -1, None)
      else if rc6_address AND WFR_FRAME_MAGIC_MASK \<noteq> WFR_FRAME_MAGIC then (dec, 0, None)
      else
        let ftype = rc6_address AND WFR_FRAME_TYPE_MASK in
        if ftype = WFR_FRAME_TYPE_START then
          (let total_len = rc6_command in
           if total_len = 0 then (dec, -1, None)
           else if ack_in_transmission dec \<and> ack_expected_len dec = total_len then
             (dec\<lparr>ack_write_cursor := 0, start_tick := now'\<rparr>, 0, None)
           else
             ((ack_decode_reset dec)\<lparr>ack_expected_len := total_len, ack_in_transmission := True,
                start_tick := now'\<rparr>, 0, None))
        else if ftype = WFR_FRAME_TYPE_DATA then
          (if \<not> ack_in_transmission dec then (dec, 0, None)
           else if ack_write_cursor dec \<ge> ack_expected_len dec then (dec, 0, None)
           else
             (dec\<lparr>ack_payload_buf := (ack_payload_buf dec)[unat (ack_write_cursor dec) := rc6_command],
                ack_write_cursor := ack_write_cursor dec + 1\<rparr>, 0, None))
        else if ftype = WFR_FRAME_TYPE_END then
          (if \<not> ack_in_transmission dec then (dec, 0, None)
           else if ack_write_cursor dec \<noteq> ack_expected_len dec then (dec, 0, None)
           else
             let expected_crc = rc6_command;
                 computed_crc = wfr_crc8 (take (unat (ack_expected_len dec)) (ack_payload_buf dec)) in
             if expected_crc \<noteq> computed_crc then (dec\<lparr>ack_write_cursor := 0\<rparr>, 0, None)
             else if unat (ack_expected_len dec) \<ge> out_size then (ack_decode_reset dec, -1, None)
             else
               let out = map char_of_byte (take (unat (ack_expected_len dec)) (ack_payload_buf dec));
                   result_len = int (unat (ack_expected_len dec)) in
               (ack_decode_reset dec, result_len, Some out))
        else (dec, 0, None))"

section \<open>Invariant and abstraction\<close>

definition ack_inv :: "WfrAckDecoder \<Rightarrow> bool" where
  "ack_inv dec \<longleftrightarrow> length (ack_payload_buf dec) = WFR_MAX_TOTAL_PAYLOAD + 1
     \<and> ack_write_cursor dec \<le> ack_expected_len dec
     \<and> (ack_in_transmission dec \<longrightarrow> ack_expected_len dec \<noteq> 0)"

definition ack_abs :: "WfrAckDecoder \<Rightarrow> reassembly" where
  "ack_abs dec =
     (if ack_in_transmission dec
      then Receiving (ack_expected_len dec) (take (unat (ack_write_cursor dec)) (ack_payload_buf dec))
      else Idle)"

definition ack_expired :: "(nat \<Rightarrow> u32) \<Rightarrow> u32 \<times> u32 \<Rightarrow> WfrAckDecoder \<Rightarrow> bool" where
  "ack_expired ms_to_ticks ticks dec \<longleftrightarrow>
     ack_in_transmission dec
     \<and> fst ticks - start_tick dec \<ge> ms_to_ticks (WFR_ACK_TIMEOUT_SEC * 1000)"

lemma ack_init [simp]: "ack_inv wfr_ack_decode_init" "ack_abs wfr_ack_decode_init = Idle"
  by (simp_all add: ack_inv_def ack_abs_def wfr_ack_decode_init_def)

lemma ack_cursor:
  assumes "ack_inv dec" and "ack_write_cursor dec < ack_expected_len dec"
  shows "unat (ack_write_cursor dec) < 255"
    and "unat (ack_write_cursor dec + 1) = Suc (unat (ack_write_cursor dec))"
    and "ack_write_cursor dec + 1 \<le> ack_expected_len dec"
proof -
  have l: "unat (ack_write_cursor dec) < unat (ack_expected_len dec)"
    using assms(2) by (simp add: word_less_nat_alt)
  then show lt: "unat (ack_write_cursor dec) < 255"
    using byte_le_255 [of "ack_expected_len dec"] by linarith
  then show s: "unat (ack_write_cursor dec + 1) = Suc (unat (ack_write_cursor dec))"
    by (rule unat_byte_plus_one)
  show "ack_write_cursor dec + 1 \<le> ack_expected_len dec"
    using s l by (simp add: word_le_nat_alt)
qed

lemma ack_feed_expired:
  assumes "ack_expired ms t dec"
  shows "wfr_ack_decode_feed ms t dec a c n = (wfr_ack_decode_init, -1, None)"
  using assms
  by (auto simp: wfr_ack_decode_feed_def ack_check_timeout_def ack_expired_def ack_decode_reset_def
      split: prod.splits)

lemma ack_check_live:
  "\<not> ack_expired ms t dec \<Longrightarrow> ack_check_timeout ms (fst t) dec = (dec, False)"
  by (auto simp: ack_check_timeout_def ack_expired_def)

lemma ack_feed_inv [wfr_inv]:
  assumes inv: "ack_inv dec"
  shows "ack_inv (fst (wfr_ack_decode_feed ms t dec a c n))"
proof (cases "ack_expired ms t dec")
  case True
  then show ?thesis by (simp add: ack_feed_expired)
next
  case False
  obtain now now' where t: "t = (now, now')" by (cases t)
  have chk: "ack_check_timeout ms now dec = (dec, False)"
    using ack_check_live [OF False] t by simp
  have init: "ack_inv (wfr_ack_decode_init\<lparr>ack_expected_len := l, ack_in_transmission := True,
      start_tick := s\<rparr>)" if "l \<noteq> 0" for l s
    using that by (simp add: ack_inv_def wfr_ack_decode_init_def)
  have zero: "ack_inv (dec\<lparr>ack_write_cursor := 0\<rparr>)"
    "ack_inv (dec\<lparr>ack_write_cursor := 0, start_tick := s\<rparr>)" for s
    using inv by (simp_all add: ack_inv_def)
  have wr: "ack_inv (dec\<lparr>ack_payload_buf := (ack_payload_buf dec)[unat (ack_write_cursor dec) := c],
      ack_write_cursor := ack_write_cursor dec + 1\<rparr>)" if "ack_write_cursor dec < ack_expected_len dec"
    using inv ack_cursor [OF inv that] by (simp add: ack_inv_def)
  show ?thesis
    using inv init zero wr
    by (simp add: wfr_ack_decode_feed_def t chk Let_def ack_decode_reset_def not_le)
qed

lemma ack_abs_complete:
  assumes "ack_inv dec" and "ack_in_transmission dec"
  shows "ack_abs dec = Receiving (ack_expected_len dec) (take (unat (ack_write_cursor dec)) (ack_payload_buf dec))"
    and "length (take (unat (ack_write_cursor dec)) (ack_payload_buf dec)) = unat (ack_write_cursor dec)"
  using assms byte_le_255 [of "ack_write_cursor dec"]
  by (auto simp: ack_abs_def ack_inv_def WFR_MAX_TOTAL_PAYLOAD_def)

lemma ack_feed_live:
  assumes inv: "ack_inv dec" and live: "\<not> ack_expired ms t dec"
  shows "(ack_abs (fst (wfr_ack_decode_feed ms t dec a c n)), snd (wfr_ack_decode_feed ms t dec a c n))
       = spec_feed (ack_abs dec) (a, c) n"
proof -
  obtain now now' where t: "t = (now, now')" by (cases t)
  have chk: "ack_check_timeout ms now dec = (dec, False)"
    using ack_check_live [OF live] t by simp
  note defs = wfr_ack_decode_feed_def spec_feed_def frame_magic_def frame_type_def t chk Let_def
    ack_decode_reset_def wfr_ack_decode_init_def
  show ?thesis
  proof (cases "ack_in_transmission dec")
    case False
    then show ?thesis by (auto simp: defs ack_abs_def)
  next
    case True
    note abs = ack_abs_complete [OF inv True]
    have len: "length (ack_payload_buf dec) = 256"
      using inv by (simp add: ack_inv_def WFR_MAX_TOTAL_PAYLOAD_def)
    show ?thesis
    proof (cases "ack_write_cursor dec < ack_expected_len dec")
      case less: True
      note cur = ack_cursor [OF inv less]
      have "take (Suc (unat (ack_write_cursor dec))) ((ack_payload_buf dec)[unat (ack_write_cursor dec) := c])
          = take (unat (ack_write_cursor dec)) (ack_payload_buf dec) @ [c]"
        using cur(1) len by (intro take_Suc_update) simp
      moreover have "unat (ack_write_cursor dec) \<noteq> unat (ack_expected_len dec)"
        "unat (ack_write_cursor dec) < unat (ack_expected_len dec)"
        using less by (simp_all add: word_less_nat_alt)
      ultimately show ?thesis
        using True less abs cur by (auto simp: defs ack_abs_def not_less word_le_nat_alt)
    next
      case False
      then have "ack_write_cursor dec = ack_expected_len dec"
        using inv by (simp add: ack_inv_def)
      then show ?thesis
        using True abs by (auto simp: defs ack_abs_def)
    qed
  qed
qed

interpretation ack_decoder:
  frame_decoder "wfr_ack_decode_feed ms" "ack_expired ms" ack_abs ack_inv for ms
proof unfold_locales
  fix d t a c n
  show "ack_inv d \<Longrightarrow> ack_inv (fst (wfr_ack_decode_feed ms t d a c n))"
    by (rule ack_feed_inv)
  show "ack_expired ms t d \<Longrightarrow> ack_abs d \<noteq> Idle"
    by (simp add: ack_expired_def ack_abs_def)
qed (simp_all add: ack_feed_expired ack_feed_live)

section \<open>Time\<close>

definition tick_near :: "(nat \<Rightarrow> u32) \<Rightarrow> u32 \<times> u32 \<Rightarrow> u32 \<Rightarrow> bool" where
  "tick_near ms_to_ticks t start \<longleftrightarrow> fst t - start < ms_to_ticks (WFR_ACK_TIMEOUT_SEC * 1000)"

lemma ack_abs_busy: "ack_abs dec \<noteq> Idle \<longleftrightarrow> ack_in_transmission dec"
  by (simp add: ack_abs_def)

lemma ack_start_tick:
  assumes "\<not> ack_expired ms t dec"
    and "ack_in_transmission (fst (wfr_ack_decode_feed ms t dec a c n))"
  shows "start_tick (fst (wfr_ack_decode_feed ms t dec a c n)) = snd t
    \<or> ack_in_transmission dec \<and> start_tick (fst (wfr_ack_decode_feed ms t dec a c n)) = start_tick dec"
proof -
  obtain now now' where t: "t = (now, now')" by (cases t)
  have chk: "ack_check_timeout ms now dec = (dec, False)"
    using ack_check_live [OF assms(1)] t by simp
  show ?thesis
    using assms(2)
    by (auto simp: wfr_ack_decode_feed_def t chk Let_def ack_decode_reset_def
        wfr_ack_decode_init_def split: if_splits)
qed

interpretation ack_timed:
  timed_decoder "wfr_ack_decode_feed ms" "ack_expired ms" ack_abs ack_inv snd start_tick "tick_near ms" for ms
proof unfold_locales
  fix t d a c n
  show "ack_expired ms t d \<Longrightarrow> \<not> tick_near ms t (start_tick d)"
    by (simp add: ack_expired_def tick_near_def not_less)
  show "\<not> ack_expired ms t d \<Longrightarrow> ack_abs (fst (wfr_ack_decode_feed ms t d a c n)) \<noteq> Idle \<Longrightarrow>
      start_tick (fst (wfr_ack_decode_feed ms t d a c n)) = snd t
      \<or> ack_abs d \<noteq> Idle \<and> start_tick (fst (wfr_ack_decode_feed ms t d a c n)) = start_tick d"
    unfolding ack_abs_busy by (rule ack_start_tick)
qed

definition within_ticks :: "(nat \<Rightarrow> u32) \<Rightarrow> ((u32 \<times> u32) \<times> frame) list \<Rightarrow> bool" where
  "within_ticks ms_to_ticks fs \<longleftrightarrow> in_window (tick_near ms_to_ticks) snd fs"

lemma ack_in_time:
  assumes "within_ticks ms fs"
  shows "in_time (wfr_ack_decode_feed ms) (ack_expired ms) wfr_ack_decode_init fs n"
  using assms by (intro ack_timed.in_time_window) (simp_all add: within_ticks_def)

section \<open>Reachable decoders\<close>

inductive ack_reach :: "WfrAckDecoder \<Rightarrow> bool" where
  init: "ack_reach wfr_ack_decode_init"
| feed: "ack_reach dec \<Longrightarrow> ack_reach (fst (wfr_ack_decode_feed ms t dec a c n))"

lemma ack_reach_inv: "ack_reach dec \<Longrightarrow> ack_inv dec"
  by (induction rule: ack_reach.induct) (simp_all add: ack_feed_inv)

section \<open>Properties\<close>



text \<open>
  The ACK timeout is measured correctly when the 32-bit tick counter wraps: for a START at tick
  \<open>t0\<close> and a check at \<open>t1\<close>, less than a full turn later, it fires exactly when \<open>t1 - t0\<close> ticks
  reach the limit.
\<close>

theorem ack_timeout_wraps:
  assumes "ack_in_transmission dec" and "start_tick dec = of_nat t0"
    and "t0 \<le> t1" and "t1 - t0 < 2 ^ 32"
  shows "snd (ack_check_timeout ms (of_nat t1) dec)
    \<longleftrightarrow> unat (ms (WFR_ACK_TIMEOUT_SEC * 1000)) \<le> t1 - t0"
proof -
  have "(of_nat t1 - of_nat t0 :: u32) = of_nat (t1 - t0)"
    using assms(3) by simp
  moreover have "unat (of_nat (t1 - t0) :: u32) = t1 - t0"
    using assms(4) by (simp add: unat_of_nat take_bit_nat_eq_self)
  ultimately show ?thesis
    using assms(1,2) by (simp add: ack_check_timeout_def word_le_nat_alt)
qed

theorem ack_timeout_wraps_witness:
  "snd (ack_check_timeout of_nat (of_nat 4294997300)
     (wfr_ack_decode_init\<lparr>ack_in_transmission := True, start_tick := of_nat 4294967295\<rparr>))"
  using ack_timeout_wraps
    [of "wfr_ack_decode_init\<lparr>ack_in_transmission := True, start_tick := of_nat 4294967295\<rparr>"
      4294967295 4294997300 of_nat]
  by (simp add: WFR_ACK_TIMEOUT_SEC_def)

end
