(* ===== verification/Ack_Receive.thy ===== *)
theory Ack_Receive
  imports Ack_Decode Encode
begin

unbundle bit_operations_syntax

text \<open>
  The Flipper's side of the acknowledgement, from \<^verbatim>\<open>flipper/scenes/wi_fir_scene_transmit.c\<close>: the
  infrared receive callback, which feeds the ACK decoder and posts a custom event for its result. The
  events the application posts to itself are those of \<^verbatim>\<open>flipper/scenes/wi_fir_scene.h\<close>.
\<close>

datatype WiFirCustomEvent =
    WiFirCustomEventMainMenuCredentials | WiFirCustomEventMainMenuScanNfc
  | WiFirCustomEventMainMenuSaved | WiFirCustomEventMainMenuAbout
  | WiFirCustomEventTextInputDone | WiFirCustomEventSecurityDone
  | WiFirCustomEventConfirmSend | WiFirCustomEventConfirmBack
  | WiFirCustomEventTransmitDone | WiFirCustomEventTransmitFail
  | WiFirCustomEventNfcWifiFound | WiFirCustomEventNfcNotWifi | WiFirCustomEventNfcError
  | WiFirCustomEventSavedSelected | WiFirCustomEventConfirmDelete
  | WiFirCustomEventDeleteConfirmed | WiFirCustomEventDeleteCancelled
  | WiFirCustomEventMainMenuSettings
  | WiFirCustomEventAckSuccess | WiFirCustomEventAckFail | WiFirCustomEventAckTimeout
  | WiFirCustomEventAckDismiss | WiFirCustomEventTxFinished
  | WiFirCustomEventStatusLeft | WiFirCustomEventStatusRight | WiFirCustomEventStatusOk

text \<open>The part of \<^verbatim>\<open>WiFirApp\<close> the callback works on, and the events it has posted.\<close>

record ack_listener =
  ack_decoder :: WfrAckDecoder
  ack_result_text :: string
  posted :: "WiFirCustomEvent list"

text \<open>\<open>None\<close>: a signal that the firmware did not decode.\<close>

definition wi_fir_ir_rx_callback ::
  "(nat \<Rightarrow> u32) \<Rightarrow> u32 \<times> u32 \<Rightarrow> InfraredMessage option \<Rightarrow> 'a ack_listener_scheme \<Rightarrow> 'a ack_listener_scheme" where
  "wi_fir_ir_rx_callback ms_to_ticks ticks signal app =
     (case signal of
        None \<Rightarrow> app
      | Some message \<Rightarrow>
          if msg_protocol message \<noteq> InfraredProtocolRC6 \<and> msg_protocol message \<noteq> InfraredProtocolNEC then app
          else
            let address = ucast (msg_address message AND 0xFF);
                command = ucast (msg_command message AND 0xFF);
                (dec, result, out) = wfr_ack_decode_feed ms_to_ticks ticks (ack_decoder app) address command
                  (WFR_MAX_TOTAL_PAYLOAD + 1);
                app = app\<lparr>ack_decoder := dec\<rparr>
            in if result > 0 then
                 let payload = c_str (the out) in
                 if strncmp_eq payload WFR_ACK_PREFIX_OK (length WFR_ACK_PREFIX_OK) then
                   let ip = drop (length WFR_ACK_PREFIX_OK) payload
                   in app\<lparr>ack_result_text := str_trunc 63 ip,
                          posted := posted app @ [WiFirCustomEventAckSuccess]\<rparr>
                 else app\<lparr>posted := posted app @ [WiFirCustomEventAckFail]\<rparr>
               else app)"

definition start_listening :: ack_listener where
  "start_listening = \<lparr>ack_decoder = wfr_ack_decode_init, ack_result_text = [], posted = []\<rparr>"

fun listen :: "(nat \<Rightarrow> u32) \<Rightarrow> ((u32 \<times> u32) \<times> InfraredMessage option) list \<Rightarrow> 'a ack_listener_scheme \<Rightarrow> 'a ack_listener_scheme" where
  "listen ms_to_ticks [] app = app"
| "listen ms_to_ticks ((t, m) # ms) app = listen ms_to_ticks ms (wi_fir_ir_rx_callback ms_to_ticks t m app)"

section \<open>The frames in the signals\<close>

definition signal_frame :: "InfraredMessage option \<Rightarrow> frame option" where
  "signal_frame s = (case s of
      None \<Rightarrow> None
    | Some m \<Rightarrow> if msg_protocol m = InfraredProtocolRC6 \<or> msg_protocol m = InfraredProtocolNEC
                then Some (ucast (msg_address m AND 0xFF), ucast (msg_command m AND 0xFF)) else None)"

fun signal_frames :: "((u32 \<times> u32) \<times> InfraredMessage option) list \<Rightarrow> ((u32 \<times> u32) \<times> frame) list" where
  "signal_frames [] = []"
| "signal_frames ((t, m) # ms) = (case signal_frame m of None \<Rightarrow> [] | Some f \<Rightarrow> [(t, f)]) @ signal_frames ms"

definition ack_event :: "string \<Rightarrow> WiFirCustomEvent" where
  "ack_event s = (if strncmp_eq (c_str s) WFR_ACK_PREFIX_OK 3 then WiFirCustomEventAckSuccess else WiFirCustomEventAckFail)"

definition ack_text :: "string \<Rightarrow> string \<Rightarrow> string" where
  "ack_text old s = (if strncmp_eq (c_str s) WFR_ACK_PREFIX_OK 3 then str_trunc 63 (drop 3 (c_str s)) else old)"

lemma length_prefix_ok [simp]: "length WFR_ACK_PREFIX_OK = 3"
  by (simp add: WFR_ACK_PREFIX_OK_def)

lemma callback_frame:
  "wi_fir_ir_rx_callback ms t m app = (case signal_frame m of
     None \<Rightarrow> app
   | Some (a, c) \<Rightarrow>
       (let (dec, r) = wfr_ack_decode_feed ms t (ack_decoder app) a c 256 in
        app\<lparr>ack_decoder := dec,
          ack_result_text := foldl ack_text (ack_result_text app) (delivered r),
          posted := posted app @ map ack_event (delivered r)\<rparr>))"
proof (cases "signal_frame m")
  case None
  then show ?thesis
    by (auto simp: wi_fir_ir_rx_callback_def signal_frame_def split: option.splits if_splits)
next
  case (Some f)
  then obtain msg where m: "m = Some msg" "msg_protocol msg = InfraredProtocolRC6 \<or> msg_protocol msg = InfraredProtocolNEC"
    "f = (ucast (msg_address msg AND 0xFF), ucast (msg_command msg AND 0xFF))"
    by (auto simp: signal_frame_def split: option.splits if_splits)
  obtain dec r out where fd: "wfr_ack_decode_feed ms t (ack_decoder app) (fst f) (snd f) 256 = (dec, r, out)"
    by (cases "wfr_ack_decode_feed ms t (ack_decoder app) (fst f) (snd f) 256") auto
  have "\<exists>s. out = Some s" if "0 < r"
    using fd that
    by (auto simp: wfr_ack_decode_feed_def ack_check_timeout_def Let_def split: prod.splits if_splits)
  then show ?thesis
    using Some m fd
    by (auto simp: wi_fir_ir_rx_callback_def delivered_def ack_event_def ack_text_def
        WFR_MAX_TOTAL_PAYLOAD_def Let_def)
qed

lemma listen_feeds:
  "listen ms sigs app = (let (dec, outs) = feed_all (wfr_ack_decode_feed ms) (ack_decoder app) (signal_frames sigs) 256
     in app\<lparr>ack_decoder := dec, ack_result_text := foldl ack_text (ack_result_text app) outs,
            posted := posted app @ map ack_event outs\<rparr>)"
proof (induction sigs arbitrary: app)
  case (Cons s sigs)
  obtain t m where s: "s = (t, m)" by (cases s)
  show ?case
  proof (cases "signal_frame m")
    case None
    then show ?thesis using Cons by (simp add: s callback_frame)
  next
    case (Some f)
    obtain a c where f: "f = (a, c)" by (cases f)
    obtain dec r where fd: "wfr_ack_decode_feed ms t (ack_decoder app) a c 256 = (dec, r)"
      by (cases "wfr_ack_decode_feed ms t (ack_decoder app) a c 256")
    obtain dec' outs where rest: "feed_all (wfr_ack_decode_feed ms) dec (signal_frames sigs) 256 = (dec', outs)"
      by (cases "feed_all (wfr_ack_decode_feed ms) dec (signal_frames sigs) 256")
    show ?thesis
      using Some f fd rest by (simp add: s callback_frame Cons)
  qed
qed simp

text \<open>One acknowledgement heard in time by a listener that has just been started: one event.\<close>

lemma listen_one:
  assumes "payload \<noteq> []" and "length payload \<le> 255"
    and "within_ticks ms (signal_frames sigs)"
    and "filter (\<lambda>f. frame_magic (fst f)) (map snd (signal_frames sigs)) = wfr_frames 0 (map byte_of_char payload)"
    and "ack_decoder app = wfr_ack_decode_init"
  shows "posted (listen ms sigs app) = posted app @ [ack_event payload]"
    and "ack_result_text (listen ms sigs app) = ack_text (ack_result_text app) payload"
proof -
  have "snd (feed_all (wfr_ack_decode_feed ms) wfr_ack_decode_init (signal_frames sigs) 256)
      = [map char_of_byte (map byte_of_char payload)]"
    using assms(1,2)
    by (intro ack_decoder.complete_transmission [OF ack_init(1) ack_in_time [OF assms(3)] assms(4)]) simp_all
  then obtain dec where "feed_all (wfr_ack_decode_feed ms) wfr_ack_decode_init (signal_frames sigs) 256 = (dec, [payload])"
    by (cases "feed_all (wfr_ack_decode_feed ms) wfr_ack_decode_init (signal_frames sigs) 256") auto
  then show "posted (listen ms sigs app) = posted app @ [ack_event payload]"
    and "ack_result_text (listen ms sigs app) = ack_text (ack_result_text app) payload"
    by (simp_all add: listen_feeds assms(5))
qed

lemma start_listening_sel [simp]:
  "ack_decoder start_listening = wfr_ack_decode_init" "ack_result_text start_listening = []" "posted start_listening = []"
  by (simp_all add: start_listening_def)

section \<open>Properties\<close>

text \<open>
  The acknowledgement arrives at the Flipper. When the frames of an acknowledgement reach the
  listener in order within the timeout, mixed with undecoded signals and foreign traffic without the
  magic nibble, it posts exactly one event: success with the address as its text for an OK payload,
  failure for any other.
\<close>

theorem ack_arrives:
  assumes "payload \<noteq> []" and "length payload \<le> 255" and "nul_free payload"
    and "within_ticks ms (signal_frames sigs)"
    and "filter (\<lambda>f. frame_magic (fst f)) (map snd (signal_frames sigs)) = wfr_frames 0 (map byte_of_char payload)"
  shows "posted (listen ms sigs start_listening) = [ack_event payload]
    \<and> (\<forall>ip. payload = ''OK:'' @ ip \<longrightarrow> ack_event payload = WiFirCustomEventAckSuccess
         \<and> ack_result_text (listen ms sigs start_listening) = take 63 ip)
    \<and> (payload = ''FAIL'' \<longrightarrow> ack_event payload = WiFirCustomEventAckFail
         \<and> ack_result_text (listen ms sigs start_listening) = [])"
  using listen_one [OF assms(1,2,4,5) start_listening_sel(1)] assms(3)
  by (auto simp: ack_event_def ack_text_def strncmp_eq_def str_trunc_def WFR_ACK_PREFIX_OK_def
      numeral_eq_Suc)

text \<open>The signals of a frame sequence received as RC-6 at one tick.\<close>

definition rc6_signals :: "u32 \<Rightarrow> frame list \<Rightarrow> ((u32 \<times> u32) \<times> InfraredMessage option) list" where
  "rc6_signals t fs = map (\<lambda>(a, c). ((t, t), Some (ir_message WfrIrProtocolRC6 a c))) fs"

lemma signal_frames_rc6 [simp]: "signal_frames (rc6_signals t fs) = map (\<lambda>f. ((t, t), f)) fs"
  by (induction fs) (auto simp: rc6_signals_def signal_frame_def ir_message_def ucast_low_byte)

lemma filter_magic_frames:
  "is_pass p \<Longrightarrow> filter (\<lambda>f. frame_magic (fst f)) (wfr_frames p payload) = wfr_frames p payload"
  by (auto simp: wfr_frames_def filter_id_conv)

theorem ack_arrives_witness:
  "posted (listen of_nat (rc6_signals 9 (wfr_frames 0 (map byte_of_char ''OK:10.0.0.7''))) start_listening)
     = [WiFirCustomEventAckSuccess]
   \<and> ack_result_text (listen of_nat (rc6_signals 9 (wfr_frames 0 (map byte_of_char ''OK:10.0.0.7''))) start_listening)
     = ''10.0.0.7''"
proof -
  let ?p = "''OK:10.0.0.7''"
  let ?s = "rc6_signals 9 (wfr_frames 0 (map byte_of_char ?p))"
  have w: "within_ticks of_nat (signal_frames ?s)"
    by (simp add: within_ticks_def in_window_def list_all_iff tick_near_def WFR_ACK_TIMEOUT_SEC_def)
  have f: "filter (\<lambda>f. frame_magic (fst f)) (map snd (signal_frames ?s)) = wfr_frames 0 (map byte_of_char ?p)"
    by (simp only: signal_frames_rc6 map_map comp_def snd_conv map_ident filter_magic_frames [of 0] bit.conj_zero_left)
  have "?p = ''OK:'' @ ''10.0.0.7''" by simp
  then show ?thesis
    using ack_arrives [OF _ _ _ w f] by auto
qed

end
