(* ===== verification/Exchange.thy ===== *)
theory Exchange
  imports Link Daemon_Main Ack_Receive
begin

text \<open>
  The whole exchange: a transmission of the Flipper, the daemon's loop that handles it, and the
  acknowledgement on its way back to the Flipper's listener. The lemmas compose those of the single
  components; the properties over them are in the root theory. \<open>home_host\<close> is a host on which every
  step succeeds.
\<close>

section \<open>The daemon handles a transmission\<close>

text \<open>
  What the daemon's loop does when the frames of one transmission arrive: it handles the string that
  was printed, once, and waits for more.
\<close>

lemma loop_handles_transmission:
  assumes "wf_creds c" and "ssid c \<noteq> []"
    and "wfr_transmit_credentials (Some c) protocol progress \<lparr>tx_log = [], tx_ctx = ctx\<rparr> = (True, st')"
    and "rx_undisturbed rx" and "within_window (rx_heard rx)"
    and "filter (\<lambda>f. frame_magic (fst f)) (map snd (rx_heard rx)) = frames_sent (tx_log st')"
    and "run_state (main_loop env fd rx wfr_decode_init) tr = (r, tr')"
  shows "run_state (handle_credentials env fd (wifi_string c)) tr = ((), tr')"
proof -
  have "frames_sent (tx_log st') = wfr_frames 0 (creds_payload c)"
    using transmit_effect [OF assms(1-3)] by auto
  with assms(6) have "filter (\<lambda>f. frame_magic (fst f)) (map snd (rx_heard rx)) = wfr_frames 0 (creds_payload c)"
    by simp
  from daemon_decoder.complete_transmission [OF decoder_reach_inv [OF decoder_reach.init]
      decoder_in_time [OF assms(5) pending_near_init] this zero_is_pass creds_payload_props [OF assms(1)]]
  have "snd (daemon_feed_all wfr_decode_init (rx_heard rx)) = [wifi_string c]"
    by (simp add: creds_payload_def)
  then have "main_loop env fd rx wfr_decode_init = do { handle_credentials env fd (wifi_string c);
      State_Monad.return (Blocked (fst (daemon_feed_all wfr_decode_init (rx_heard rx)))) }"
    using main_loop_handles [OF assms(4), of env fd wfr_decode_init] nul_free_wifi_string [OF assms(1)]
    by (simp add: State_Monad.bind_assoc)
  with assms(7) show ?thesis
    by (auto simp: State_Monad.bind_def split: prod.splits)
qed

lemma loop_acknowledges:
  assumes "wf_creds c" and "ssid c \<noteq> []"
    and "wfr_transmit_credentials (Some c) protocol progress \<lparr>tx_log = [], tx_ctx = ctx\<rparr> = (True, st')"
    and "rx_undisturbed rx" and "within_window (rx_heard rx)"
    and "filter (\<lambda>f. frame_magic (fst f)) (map snd (rx_heard rx)) = frames_sent (tx_log st')"
    and "0 \<le> fd" and "\<forall>h sc. env_write_ok env h fd sc"
    and "run_state (main_loop env fd rx wfr_decode_init) tr = (r, tr')"
  shows "\<exists>success tr1 ip.
      run_state (wfr_net_connect env (Some (c\<lparr>security := norm_security (security c)\<rparr>))) (attempt_start env tr) = (success, tr1)
    \<and> prefix tr1 tr'
    \<and> frames_written tr' = frames_written tr @ wfr_frames 0 (map byte_of_char (ack_payload success ip))
    \<and> (\<forall>s. ip = Some s \<longrightarrow> s \<noteq> [] \<and> length s \<le> 31)"
proof -
  have "run_state (handle_credentials env fd (wifi_string c)) tr = ((), tr')"
    by (rule loop_handles_transmission [OF assms(1-6,9)])
  from wp_run [OF handle_credentials_wp [OF assms(7,8) parse_wifi_string [OF assms(1,2)]] this]
  show ?thesis unfolding attempt_acknowledged_def acknowledged_def by blast
qed

lemma ack_payload_short: "\<forall>s. ip = Some s \<longrightarrow> s \<noteq> [] \<and> length s \<le> 31 \<Longrightarrow>
  ack_payload success ip \<noteq> [] \<and> length (ack_payload success ip) \<le> 255"
  by (cases ip) (auto simp: ack_payload_def wfr_const)

lemma ack_event_kinds: "ack_event s \<in> {WiFirCustomEventAckSuccess, WiFirCustomEventAckFail}"
  by (simp add: ack_event_def)

lemma ack_event_success:
  "ack_event (ack_payload success ip) = WiFirCustomEventAckSuccess \<Longrightarrow> success"
  by (rule ccontr) (cases ip; simp add: ack_event_def ack_payload_def strncmp_eq_def wfr_const numeral_eq_Suc)

text \<open>
  The acknowledgement by the results of the daemon's steps: what was connected before (\<open>cur\<close>), whether
  the connection succeeded, and then the address.
\<close>

definition reply :: "bool \<Rightarrow> string \<Rightarrow> string" where
  "reply ok ip = ack_payload ok (if ok \<and> ip \<noteq> [] then Some ip else None)"

lemma send_ack_frames:
  assumes "0 \<le> fd" and "\<forall>h sc. env_write_ok env h fd sc"
    and "ok \<Longrightarrow> run_state (wfr_net_get_ip env [] 32) tr = ((b, ip), tr3)"
  shows "wp (send_ack env fd ok) (\<lambda>_ tr'. frames_written tr' = frames_written tr @ wfr_frames 0 (map byte_of_char (reply ok ip))) tr"
proof -
  define tr2 where "tr2 = (if ok then tr3 else tr)"
  have t: "writes tr2 = writes tr" "length ip \<le> 31 \<or> \<not> ok"
    using wp_run [OF get_ip_effect [unfolded effect_def] assms(3)] by (auto simp: tr2_def)
  then have len: "length (map byte_of_char (reply ok ip)) \<le> 255"
    by (auto simp: reply_def ack_payload_def wfr_const)
  have "wp (wfr_ack_send env fd ok (if ok \<and> ip \<noteq> [] then Some ip else None))
      (\<lambda>_ tr'. frames_written tr' = frames_written tr @ wfr_frames 0 (map byte_of_char (reply ok ip))) (tr2 @ [Sleep 1])"
    by (rule wp_mono [OF ack_send_wp [OF assms(1) refl len [unfolded reply_def]]])
      (use assms(2) frames_written_writes [OF t(1)] in \<open>auto simp: reply_def\<close>)
  then show ?thesis
    using assms(1,3) by (cases ok; cases "ip = []") (simp_all add: send_ack_def tr2_def wp_of_run)
qed

lemma handle_credentials_frames:
  assumes "0 \<le> fd" and "\<forall>h sc. env_write_ok env h fd sc" and "wfr_parse_wifi_string p = Some c"
    and cur: "run_state (wfr_net_get_current env (WFR_SSID_MAX_LEN + 1)) tr = (cur, h)"
    and con: "run_state (wfr_net_connect env (Some c)) h = (ok, tr2)"
    and ip: "ok \<Longrightarrow> run_state (wfr_net_get_ip env [] 32) tr2 = ((b, ip), tr3)"
  shows "wp (handle_credentials env fd p) (\<lambda>_ tr'. frames_written tr' =
     frames_written tr @ wfr_frames 0 (map byte_of_char (reply ok ip))) tr"
proof -
  have "writes tr2 = writes tr"
    using wp_run [OF current_effect [unfolded effect_def] cur] wp_run [OF connect_effect [unfolded effect_def] con]
    by simp
  then have a: "wp (send_ack env fd ok) (\<lambda>_ tr'. frames_written tr' =
     frames_written tr @ wfr_frames 0 (map byte_of_char (reply ok ip))) tr2"
    using send_ack_frames [OF assms(1,2) ip] frames_written_writes [of tr2 tr] by simp
  have r: "wp (wfr_net_rollback env prev) (\<lambda>_ tr'. frames_written tr' = fs) tr'"
    if "frames_written tr' = fs" for prev tr' fs
    by (rule wp_mono [OF rollback_effect [unfolded effect_def]]) (use frames_written_writes that in blast)
  show ?thesis
  proof (cases ok)
    case True
    then show ?thesis
      unfolding handle_credentials_def assms(3) option.case wp_bind wp_of_run [OF cur] Let_def
      using a by (simp add: wp_of_run [OF con])
  next
    case False
    with a have "wp (send_ack env fd False) (\<lambda>_ tr'. frames_written tr' =
       frames_written tr @ wfr_frames 0 (map byte_of_char (reply False ip))) tr2"
      by simp
    then have "wp (do { send_ack env fd False;
           (if prev \<noteq> [] then do { wfr_net_rollback env (Some prev); State_Monad.return () }
            else State_Monad.return ()) })
        (\<lambda>_ tr'. frames_written tr' = frames_written tr @ wfr_frames 0 (map byte_of_char (reply False ip))) tr2" for prev
      unfolding wp_bind
      by (rule wp_mono) (auto intro: r)
    with False show ?thesis
      unfolding handle_credentials_def assms(3) option.case wp_bind wp_of_run [OF cur] Let_def
      by (simp add: wp_of_run [OF con])
  qed
qed

lemma get_ip_text: "run_state (wfr_net_get_ip env [] 32) tr = ((b, ip), tr') \<Longrightarrow> nul_free ip \<and> length ip \<le> 31"
proof -
  have "wp (wfr_net_get_ip env [] 32) (\<lambda>r _. nul_free (snd r)) tr"
    by (auto simp: wfr_net_get_ip_def cmd_line_def intro!: nul_free_chomp dest: nul_free_fgets split: option.splits)
  then show "run_state (wfr_net_get_ip env [] 32) tr = ((b, ip), tr') \<Longrightarrow> nul_free ip \<and> length ip \<le> 31"
    using wp_run wp_run [OF get_ip_effect [unfolded effect_def]] by fastforce
qed

lemma ack_reply:
  "nul_free ip \<Longrightarrow> ack_event (reply ok ip) = (if ok \<and> ip \<noteq> [] then WiFirCustomEventAckSuccess else WiFirCustomEventAckFail)"
  "nul_free ip \<Longrightarrow> length ip \<le> 31 \<Longrightarrow> ack_text [] (reply ok ip) = (if ok then ip else [])"
  by (auto simp: reply_def ack_event_def ack_text_def ack_payload_def strncmp_eq_def wfr_const str_trunc_def numeral_eq_Suc)

definition home_host :: os_env where
  "home_host = nm_host\<lparr>env_popen := \<lambda>h cmd. Some (if cmd = detect_cmd then ''wlan0'' else ''10.0.0.7'')\<rparr>"

lemma hd_str_trunc: "0 < n \<Longrightarrow> hd (str_trunc n (c # s)) = c"
  by (cases n) (simp_all add: str_trunc_def)

lemma wp_snd: "wp m (\<lambda>r _. snd r = s) tr \<Longrightarrow> \<exists>b tr'. run_state m tr = ((b, s), tr')"
  by (auto simp: wp_def split: prod.splits)

lemma home_host_facts:
  "\<exists>current tr1. run_state (wfr_net_get_current home_host (WFR_SSID_MAX_LEN + 1)) [] = (current, tr1)"
  "\<exists>tr2. run_state (wfr_net_connect home_host (Some short_creds)) tr1 = (True, tr2)"
  "\<exists>found tr3. run_state (wfr_net_get_ip home_host [] 32) tr2 = ((found, ''10.0.0.7''), tr3)"
proof -
  have "wp (wfr_net_connect home_host (Some short_creds)) (\<lambda>ok _. ok) tr1"
    using nmcli_connect_cmd_eq [OF short_creds_wf(1)]
    by (simp add: wfr_net_connect_def wfr_net_connect_nmcli_def)
      (simp add: cmd_status_def home_host_def nm_host_def WEXITSTATUS_def nm_active_def)
  then show "\<exists>tr2. run_state (wfr_net_connect home_host (Some short_creds)) tr1 = (True, tr2)"
    by (auto simp: wp_def split: prod.splits)
  have "hd (ip_addr_cmd ''wlan0'') = CHR ''i''"
    unfolding ip_addr_cmd_def append_Cons by (rule hd_str_trunc) simp
  moreover have "hd detect_cmd = CHR ''f''"
    unfolding detect_cmd_def append_Cons by (rule list.sel(1))
  ultimately have ne: "ip_addr_cmd ''wlan0'' \<noteq> detect_cmd"
    by auto
  have w: "fgets 32 ''wlan0'' = Some ''wlan0''" "fgets 32 ''10.0.0.7'' = Some ''10.0.0.7''"
    "chomp ''wlan0'' = ''wlan0''" "chomp ''10.0.0.7'' = ''10.0.0.7''"
    by (simp_all add: fgets_def chomp_def)
  have "cmd_line home_host tr detect_cmd 32 = Some ''wlan0''"
    "cmd_line home_host tr (ip_addr_cmd ''wlan0'') 32 = Some ''10.0.0.7''" for tr
    using ne w by (simp_all add: cmd_line_def home_host_def)
  then have "wp (wfr_net_get_ip home_host [] 32) (\<lambda>r _. snd r = ''10.0.0.7'') tr2"
    by (simp add: wfr_net_get_ip_def detect_wifi_iface_def)
  then show "\<exists>found tr3. run_state (wfr_net_get_ip home_host [] 32) tr2 = ((found, ''10.0.0.7''), tr3)"
    by (rule wp_snd)
qed simp

lemma home_host_evidence: "connected_evidence home_host tr c tr' \<longleftrightarrow> nmcli_ran exited_with_0 home_host c tr tr'"
  by (auto simp: connected_evidence_def nmcli_ran_def asked_def home_host_def nm_host_def ended_by_signal_def
      nm_active_def cmd_status_def WEXITSTATUS_def)

text \<open>The hypotheses of the exchange, at one host, one network and one arrival time.\<close>

abbreviation home_rx :: rx where
  "home_rx \<equiv> LircRx (map lirc_arrival (wfr_frames 0 (creds_payload short_creds)))"

definition home_signals :: "trace \<Rightarrow> ((u32 \<times> u32) \<times> InfraredMessage option) list" where
  "home_signals tr = rc6_signals 9 (filter (\<lambda>f. frame_magic (fst f)) (frames_written tr))"

lemma home_exchange:
  "\<exists>st'. wfr_transmit_credentials (Some short_creds) WfrIrProtocolRC6 (None :: unit progress option)
     \<lparr>tx_log = [], tx_ctx = ()\<rparr> = (True, st')
     \<and> filter (\<lambda>f. frame_magic (fst f)) (map snd (rx_heard home_rx)) = frames_sent (tx_log st')"
  "rx_undisturbed home_rx" "within_window (rx_heard home_rx)"
  "\<forall>h sc. env_write_ok home_host h 4 sc"
  "within_ticks of_nat (signal_frames (home_signals tr))"
proof -
  obtain ok st' where run: "wfr_transmit_credentials (Some short_creds) WfrIrProtocolRC6
      (None :: unit progress option) \<lparr>tx_log = [], tx_ctx = ()\<rparr> = (ok, st')"
    by fastforce
  have "never_cancels (None :: unit progress option)" by (simp add: never_cancels_def)
  from transmit_complete [OF short_creds_wf this run] run
  show "\<exists>st'. wfr_transmit_credentials (Some short_creds) WfrIrProtocolRC6 (None :: unit progress option)
     \<lparr>tx_log = [], tx_ctx = ()\<rparr> = (True, st')
     \<and> filter (\<lambda>f. frame_magic (fst f)) (map snd (rx_heard home_rx)) = frames_sent (tx_log st')"
    by (simp add: comp_def)
  have "rx_heard home_rx = heard_at \<lparr>tv_sec = 7, tv_nsec = 0\<rparr> (wfr_frames 0 (creds_payload short_creds))"
    by (simp add: heard_at_def instant_def)
  then show "within_window (rx_heard home_rx)" by simp
  show "within_ticks of_nat (signal_frames (home_signals tr))"
    by (simp add: home_signals_def within_ticks_def in_window_def list_all_iff tick_near_def WFR_ACK_TIMEOUT_SEC_def)
qed (simp_all add: home_host_def nm_host_def)

lemma four: "(0 :: int) \<le> 4"
  by simp

lemma home_heard:
  assumes "run_state (main_loop home_host 4 home_rx wfr_decode_init) [] = (r, tr')"
  shows "filter (\<lambda>f. frame_magic (fst f)) (map snd (signal_frames (home_signals tr')))
    = drop (length (frames_written [])) (frames_written tr')"
proof -
  obtain st' where "wfr_transmit_credentials (Some short_creds) WfrIrProtocolRC6 (None :: unit progress option)
     \<lparr>tx_log = [], tx_ctx = ()\<rparr> = (True, st')"
    "filter (\<lambda>f. frame_magic (fst f)) (map snd (rx_heard home_rx)) = frames_sent (tx_log st')"
    using home_exchange(1) by blast
  from loop_acknowledges [OF short_creds_wf this(1) home_exchange(2,3) this(2) four home_exchange(4) assms]
  obtain success ip where "frames_written tr' = frames_written [] @ wfr_frames 0 (map byte_of_char (ack_payload success ip))"
    by blast
  then show ?thesis by (simp add: home_signals_def comp_def)
qed

lemma short_creds_norm: "short_creds\<lparr>security := norm_security (security short_creds)\<rparr> = short_creds"
  by (simp add: short_creds_def norm_security_def wfr_const)

lemma home_posts_success:
  assumes "run_state (main_loop home_host 4 home_rx wfr_decode_init) [] = (r, tr')"
  shows "posted (listen of_nat (home_signals tr') start_listening) = [WiFirCustomEventAckSuccess]"
proof -
  obtain st' where st: "wfr_transmit_credentials (Some short_creds) WfrIrProtocolRC6 (None :: unit progress option)
     \<lparr>tx_log = [], tx_ctx = ()\<rparr> = (True, st')"
    "filter (\<lambda>f. frame_magic (fst f)) (map snd (rx_heard home_rx)) = frames_sent (tx_log st')"
    using home_exchange(1) by blast
  obtain current tr1 where 1: "run_state (wfr_net_get_current home_host (WFR_SSID_MAX_LEN + 1)) [] = (current, tr1)"
    using home_host_facts(1) by blast
  obtain tr2 where 2: "run_state (wfr_net_connect home_host (Some short_creds)) tr1 = (True, tr2)"
    using home_host_facts(2) by blast
  obtain found tr3 where 3: "run_state (wfr_net_get_ip home_host [] 32) tr2 = ((found, ''10.0.0.7''), tr3)"
    using home_host_facts(3) by blast
  have p: "wfr_parse_wifi_string (wifi_string short_creds) = Some short_creds"
    using parse_wifi_string [OF short_creds_wf] by (simp add: short_creds_norm)
  have "run_state (handle_credentials home_host 4 (wifi_string short_creds)) [] = ((), tr')"
    by (rule loop_handles_transmission [OF short_creds_wf st(1) home_exchange(2,3) st(2) assms])
  from wp_run [OF handle_credentials_frames [OF four home_exchange(4) p 1 2 3] this]
  have f: "filter (\<lambda>f. frame_magic (fst f)) (map snd (signal_frames (home_signals tr')))
      = wfr_frames 0 (map byte_of_char (reply True ''10.0.0.7''))"
    using home_heard [OF assms] by simp
  have "reply True ''10.0.0.7'' \<noteq> []" "length (reply True ''10.0.0.7'') \<le> 255"
    by (simp_all add: reply_def ack_payload_def wfr_const)
  from listen_one(1) [OF this home_exchange(5) f start_listening_sel(1)]
  show ?thesis using ack_reply(1) [of "''10.0.0.7''" True] by (simp add: nul_free_def)
qed

end
