(* ===== verification/Nfc.thy ===== *)
theory Nfc
  imports Protocol
begin

unbundle bit_operations_syntax

text \<open>
  Reading WiFi credentials from an NFC tag, \<^verbatim>\<open>flipper/wfr_nfc.c\<close>. The tag's pages are a byte list
  and a pointer into them is an index; a read past the end is the outcome \<open>OutOfBounds\<close>. \<^verbatim>\<open>size_t\<close>
  is 32 bits wide on the Flipper, and its sums wrap (\<open>add32\<close>). Every loop and every recursive call
  takes one unit of fuel; \<open>OutOfFuel\<close> for every fuel is a run that never ends.
\<close>

datatype 'a outcome = Ret 'a | OutOfBounds | OutOfFuel

fun andthen :: "'a outcome \<Rightarrow> ('a \<Rightarrow> 'b outcome) \<Rightarrow> 'b outcome" where
  "andthen (Ret x) f = f x"
| "andthen OutOfBounds f = OutOfBounds"
| "andthen OutOfFuel f = OutOfFuel"

definition add32 :: "nat \<Rightarrow> nat \<Rightarrow> nat" where
  "add32 a b = (a + b) mod 4294967296"

definition rd :: "byte list \<Rightarrow> nat \<Rightarrow> byte outcome" where
  "rd mem p = (if p < length mem then Ret (mem ! p) else OutOfBounds)"

definition rd16 :: "byte list \<Rightarrow> nat \<Rightarrow> nat outcome" where
  "rd16 mem p = andthen (rd mem p) (\<lambda>b0. andthen (rd mem (p + 1)) (\<lambda>b1.
     Ret (unat b0 * 256 + unat b1)))"

definition rd32 :: "byte list \<Rightarrow> nat \<Rightarrow> nat outcome" where
  "rd32 mem p = andthen (rd16 mem p) (\<lambda>h. andthen (rd16 mem (p + 2)) (\<lambda>l. Ret (h * 65536 + l)))"

definition rd_bytes :: "byte list \<Rightarrow> nat \<Rightarrow> nat \<Rightarrow> byte list outcome" where
  "rd_bytes mem p n = (if p + n \<le> length mem then Ret (take n (drop p mem)) else OutOfBounds)"

section \<open>WSC attributes\<close>

definition WSC_ATTR_CREDENTIAL :: nat where "WSC_ATTR_CREDENTIAL = 0x100E"
definition WSC_ATTR_SSID :: nat where "WSC_ATTR_SSID = 0x1045"
definition WSC_ATTR_AUTH_TYPE :: nat where "WSC_ATTR_AUTH_TYPE = 0x1003"
definition WSC_ATTR_NET_KEY :: nat where "WSC_ATTR_NET_KEY = 0x1027"
definition WSC_AUTH_OPEN :: nat where "WSC_AUTH_OPEN = 0x0001"
definition WSC_AUTH_SHARED :: nat where "WSC_AUTH_SHARED = 0x0004"
definition NDEF_TLV_NULL :: byte where "NDEF_TLV_NULL = 0x00"
definition NDEF_TLV_NDEF_MSG :: byte where "NDEF_TLV_NDEF_MSG = 0x03"
definition NDEF_TLV_TERMINATOR :: byte where "NDEF_TLV_TERMINATOR = 0xFE"
definition NDEF_TNF_MEDIA_TYPE :: byte where "NDEF_TNF_MEDIA_TYPE = 0x02"
definition NDEF_CC_MAGIC :: byte where "NDEF_CC_MAGIC = 0xE1"
definition wifi_ndef_type :: string where "wifi_ndef_type = ''application/vnd.wfa.wsc''"
definition WIFI_NDEF_TYPE_LEN :: nat where "WIFI_NDEF_TYPE_LEN = 23"

lemmas wsc_consts = WSC_ATTR_CREDENTIAL_def WSC_ATTR_SSID_def WSC_ATTR_AUTH_TYPE_def
  WSC_ATTR_NET_KEY_def WSC_AUTH_OPEN_def WSC_AUTH_SHARED_def

lemmas ndef_consts = NDEF_TLV_NULL_def NDEF_TLV_NDEF_MSG_def NDEF_TLV_TERMINATOR_def
  NDEF_TNF_MEDIA_TYPE_def NDEF_CC_MAGIC_def WIFI_NDEF_TYPE_LEN_def

text \<open>The text that a copied field holds as a C string, with the NUL written after it.\<close>

definition field_text :: "byte list \<Rightarrow> string" where
  "field_text bytes = c_str (map char_of_byte bytes)"

text \<open>
  The state is the credentials and \<^verbatim>\<open>*found_ssid\<close>. \<open>wsc_field\<close> is the switch on the attribute,
  less the container, which is the recursive call.
\<close>

definition wsc_field ::
  "byte list \<Rightarrow> nat \<Rightarrow> nat \<Rightarrow> nat \<Rightarrow> WfrWifiCreds \<times> bool \<Rightarrow> (WfrWifiCreds \<times> bool) outcome" where
  "wsc_field mem val attr_id attr_len st =
     (if attr_id = WSC_ATTR_SSID then
        (if 0 < attr_len \<and> attr_len \<le> WFR_SSID_MAX_LEN
         then andthen (rd_bytes mem val attr_len) (\<lambda>bytes.
                Ret ((fst st)\<lparr>ssid := field_text bytes\<rparr>, True))
         else Ret st)
      else if attr_id = WSC_ATTR_AUTH_TYPE then
        (if attr_len = 2
         then andthen (rd16 mem val) (\<lambda>auth.
                Ret ((fst st)\<lparr>security :=
                  (if auth = WSC_AUTH_OPEN then WFR_SEC_OPEN
                   else if auth = WSC_AUTH_SHARED then WFR_SEC_WEP
                   else WFR_SEC_WPA)\<rparr>, snd st))
         else Ret st)
      else if attr_id = WSC_ATTR_NET_KEY then
        (if 0 < attr_len \<and> attr_len \<le> WFR_PASS_MAX_LEN
         then andthen (rd_bytes mem val attr_len) (\<lambda>bytes.
                Ret ((fst st)\<lparr>password := field_text bytes\<rparr>, snd st))
         else Ret st)
      else Ret st)"

fun parse_wsc_attributes ::
  "nat \<Rightarrow> byte list \<Rightarrow> nat \<Rightarrow> nat \<Rightarrow> nat \<Rightarrow> WfrWifiCreds \<times> bool \<Rightarrow> (WfrWifiCreds \<times> bool) outcome" where
  "parse_wsc_attributes 0 mem data len pos st = OutOfFuel"
| "parse_wsc_attributes (Suc fuel) mem data len pos st =
     (if add32 pos 4 \<le> len then
        andthen (rd16 mem (data + pos)) (\<lambda>attr_id.
        andthen (rd16 mem (data + pos + 2)) (\<lambda>attr_len.
          let pos = add32 pos 4 in
          if add32 pos attr_len > len then Ret st
          else
            andthen
              (if attr_id = WSC_ATTR_CREDENTIAL
               then parse_wsc_attributes fuel mem (data + pos) attr_len 0 st
               else wsc_field mem (data + pos) attr_id attr_len st)
              (\<lambda>st. parse_wsc_attributes fuel mem data len (add32 pos attr_len) st)))
      else Ret st)"

section \<open>NDEF\<close>

definition parse_ndef_record ::
  "nat \<Rightarrow> byte list \<Rightarrow> nat \<Rightarrow> nat \<Rightarrow> WfrWifiCreds \<Rightarrow> (bool \<times> WfrWifiCreds) outcome" where
  "parse_ndef_record fuel mem data len creds =
     (if len < 3 then Ret (False, creds) else
      andthen (rd mem data) (\<lambda>flags.
      let tnf = flags AND 0x07; sr = bit flags 4; il = bit flags 3 in
      if tnf \<noteq> NDEF_TNF_MEDIA_TYPE then Ret (False, creds) else
      andthen (rd mem (data + 1)) (\<lambda>type_len.
      if (if sr then 2 \<ge> len else add32 2 4 > len) then Ret (False, creds) else
      andthen (if sr then andthen (rd mem (data + 2)) (\<lambda>b. Ret (unat b)) else rd32 mem (data + 2)) (\<lambda>payload_len.
      let pos = (if sr then 3 else 6) in
      if il \<and> pos \<ge> len then Ret (False, creds) else
      andthen (if il then andthen (rd mem (data + pos)) (\<lambda>b. Ret (unat b)) else Ret 0) (\<lambda>id_len.
      let pos = (if il then pos + 1 else pos) in
      if add32 pos (unat type_len) > len then Ret (False, creds) else
      if unat type_len \<noteq> WIFI_NDEF_TYPE_LEN then Ret (False, creds) else
      andthen (rd_bytes mem (data + pos) (unat type_len)) (\<lambda>type.
      if type \<noteq> map byte_of_char wifi_ndef_type then Ret (False, creds) else
      let pos = add32 pos (unat type_len); pos = add32 pos id_len in
      if add32 pos payload_len > len then Ret (False, creds) else
      andthen (parse_wsc_attributes fuel mem (data + pos) payload_len 0 (zero_creds, False)) (\<lambda>(creds, found).
      Ret (found, creds))))))))"

fun parse_ndef_message ::
  "nat \<Rightarrow> byte list \<Rightarrow> nat \<Rightarrow> nat \<Rightarrow> nat \<Rightarrow> WfrWifiCreds \<Rightarrow> (bool \<times> WfrWifiCreds) outcome" where
  "parse_ndef_message 0 mem data len pos creds = OutOfFuel"
| "parse_ndef_message (Suc fuel) mem data len pos creds =
     (if pos < len then
        if add32 pos 3 > len then Ret (False, creds) else
        andthen (rd mem (data + pos)) (\<lambda>flags.
        let sr = bit flags 4; il = bit flags 3; me = bit flags 6 in
        andthen (rd mem (data + pos + 1)) (\<lambda>type_len.
        if (if sr then add32 pos 3 > len else add32 pos 6 > len) then Ret (False, creds) else
        andthen (if sr then andthen (rd mem (data + pos + 2)) (\<lambda>b. Ret (unat b)) else rd32 mem (data + pos + 2)) (\<lambda>payload_len.
        let hdr_size = (if sr then 3 else 6) in
        if il \<and> add32 pos hdr_size \<ge> len then Ret (False, creds) else
        andthen (if il then andthen (rd mem (data + pos + hdr_size)) (\<lambda>b. Ret (unat b)) else Ret 0) (\<lambda>id_len.
        let hdr_size = (if il then hdr_size + 1 else hdr_size);
            record_total = add32 (add32 (add32 hdr_size (unat type_len)) id_len) payload_len in
        if add32 pos record_total > len then Ret (False, creds) else
        andthen (parse_ndef_record fuel mem (data + pos) record_total creds) (\<lambda>(found, creds).
        if found then Ret (True, creds)
        else if me then Ret (False, creds)
        else parse_ndef_message fuel mem data len (add32 pos record_total) creds)))))
      else Ret (False, creds))"

text \<open>The TLV loop: \<open>area\<close> is the index of the NDEF area, \<open>area_len\<close> its length.\<close>

fun parse_tlvs ::
  "nat \<Rightarrow> byte list \<Rightarrow> nat \<Rightarrow> nat \<Rightarrow> nat \<Rightarrow> WfrWifiCreds \<Rightarrow> (bool \<times> WfrWifiCreds) outcome" where
  "parse_tlvs 0 mem area area_len pos creds = OutOfFuel"
| "parse_tlvs (Suc fuel) mem area area_len pos creds =
     (if pos < area_len then
        andthen (rd mem (area + pos)) (\<lambda>tlv_type.
        let pos = add32 pos 1 in
        if tlv_type = NDEF_TLV_NULL then parse_tlvs fuel mem area area_len pos creds else
        if tlv_type = NDEF_TLV_TERMINATOR then Ret (False, creds) else
        if pos \<ge> area_len then Ret (False, creds) else
        andthen (rd mem (area + pos)) (\<lambda>l0.
        if l0 = 0xFF \<and> add32 pos 3 > area_len then Ret (False, creds) else
        andthen (if l0 = 0xFF then rd16 mem (area + pos + 1) else Ret (unat l0)) (\<lambda>tlv_len.
        let pos = (if l0 = 0xFF then add32 pos 3 else add32 pos 1) in
        if add32 pos tlv_len > area_len then Ret (False, creds) else
        andthen (if tlv_type = NDEF_TLV_NDEF_MSG
                 then parse_ndef_message fuel mem (area + pos) tlv_len 0 creds
                 else Ret (False, creds)) (\<lambda>(found, creds).
        if found then Ret (True, creds)
        else parse_tlvs fuel mem area area_len (add32 pos tlv_len) creds))))
      else Ret (False, creds))"

definition wfr_nfc_parse_wifi_tag ::
  "nat \<Rightarrow> byte list option \<Rightarrow> nat \<Rightarrow> WfrWifiCreds option \<Rightarrow> (bool \<times> WfrWifiCreds option) outcome" where
  "wfr_nfc_parse_wifi_tag fuel tag_pages pages_read out_creds =
     (case (tag_pages, out_creds) of
        (Some mem, Some creds) \<Rightarrow>
          if pages_read < 5 then Ret (False, out_creds) else
          andthen (rd mem (3 * 4)) (\<lambda>cc.
          if cc \<noteq> NDEF_CC_MAGIC then Ret (False, out_creds) else
          andthen (parse_tlvs fuel mem (4 * 4) ((pages_read - 4) * 4) 0 creds) (\<lambda>(found, creds).
          Ret (found, Some creds)))
      | _ \<Rightarrow> Ret (False, out_creds))"

section \<open>Outcomes\<close>

definition fine :: "'a outcome \<Rightarrow> bool" where
  "fine m \<longleftrightarrow> (\<exists>x. m = Ret x)"

lemma fine_ret [simp]: "fine (Ret x)"
  by (simp add: fine_def)

lemma fine_andthen: "fine m \<Longrightarrow> (\<And>x. m = Ret x \<Longrightarrow> fine (f x)) \<Longrightarrow> fine (andthen m f)"
  by (auto simp: fine_def)

lemma andthen_Ret: "andthen m f = Ret y \<longleftrightarrow> (\<exists>x. m = Ret x \<and> f x = Ret y)"
  by (cases m) auto

lemma fine_rd: "p < length mem \<Longrightarrow> fine (rd mem p)"
  by (simp add: rd_def)

lemma fine_rd16: "p + 1 < length mem \<Longrightarrow> fine (rd16 mem p)"
  by (auto simp: rd16_def intro!: fine_andthen fine_rd)

lemma fine_rd32: "p + 3 < length mem \<Longrightarrow> fine (rd32 mem p)"
  by (auto simp: rd32_def intro!: fine_andthen fine_rd16)

lemma fine_rd_bytes: "p + n \<le> length mem \<Longrightarrow> fine (rd_bytes mem p n)"
  by (simp add: rd_bytes_def)

lemma rd16_bound: "rd16 mem p = Ret v \<Longrightarrow> v \<le> 65535"
proof -
  assume "rd16 mem p = Ret v"
  then have "v = unat (mem ! p) * 256 + unat (mem ! (p + 1))"
    by (auto simp: rd16_def andthen_Ret rd_def split: if_splits)
  then show ?thesis
    using byte_le_255 [of "mem ! p"] byte_le_255 [of "mem ! (p + 1)"] by linarith
qed

lemma add32_small [simp]: "a + b < 4294967296 \<Longrightarrow> add32 a b = a + b"
  by (simp add: add32_def)

section \<open>Credentials fit\<close>

lemma field_text_bound: "length (field_text bs) \<le> length bs" "nul_free (field_text bs)"
  using length_c_str_le [of "map char_of_byte bs"] by (simp_all add: field_text_def)

lemma rd_bytes_length: "rd_bytes mem p n = Ret bs \<Longrightarrow> length bs = n"
  by (auto simp: rd_bytes_def split: if_splits)

lemma wf_updates:
  "wf_creds c \<Longrightarrow> length bs \<le> 32 \<Longrightarrow> wf_creds (c\<lparr>ssid := field_text bs\<rparr>)"
  "wf_creds c \<Longrightarrow> length bs \<le> 63 \<Longrightarrow> wf_creds (c\<lparr>password := field_text bs\<rparr>)"
  "wf_creds c \<Longrightarrow> wf_creds (c\<lparr>security := s\<rparr>)"
  using field_text_bound [of bs] by (simp_all add: wf_creds_def wfr_const)

lemma wf_zero_creds [simp]: "wf_creds zero_creds"
  by (simp add: wf_creds_def zero_creds_def)

lemma wsc_field_wf:
  "wsc_field mem val attr_id attr_len st = Ret st' \<Longrightarrow> wf_creds (fst st) \<Longrightarrow> wf_creds (fst st')"
  by (auto simp: wsc_field_def andthen_Ret WFR_SSID_MAX_LEN_def WFR_PASS_MAX_LEN_def
      dest!: rd_bytes_length intro!: wf_updates split: if_splits)

lemma wsc_wf:
  "parse_wsc_attributes fuel mem data len pos st = Ret st' \<Longrightarrow> wf_creds (fst st) \<Longrightarrow> wf_creds (fst st')"
proof (induction fuel arbitrary: data len pos st st')
  case (Suc fuel)
  from Suc.prems(1) consider "st' = st"
    | attr_len st1 where "parse_wsc_attributes fuel mem (data + add32 pos 4) attr_len 0 st = Ret st1"
        "parse_wsc_attributes fuel mem data len (add32 (add32 pos 4) attr_len) st1 = Ret st'"
    | attr_id attr_len st1 where "wsc_field mem (data + add32 pos 4) attr_id attr_len st = Ret st1"
        "parse_wsc_attributes fuel mem data len (add32 (add32 pos 4) attr_len) st1 = Ret st'"
    by (auto simp: andthen_Ret Let_def split: if_splits)
  then show ?case
    using Suc.IH Suc.prems(2) wsc_field_wf by cases blast+
qed simp

lemma record_wf:
  "parse_ndef_record fuel mem data len creds = Ret (ok, creds') \<Longrightarrow> wf_creds creds \<Longrightarrow> wf_creds creds'"
  unfolding parse_ndef_record_def Let_def
  by (auto simp: andthen_Ret split: if_splits dest!: wsc_wf)

lemma message_wf:
  "parse_ndef_message fuel mem data len pos creds = Ret (ok, creds') \<Longrightarrow> wf_creds creds \<Longrightarrow> wf_creds creds'"
  by (induction fuel arbitrary: pos creds)
    (auto simp: andthen_Ret Let_def split: if_splits dest!: record_wf)

lemma tlvs_wf:
  "parse_tlvs fuel mem area area_len pos creds = Ret (ok, creds') \<Longrightarrow> wf_creds creds \<Longrightarrow> wf_creds creds'"
  by (induction fuel arbitrary: pos creds)
    (auto simp: andthen_Ret Let_def split: if_splits dest!: message_wf)

section \<open>Reads in bounds\<close>

text \<open>No two neighbouring bytes are both FF: then no length field of the tag can make a sum wrap.\<close>

fun no_ff_pair :: "byte list \<Rightarrow> bool" where
  "no_ff_pair (a # b # bs) = (\<not> (a = 0xFF \<and> b = 0xFF) \<and> no_ff_pair (b # bs))"
| "no_ff_pair _ = True"

lemma no_ff_pair_nth:
  "no_ff_pair mem \<Longrightarrow> Suc i < length mem \<Longrightarrow> mem ! i = 0xFF \<Longrightarrow> mem ! Suc i \<noteq> 0xFF"
proof (induction mem arbitrary: i rule: no_ff_pair.induct)
  case (1 a b bs)
  then show ?case by (cases i) auto
qed auto

lemma byte_255: "unat (b :: byte) = 255 \<longleftrightarrow> b = 0xFF"
  by (simp add: word_unat_eq_iff)

lemma rd16_no_ff:
  assumes "rd16 mem p = Ret h" "no_ff_pair mem"
  shows "h \<le> 65534"
proof -
  from assms(1) have h: "h = unat (mem ! p) * 256 + unat (mem ! Suc p)" and len: "Suc p < length mem"
    by (auto simp: rd16_def andthen_Ret rd_def split: if_splits)
  have "unat (mem ! p) \<noteq> 255 \<or> unat (mem ! Suc p) \<noteq> 255"
    using no_ff_pair_nth [OF assms(2) len] by (auto simp: byte_255)
  then show ?thesis
    using h byte_le_255 [of "mem ! p"] byte_le_255 [of "mem ! Suc p"] by linarith
qed

lemma rd32_no_ff:
  assumes "rd32 mem p = Ret v" "no_ff_pair mem"
  shows "v \<le> 4294901759"
proof -
  from assms(1) obtain h l where "rd16 mem p = Ret h" "rd16 mem (p + 2) = Ret l" "v = h * 65536 + l"
    by (auto simp: rd32_def andthen_Ret)
  then show ?thesis
    using rd16_no_ff assms(2) rd16_bound by fastforce
qed

lemma fine_if: "(b \<Longrightarrow> fine x) \<Longrightarrow> (\<not> b \<Longrightarrow> fine y) \<Longrightarrow> fine (if b then x else y)"
  by simp

lemma rd_bound: "rd mem p = Ret b \<Longrightarrow> unat b \<le> 255"
  by simp

lemma wsc_field_fine: "val + attr_len \<le> length mem \<Longrightarrow> fine (wsc_field mem val attr_id attr_len st)"
  unfolding wsc_field_def
  by (intro fine_if fine_ret fine_andthen fine_rd_bytes fine_rd16) auto

lemma wsc_fine:
  assumes "data + len \<le> length mem" "length mem \<le> 65000" "pos \<le> len" "len - pos < fuel"
  shows "fine (parse_wsc_attributes fuel mem data len pos st)"
  using assms
proof (induction fuel arbitrary: data len pos st)
  case (Suc fuel)
  show ?case
  proof (cases "pos + 4 \<le> len")
    case True
    have sums: "add32 pos 4 = pos + 4" "\<And>n. n \<le> 65535 \<Longrightarrow> add32 (pos + 4) n = pos + 4 + n"
      using Suc.prems by auto
    show ?thesis
      unfolding parse_wsc_attributes.simps sums(1) Let_def
      using True Suc.prems
      by (intro fine_if fine_ret fine_andthen fine_rd16 Suc.IH wsc_field_fine)
        (auto simp: sums dest: rd16_bound)
  qed (use Suc.prems in simp)
qed simp

text \<open>The payload length of a record is read in one of two widths; the identifier length may be absent.\<close>

lemma fine_guard: "(\<not> b \<Longrightarrow> fine y) \<Longrightarrow> fine (if b then Ret x else y)"
  by simp

lemma fine_rd_then:
  "p < length mem \<Longrightarrow> (\<And>b. unat b \<le> 255 \<Longrightarrow> fine (f b)) \<Longrightarrow> fine (andthen (rd mem p) f)"
  by (simp add: rd_def)

lemma fine_payload_len:
  assumes "sr \<Longrightarrow> p < length mem" "\<not> sr \<Longrightarrow> p + 3 < length mem" "no_ff_pair mem"
    and "\<And>n. n \<le> 4294901759 \<Longrightarrow> fine (f n)"
  shows "fine (andthen (if sr then andthen (rd mem p) (\<lambda>b. Ret (unat b)) else rd32 mem p) f)"
proof (cases sr)
  case True
  have "unat (mem ! p) \<le> 4294901759" using byte_le_255 [of "mem ! p"] by linarith
  then show ?thesis using True assms by (simp add: rd_def)
next
  case False
  then show ?thesis
    using assms fine_rd32 rd32_no_ff by (auto intro!: fine_andthen)
qed

lemma fine_id_len:
  assumes "il \<Longrightarrow> p < length mem" "\<And>n. n \<le> 255 \<Longrightarrow> fine (f n)"
  shows "fine (andthen (if il then andthen (rd mem p) (\<lambda>b. Ret (unat b)) else Ret 0) f)"
  using assms by (simp add: rd_def)

lemma fine_tlv_len:
  assumes "c \<Longrightarrow> p + 1 < length mem" "\<And>n. n \<le> 65535 \<Longrightarrow> fine (f n)"
  shows "fine (andthen (if c then rd16 mem p else Ret (unat (b :: byte))) f)"
proof (cases c)
  case False
  have "unat b \<le> 65535" using byte_le_255 [of b] by linarith
  then show ?thesis using False assms by simp
qed (use assms fine_rd16 rd16_bound in \<open>auto intro!: fine_andthen\<close>)

lemma fine_bytes_then: "p + n \<le> length mem \<Longrightarrow> (\<And>bs. fine (f bs)) \<Longrightarrow> fine (andthen (rd_bytes mem p n) f)"
  by (simp add: rd_bytes_def)

lemma fine_pair_then: "fine m \<Longrightarrow> (\<And>a b. fine (f a b)) \<Longrightarrow> fine (andthen m (\<lambda>(a, b). f a b))"
  by (auto simp: fine_def)

lemmas fine_steps = fine_guard fine_rd_then fine_payload_len fine_id_len fine_bytes_then fine_pair_then

lemma record_fine:
  assumes len: "data + len \<le> length mem" "length mem \<le> 65000" "len < fuel" and ff: "no_ff_pair mem"
  shows "fine (parse_ndef_record fuel mem data len creds)"
  unfolding parse_ndef_record_def Let_def WIFI_NDEF_TYPE_LEN_def
  apply (intro fine_steps fine_ret ff)
  subgoal using len by simp
  subgoal using len by simp
  subgoal using len by simp
  subgoal using len by simp
  subgoal using len by (simp split: if_splits)
  subgoal using len by (simp split: if_splits)
  subgoal by (rule wsc_fine) (use len in \<open>simp_all split: if_splits\<close>)
  done

lemma record_total_sum:
  assumes "h \<le> 7" "t \<le> 255" "i \<le> 255" "n \<le> 4294901759" "pos \<le> 65000"
  shows "add32 (add32 (add32 h t) i) n = h + t + i + n" "add32 pos (h + t + i + n) = pos + (h + t + i + n)"
  using assms by simp_all

lemma message_fine:
  assumes "data + len \<le> length mem" "length mem \<le> 65000" "pos \<le> len" "len - pos + 1 < fuel"
    and ff: "no_ff_pair mem"
  shows "fine (parse_ndef_message fuel mem data len pos creds)"
  using assms(1-4)
proof (induction fuel arbitrary: pos creds)
  case (Suc fuel)
  note p = Suc.prems(1-4)
  show ?case
    unfolding parse_ndef_message.simps Let_def
    apply (rule fine_if)
     apply (intro fine_steps fine_ret ff fine_if Suc.IH record_fine)
    by (use p in \<open>auto simp: record_total_sum split: if_splits\<close>)
qed simp

lemma tlvs_fine:
  assumes "area + area_len \<le> length mem" "length mem \<le> 65000" "pos \<le> area_len" "area_len - pos + 1 < fuel"
    and ff: "no_ff_pair mem"
  shows "fine (parse_tlvs fuel mem area area_len pos creds)"
  using assms(1-4)
proof (induction fuel arbitrary: pos creds)
  case (Suc fuel)
  note p = Suc.prems(1-4)
  show ?case
    unfolding parse_tlvs.simps Let_def
    apply (rule fine_if)
     apply (rule fine_rd_then)
    subgoal using p by simp
    apply (rule fine_if)
    subgoal by (rule Suc.IH) (use p in simp_all)
    apply (intro fine_guard)
     apply (rule fine_rd_then)
    subgoal using p by simp
    apply (rule fine_guard)
    apply (rule fine_tlv_len)
    subgoal using p by simp
    apply (intro fine_guard fine_pair_then fine_if fine_ret message_fine Suc.IH ff)
    by (use p in \<open>auto split: if_splits\<close>)
qed simp

lemma tag_fine:
  assumes "length mem = 4 * n" "length mem \<le> 65000" "no_ff_pair mem" "length mem \<le> fuel"
  shows "fine (wfr_nfc_parse_wifi_tag fuel (Some mem) n (Some c))"
proof (cases "5 \<le> n \<and> mem ! 12 = NDEF_CC_MAGIC")
  case True
  have "fine (parse_tlvs fuel mem 16 ((n - 4) * 4) 0 c)"
    using True assms by (intro tlvs_fine) auto
  then show ?thesis
    using True assms(1) by (auto simp: wfr_nfc_parse_wifi_tag_def rd_def fine_def)
next
  case False
  then show ?thesis
    using assms(1) by (auto simp: wfr_nfc_parse_wifi_tag_def rd_def)
qed

end
