(* ===== verification/Nfc_Tag.thy ===== *)
theory Nfc_Tag
  imports Nfc
begin

text \<open>
  What \<^verbatim>\<open>flipper/wfr_nfc.c\<close> makes of a tag. The WSC attributes of a record form a tree (\<open>wsc\<close>) with a
  byte encoding and a meaning (\<open>wsc_apply\<close>); the parser computes the meaning from the encoding. The
  second half is about arbitrary tags: on which the parser stays inside the pages and returns, and two
  tags on which it does not.
\<close>

section \<open>Attribute trees\<close>

datatype wsc = Attr nat "byte list" | Credential "wsc list"

definition be16 :: "nat \<Rightarrow> byte list" where
  "be16 n = [of_nat (n div 256), of_nat (n mod 256)]"

fun wsc_encode :: "wsc \<Rightarrow> byte list" where
  "wsc_encode (Attr a v) = be16 a @ be16 (length v) @ v"
| "wsc_encode (Credential ws) =
     be16 WSC_ATTR_CREDENTIAL @ be16 (length (concat (map wsc_encode ws))) @ concat (map wsc_encode ws)"

fun wsc_ok :: "wsc \<Rightarrow> bool" where
  "wsc_ok (Attr a v) = (a < 65536 \<and> a \<noteq> WSC_ATTR_CREDENTIAL \<and> length v < 65536)"
| "wsc_ok (Credential ws) = (length (concat (map wsc_encode ws)) < 65536 \<and> (\<forall>w \<in> set ws. wsc_ok w))"

definition wsc_security :: "byte list \<Rightarrow> byte" where
  "wsc_security v =
     (if v = [0, 1] then WFR_SEC_OPEN else if v = [0, 4] then WFR_SEC_WEP else WFR_SEC_WPA)"

fun wsc_apply :: "wsc \<Rightarrow> WfrWifiCreds \<times> bool \<Rightarrow> WfrWifiCreds \<times> bool" where
  "wsc_apply (Attr a v) (c, found) =
     (if a = WSC_ATTR_SSID \<and> v \<noteq> [] \<and> length v \<le> 32 then (c\<lparr>ssid := field_text v\<rparr>, True)
      else if a = WSC_ATTR_AUTH_TYPE \<and> length v = 2 then (c\<lparr>security := wsc_security v\<rparr>, found)
      else if a = WSC_ATTR_NET_KEY \<and> v \<noteq> [] \<and> length v \<le> 63 then (c\<lparr>password := field_text v\<rparr>, found)
      else (c, found))"
| "wsc_apply (Credential ws) st = fold wsc_apply ws st"

lemma rd_mid: "rd (pre @ b # post) (length pre) = Ret b"
  by (simp add: rd_def)

lemma rd16_be16: "n < 65536 \<Longrightarrow> rd16 (pre @ be16 n @ post) (length pre) = Ret n"
proof -
  assume "n < 65536"
  moreover have "rd (pre @ be16 n @ post) (length pre + 1) = Ret (of_nat (n mod 256))"
    using rd_mid [of "pre @ [of_nat (n div 256)]" "of_nat (n mod 256)" post] by (simp add: be16_def)
  ultimately show ?thesis
    by (simp add: rd16_def be16_def rd_mid unat_byte_of_nat less_mult_imp_div_less)
qed

lemma rd_bytes_mid: "rd_bytes (pre @ v @ post) (length pre) (length v) = Ret v"
  by (simp add: rd_bytes_def)

lemma length_be16 [simp]: "length (be16 n) = 2"
  by (simp add: be16_def)

lemma rd16_two: "rd16 (pre @ [a, b] @ post) (length pre) = Ret (unat a * 256 + unat b)"
  using rd_mid [of "pre @ [a]" b post] by (simp add: rd16_def rd_mid)

lemma wsc_security_value:
  "wsc_security [a, b] =
     (if unat a * 256 + unat b = WSC_AUTH_OPEN then WFR_SEC_OPEN
      else if unat a * 256 + unat b = WSC_AUTH_SHARED then WFR_SEC_WEP else WFR_SEC_WPA)"
proof -
  have eq: "(a = 0 \<and> b = of_nat n) = (unat a * 256 + unat b = n)" if "n < 256" for n
    using byte_lt_256 [of b] that by (auto simp: word_unat_eq_iff unat_byte_of_nat)
  show ?thesis
    using eq [of 1] eq [of 4] by (simp add: wsc_security_def wsc_consts)
qed

lemma wsc_field_attr:
  "wsc_field (pre @ v @ post) (length pre) a (length v) st = Ret (wsc_apply (Attr a v) st)"
proof (cases st)
  case (Pair c found)
  have "length v = 2 \<Longrightarrow> \<exists>x y. v = [x, y]"
    by (auto simp: numeral_2_eq_2 length_Suc_conv)
  then show ?thesis
    using rd_bytes_mid [of pre v post] Pair
    by (auto simp: wsc_field_def wsc_consts WFR_SSID_MAX_LEN_def WFR_PASS_MAX_LEN_def
        wsc_security_value rd16_two [simplified])
qed


lemma wsc_header:
  assumes "a < 65536" "n < 65536" "mem = pre @ be16 a @ be16 n @ rest"
  shows "rd16 mem (length pre) = Ret a" "rd16 mem (length pre + 2) = Ret n"
  using rd16_be16 [OF assms(1), of pre "be16 n @ rest"]
    rd16_be16 [OF assms(2), of "pre @ be16 a" rest] assms(3) by simp_all

lemma WSC_CRED_lt: "WSC_ATTR_CREDENTIAL < 65536"
  by (simp add: wsc_consts)

lemma wsc_refines:
  assumes "mem = pre @ before @ concat (map wsc_encode ws) @ post" "length mem < 4294900000"
    and "list_all wsc_ok ws" "length (concat (map wsc_encode ws)) < fuel"
  shows "parse_wsc_attributes fuel mem (length pre) (length before + length (concat (map wsc_encode ws)))
           (length before) st = Ret (fold wsc_apply ws st)"
  using assms
proof (induction fuel arbitrary: pre before ws post st)
  case (Suc fuel)
  show ?case
  proof (cases ws)
    case Nil
    then show ?thesis using Suc.prems by simp
  next
    case (Cons w ws')
    define a body where "a = (case w of Attr a v \<Rightarrow> a | Credential sub \<Rightarrow> WSC_ATTR_CREDENTIAL)"
      and "body = (case w of Attr a v \<Rightarrow> v | Credential sub \<Rightarrow> concat (map wsc_encode sub))"
    have enc: "wsc_encode w = be16 a @ be16 (length body) @ body"
      by (cases w) (simp_all add: a_def body_def)
    have small: "a < 65536" "length body < 65536"
      using Suc.prems(3) Cons by (cases w; simp add: a_def body_def WSC_CRED_lt)+
    define rest where "rest = concat (map wsc_encode ws')"
    have mem: "mem = (pre @ before) @ be16 a @ be16 (length body) @ body @ rest @ post"
      using Suc.prems(1) Cons enc by (simp add: rest_def)
    note hdr = wsc_header [OF small mem]
    have len: "length (concat (map wsc_encode ws)) = 4 + length body + length rest"
      using Cons enc by (simp add: rest_def)
    have bound: "length before + 4 + 65536 < 4294967296"
      using Suc.prems(2) mem by simp
    have head: "(if a = WSC_ATTR_CREDENTIAL
        then parse_wsc_attributes fuel mem (length pre + (length before + 4)) (length body) 0 st
        else wsc_field mem (length pre + (length before + 4)) a (length body) st) = Ret (wsc_apply w st)"
    proof (cases w)
      case (Attr a' v)
      then have "a \<noteq> WSC_ATTR_CREDENTIAL"
        using Suc.prems(3) Cons by (simp add: a_def)
      then show ?thesis
        using wsc_field_attr [of "(pre @ before) @ be16 a @ be16 (length body)" v "rest @ post" a st]
          Attr mem by (simp add: a_def body_def add.assoc)
    next
      case (Credential sub)
      then show ?thesis
        using Suc.IH [of "pre @ before @ be16 a @ be16 (length body)" "[]" sub "rest @ post" st]
          Suc.prems Cons mem len
        by (simp add: a_def body_def list_all_iff add.assoc)
    qed
    have tail: "parse_wsc_attributes fuel mem (length pre)
        (length before + (4 + length body + length rest)) (length before + 4 + length body) st'
        = Ret (fold wsc_apply ws' st')" for st'
      using Suc.IH [of pre "before @ be16 a @ be16 (length body) @ body" ws' post st']
        Suc.prems Cons mem len by (simp add: rest_def add.assoc del: add_2_eq_Suc add_2_eq_Suc')
    show ?thesis
      using hdr head tail [of "wsc_apply w st"] bound small Cons
      unfolding parse_wsc_attributes.simps len
      by (simp add: Let_def add.assoc)
  qed
qed simp


section \<open>A tag with one WiFi record\<close>

text \<open>
  A tag whose first TLV is an NDEF message that starts with a WiFi record. The record's flags say whether its
  payload length has one byte or four and whether it has an identifier; the TLV's length is one byte, or FF
  and two more.
\<close>

record tag_format =
  rec_flags :: byte
  rec_id :: "byte list"
  long_tlv :: bool

abbreviation short_record :: "tag_format \<Rightarrow> bool" where
  "short_record F \<equiv> bit (rec_flags F) 4"

abbreviation has_id :: "tag_format \<Rightarrow> bool" where
  "has_id F \<equiv> bit (rec_flags F) 3"

definition be32 :: "nat \<Rightarrow> byte list" where
  "be32 n = be16 (n div 65536) @ be16 (n mod 65536)"

definition wsc_bytes :: "wsc list \<Rightarrow> byte list" where
  "wsc_bytes ws = concat (map wsc_encode ws)"

definition record_head :: "tag_format \<Rightarrow> wsc list \<Rightarrow> byte list" where
  "record_head F ws = [rec_flags F, 23]
     @ (if short_record F then [of_nat (length (wsc_bytes ws))] else be32 (length (wsc_bytes ws)))
     @ (if has_id F then [of_nat (length (rec_id F))] else [])"

definition wifi_record :: "tag_format \<Rightarrow> wsc list \<Rightarrow> byte list" where
  "wifi_record F ws = record_head F ws @ map byte_of_char wifi_ndef_type
     @ (if has_id F then rec_id F else []) @ wsc_bytes ws"

definition tlv_head :: "tag_format \<Rightarrow> wsc list \<Rightarrow> byte list" where
  "tlv_head F ws = NDEF_TLV_NDEF_MSG # (if long_tlv F then 0xFF # be16 (length (wifi_record F ws))
     else [of_nat (length (wifi_record F ws))])"

definition wifi_tag :: "byte list \<Rightarrow> tag_format \<Rightarrow> wsc list \<Rightarrow> byte list \<Rightarrow> byte list" where
  "wifi_tag head F ws rest = (head @ tlv_head F ws) @ wifi_record F ws @ rest"

text \<open>The record is of the media type kind, and its lengths fit their fields.\<close>

definition record_ok :: "tag_format \<Rightarrow> wsc list \<Rightarrow> bool" where
  "record_ok F ws \<longleftrightarrow> rec_flags F AND 0x07 = NDEF_TNF_MEDIA_TYPE
     \<and> (short_record F \<longrightarrow> length (wsc_bytes ws) \<le> 255) \<and> (has_id F \<longrightarrow> length (rec_id F) \<le> 255)
     \<and> length (wifi_record F ws) \<le> (if long_tlv F then 65535 else 254)"

definition id_len :: "tag_format \<Rightarrow> nat" where
  "id_len F = (if has_id F then length (rec_id F) else 0)"

definition head_len :: "tag_format \<Rightarrow> nat" where
  "head_len F = (if short_record F then 3 else 6) + (if has_id F then 1 else 0)"

lemma length_wifi_ndef_type: "length wifi_ndef_type = 23"
  by (simp add: wifi_ndef_type_def)

lemma length_record_head: "length (record_head F ws) = head_len F"
  by (simp add: record_head_def head_len_def be32_def)

lemma length_wifi_record: "length (wifi_record F ws) = head_len F + 23 + id_len F + length (wsc_bytes ws)"
  by (simp add: wifi_record_def length_record_head id_len_def length_wifi_ndef_type)

lemma length_tlv_head: "length (tlv_head F ws) = (if long_tlv F then 4 else 2)"
  by (simp add: tlv_head_def)

lemma rd32_be32: "n < 4294967296 \<Longrightarrow> rd32 (pre @ be32 n @ post) (length pre) = Ret n"
proof -
  assume n: "n < 4294967296"
  have "rd16 (pre @ be32 n @ post) (length pre) = Ret (n div 65536)"
    using rd16_be16 [of "n div 65536" pre "be16 (n mod 65536) @ post"] n
    by (simp add: be32_def less_mult_imp_div_less)
  moreover have "rd16 (pre @ be32 n @ post) (length pre + 2) = Ret (n mod 65536)"
    using rd16_be16 [of "n mod 65536" "pre @ be16 (n div 65536)" post] by (simp add: be32_def)
  ultimately show ?thesis by (simp add: rd32_def)
qed

lemma record_reads:
  assumes "mem = A @ wifi_record F ws @ rest" and "record_ok F ws" and "d = length A"
  shows "rd mem d = Ret (rec_flags F)" "rd mem (Suc d) = Ret 23"
    "short_record F \<Longrightarrow> rd mem (Suc (Suc d)) = Ret (of_nat (length (wsc_bytes ws)))"
    "\<not> short_record F \<Longrightarrow> rd32 mem (Suc (Suc d)) = Ret (length (wsc_bytes ws))"
    "has_id F \<Longrightarrow> rd mem (d + (if short_record F then 3 else 6)) = Ret (of_nat (length (rec_id F)))"
    "rd_bytes mem (d + head_len F) 23 = Ret (map byte_of_char wifi_ndef_type)"
proof -
  define n where "n = length (wsc_bytes ws)"
  have n: "n < 4294967296"
    using assms(2) by (auto simp: n_def record_ok_def length_wifi_record split: if_splits)
  define C where "C = map byte_of_char wifi_ndef_type @ (if has_id F then rec_id F else []) @ wsc_bytes ws @ rest"
  have mem: "mem = A @ [rec_flags F, 23] @ (if short_record F then [of_nat n] else be32 n)
      @ (if has_id F then [of_nat (length (rec_id F))] else []) @ C"
    using assms(1) by (simp add: wifi_record_def record_head_def C_def n_def)
  show "rd mem d = Ret (rec_flags F)" "rd mem (Suc d) = Ret 23"
    unfolding mem using rd_mid [of A] rd_mid [of "A @ [rec_flags F]"] assms(3) by simp_all
  show "rd mem (Suc (Suc d)) = Ret (of_nat (length (wsc_bytes ws)))" if "short_record F"
    unfolding mem using rd_mid [of "A @ [rec_flags F, 23]"] assms(3) that by (simp add: n_def)
  show "rd32 mem (Suc (Suc d)) = Ret (length (wsc_bytes ws))" if "\<not> short_record F"
    unfolding mem using rd32_be32 [OF n, of "A @ [rec_flags F, 23]"] assms(3) that by (simp add: n_def)
  show "rd mem (d + (if short_record F then 3 else 6)) = Ret (of_nat (length (rec_id F)))" if "has_id F"
  proof (cases "short_record F")
    case True
    then show ?thesis
      unfolding mem using rd_mid [of "A @ [rec_flags F, 23, of_nat n]" _ C] assms(3) that
      by (simp add: numeral_3_eq_3)
  next
    case False
    then show ?thesis
      unfolding mem using rd_mid [of "A @ [rec_flags F, 23] @ be32 n" _ C] assms(3) that
      by (simp add: be32_def)
  qed
  show "rd_bytes mem (d + head_len F) 23 = Ret (map byte_of_char wifi_ndef_type)"
    using rd_bytes_mid [of "A @ record_head F ws" "map byte_of_char wifi_ndef_type"] assms(1,3)
    by (simp add: wifi_record_def length_record_head length_wifi_ndef_type)
qed

text \<open>The two lengths of a record, as the parser's two loops read them.\<close>

lemma record_lengths:
  assumes "mem = A @ wifi_record F ws @ rest" and "record_ok F ws" and "d = length A"
  shows "(if short_record F then andthen (rd mem (d + 2)) (\<lambda>b. Ret (unat b)) else rd32 mem (d + 2))
      = Ret (length (wsc_bytes ws))"
    and "(if has_id F then andthen (rd mem (d + (if short_record F then 3 else 6))) (\<lambda>b. Ret (unat b)) else Ret 0)
      = Ret (id_len F)"
proof -
  note r = record_reads [OF assms]
  show "(if short_record F then andthen (rd mem (d + 2)) (\<lambda>b. Ret (unat b)) else rd32 mem (d + 2))
      = Ret (length (wsc_bytes ws))"
    using r(3,4) assms(2) by (auto simp: record_ok_def unat_byte_of_nat)
  show "(if has_id F then andthen (rd mem (d + (if short_record F then 3 else 6))) (\<lambda>b. Ret (unat b)) else Ret 0)
      = Ret (id_len F)"
  proof (cases "has_id F")
    case True
    then have "unat (of_nat (length (rec_id F)) :: byte) = length (rec_id F)"
      using assms(2) by (simp add: record_ok_def unat_byte_of_nat)
    then show ?thesis
      by (simp only: True r(5) [OF True] if_True andthen.simps id_len_def)
  qed (simp add: id_len_def)
qed

lemma wifi_payload:
  assumes "mem = A @ wifi_record F ws @ rest" and "record_ok F ws" and "list_all wsc_ok ws"
    and "length mem < 4294900000" and "length (wsc_bytes ws) < fuel"
  shows "parse_wsc_attributes fuel mem (length A + (head_len F + 23 + id_len F)) (length (wsc_bytes ws)) 0 st
    = Ret (fold wsc_apply ws st)"
proof -
  define pre where "pre = A @ record_head F ws @ map byte_of_char wifi_ndef_type @ (if has_id F then rec_id F else [])"
  have "length pre = length A + (head_len F + 23 + id_len F)"
    by (simp add: pre_def length_record_head length_wifi_ndef_type id_len_def)
  moreover have mem: "mem = pre @ [] @ concat (map wsc_encode ws) @ rest"
    using assms(1) by (simp add: pre_def wifi_record_def wsc_bytes_def)
  ultimately show ?thesis
    using wsc_refines [OF mem assms(4,3), of fuel st] assms(5) by (simp add: wsc_bytes_def)
qed

lemma wifi_record_parse:
  assumes "mem = A @ wifi_record F ws @ rest" and "record_ok F ws" and "list_all wsc_ok ws"
    and "length mem < 4294900000" and "length (wsc_bytes ws) < fuel"
  shows "parse_ndef_record fuel mem (length A) (length (wifi_record F ws)) c =
    (case fold wsc_apply ws (zero_creds, False) of (c', found) \<Rightarrow> Ret (found, c'))"
proof -
  note r = record_reads [OF assms(1,2) refl]
  note l = record_lengths [OF assms(1,2) refl]
  note p = wifi_payload [OF assms, of "(zero_creds, False)"]
  have tnf: "rec_flags F AND 7 = NDEF_TNF_MEDIA_TYPE" and small: "length (wifi_record F ws) \<le> 65535"
    using assms(2) by (auto simp: record_ok_def split: if_splits)
  have h: "(if has_id F then (if short_record F then 3 else 6) + 1 else (if short_record F then 3 else 6)) = head_len F"
    by (simp add: head_len_def)
  have len: "head_len F + 23 + id_len F + length (wsc_bytes ws) \<le> 65535"
    using small by (simp add: length_wifi_record)
  have g: "\<not> length (wifi_record F ws) < 3"
    "\<not> (if short_record F then 2 \<ge> length (wifi_record F ws) else add32 2 4 > length (wifi_record F ws))"
    "\<not> (has_id F \<and> (if short_record F then 3 else 6) \<ge> length (wifi_record F ws))"
    by (auto simp: length_wifi_record head_len_def)
  have t: "WIFI_NDEF_TYPE_LEN = 23" "unat (23 :: byte) = 23"
    by (simp_all add: WIFI_NDEF_TYPE_LEN_def)
  have a: "add32 (head_len F) 23 = head_len F + 23" "add32 (head_len F + 23) (id_len F) = head_len F + 23 + id_len F"
    "add32 (head_len F + 23 + id_len F) (length (wsc_bytes ws)) = length (wifi_record F ws)"
    "\<not> head_len F + 23 > length (wifi_record F ws)"
    using len by (simp_all add: length_wifi_record)
  show ?thesis
    unfolding parse_ndef_record_def Let_def
    by (simp only: g r(1) r(2) [unfolded Suc_eq_plus1] l h tnf t a r(6) p andthen.simps if_False not_not simp_thms less_irrefl)
qed

lemma wifi_message_parse:
  assumes "mem = A @ wifi_record F ws @ rest" and "record_ok F ws" and "list_all wsc_ok ws"
    and "length mem < 4294900000" and "length (wsc_bytes ws) < fuel"
    and "fold wsc_apply ws (zero_creds, False) = (c', True)"
  shows "parse_ndef_message (Suc fuel) mem (length A) (length (wifi_record F ws)) 0 c = Ret (True, c')"
proof -
  note r = record_reads [OF assms(1,2) refl]
  note l = record_lengths [OF assms(1,2) refl]
  have small: "length (wifi_record F ws) \<le> 65535"
    using assms(2) by (auto simp: record_ok_def split: if_splits)
  have len: "head_len F + 23 + id_len F + length (wsc_bytes ws) \<le> 65535"
    using small by (simp add: length_wifi_record)
  have g: "0 < length (wifi_record F ws)" "\<not> add32 0 3 > length (wifi_record F ws)"
    "\<not> (if short_record F then False else add32 0 6 > length (wifi_record F ws))"
    "\<not> (has_id F \<and> add32 0 (if short_record F then 3 else 6) \<ge> length (wifi_record F ws))"
    by (auto simp: length_wifi_record head_len_def)
  have h: "(if has_id F then (if short_record F then 3 else 6) + 1 else (if short_record F then 3 else 6)) = head_len F"
    by (simp add: head_len_def)
  have total: "add32 (add32 (add32 (head_len F) (unat (23 :: byte))) (id_len F)) (length (wsc_bytes ws)) = length (wifi_record F ws)"
    "add32 0 (length (wifi_record F ws)) = length (wifi_record F ws)"
    using len small by (simp_all add: length_wifi_record)
  show ?thesis
    unfolding parse_ndef_message.simps Let_def add_0_right
    by (simp only: g r(1) r(2) [unfolded Suc_eq_plus1] l h total less_irrefl wifi_record_parse [OF assms(1-5)] assms(6)
        prod.case andthen.simps if_True if_False simp_thms)
qed

lemma wifi_tag_parse:
  assumes "length head = 16" "head ! 12 = 0xE1" "record_ok F ws" "list_all wsc_ok ws"
    and "length rest < 100000" "4 * n = length (wifi_tag head F ws rest)" "length (wsc_bytes ws) < fuel"
    and "fold wsc_apply ws (zero_creds, False) = (c', True)"
  shows "wfr_nfc_parse_wifi_tag (Suc (Suc fuel)) (Some (wifi_tag head F ws rest)) n (Some c) = Ret (True, Some c')"
proof -
  define L where "L = length (wifi_record F ws)"
  define mem where "mem = wifi_tag head F ws rest"
  define A where "A = head @ tlv_head F ws"
  have mem_A: "mem = A @ wifi_record F ws @ rest"
    by (simp add: mem_def A_def wifi_tag_def)
  have L: "L \<le> 65535" "\<not> long_tlv F \<Longrightarrow> L \<le> 254"
    using assms(3) by (auto simp: L_def record_ok_def split: if_splits)
  have lenA: "length A = 16 + (if long_tlv F then 4 else 2)"
    using assms(1) by (simp add: A_def length_tlv_head)
  have lmem: "length mem = length A + L + length rest"
    by (simp add: mem_A L_def)
  then have small: "length mem < 4294900000"
    using assms(5) L lenA by (simp split: if_splits)
  have message: "parse_ndef_message (Suc fuel) mem (length A) L 0 c = Ret (True, c')"
    unfolding L_def by (rule wifi_message_parse [OF mem_A assms(3,4) small assms(7,8)])
  have area: "(n - 4) * 4 = length mem - 16" "5 \<le> n"
    using assms(6) lmem lenA by (auto simp: mem_def [symmetric] split: if_splits)
  have cc: "rd mem 12 = Ret 0xE1"
    using assms(1,2) by (simp add: rd_def mem_def wifi_tag_def nth_append)
  have t: "rd mem 16 = Ret NDEF_TLV_NDEF_MSG"
    using rd_mid [of head NDEF_TLV_NDEF_MSG] assms(1) by (simp add: mem_def wifi_tag_def tlv_head_def)
  have "parse_tlvs (Suc (Suc fuel)) mem 16 (length mem - 16) 0 c = Ret (True, c')"
  proof (cases "long_tlv F")
    case True
    have l0: "rd mem 17 = Ret 0xFF"
      using rd_mid [of "head @ [NDEF_TLV_NDEF_MSG]" "0xFF"] assms(1) True
      by (simp add: mem_def wifi_tag_def tlv_head_def)
    have len: "rd16 mem 18 = Ret L"
      using rd16_be16 [of L "head @ [NDEF_TLV_NDEF_MSG, 0xFF]"] assms(1) True L
      by (simp add: mem_def wifi_tag_def tlv_head_def L_def)
    have A: "length A = 20" using lenA True by simp
    show ?thesis
      using t l0 len message small lmem L unfolding A
      by (subst parse_tlvs.simps) (simp add: ndef_consts Let_def del: parse_ndef_message.simps)
  next
    case False
    have l0: "rd mem 17 = Ret (of_nat L)"
      using rd_mid [of "head @ [NDEF_TLV_NDEF_MSG]" "of_nat L"] assms(1) False
      by (simp add: mem_def wifi_tag_def tlv_head_def L_def)
    have u: "unat (of_nat L :: byte) = L"
      using L(2) [OF False] by (intro unat_byte_of_nat) simp
    then have not_ff: "of_nat L \<noteq> (0xFF :: byte)"
      using L(2) [OF False] byte_255 [of "of_nat L"] by linarith
    have A: "length A = 18" using lenA False by simp
    show ?thesis
      using t l0 u not_ff message small lmem L unfolding A
      by (subst parse_tlvs.simps) (simp add: ndef_consts Let_def del: parse_ndef_message.simps)
  qed
  then show ?thesis
    using cc area by (simp add: wfr_nfc_parse_wifi_tag_def ndef_consts mem_def del: parse_tlvs.simps)
qed

section \<open>Two malformed tags\<close>

definition tag_header :: "byte list" where
  "tag_header = [0, 0, 0, 0, 0, 0, 0, 0, 0, 0, 0, 0, 0xE1, 0x10, 0x12, 0]"

definition hang_tag :: "byte list" where
  "hang_tag = tag_header @ [0x03, 0x06, 0x02, 0x00, 0xFF, 0xFF, 0xFF, 0xFA, 0xFE, 0, 0, 0]"

lemma hang_message: "parse_ndef_message n hang_tag 18 6 0 c = OutOfFuel"
proof (induction n arbitrary: c)
  case (Suc n)
  have "rd hang_tag 18 = Ret 2" "rd hang_tag 19 = Ret 0" "rd32 hang_tag 20 = Ret 4294967290"
    by (simp_all add: hang_tag_def tag_header_def rd_def rd16_def rd32_def)
  moreover have "parse_ndef_record n hang_tag 18 0 c = Ret (False, c)"
    by (simp add: parse_ndef_record_def)
  ultimately show ?case
    using Suc by (simp add: add32_def)
qed simp

definition past_tag :: "byte list" where
  "past_tag = tag_header @ [0x03, 0x1E, 0x0A, 0x17, 0xFF, 0xFF, 0xFF, 0x01, 0xFF] @
     map byte_of_char wifi_ndef_type"

lemma past_reads:
  "rd past_tag 12 = Ret 0xE1" "rd past_tag 16 = Ret 3" "rd past_tag 17 = Ret 30" "rd past_tag 18 = Ret 0x0A"
  "rd past_tag 19 = Ret 23" "rd32 past_tag 20 = Ret 4294967041" "rd past_tag 24 = Ret 0xFF"
  by (simp_all add: past_tag_def tag_header_def rd_def rd16_def rd32_def)

lemma past_type: "rd_bytes past_tag 25 23 = Ret (map byte_of_char wifi_ndef_type)"
  by (simp add: past_tag_def tag_header_def rd_bytes_def wifi_ndef_type_def)

lemma past_payload: "parse_wsc_attributes (Suc n) past_tag 303 4294967041 0 st = OutOfBounds"
  by (simp add: rd16_def rd_def past_tag_def tag_header_def wifi_ndef_type_def)

lemma past_record: "parse_ndef_record (Suc n) past_tag 18 30 c = OutOfBounds"
  unfolding parse_ndef_record_def
  by (simp add: past_reads past_type past_payload ndef_consts Let_def add32_def del: parse_wsc_attributes.simps)

lemma past_message: "parse_ndef_message (Suc (Suc n)) past_tag 18 30 0 c = OutOfBounds"
  by (simp add: past_reads past_record Let_def add32_def)

section \<open>The properties of tag reading\<close>

definition sample_wsc :: "wsc list" where
  "sample_wsc = [Credential [Attr WSC_ATTR_SSID [0x6E, 0x65, 0x74], Attr WSC_ATTR_AUTH_TYPE [0, 0x20],
     Attr WSC_ATTR_NET_KEY [0x70, 0x77]]]"

definition sample_result :: WfrWifiCreds where
  "sample_result = zero_creds\<lparr>ssid := ''net'', password := ''pw'', security := WFR_SEC_WPA\<rparr>"

lemma sample_wsc_facts:
  "length (wsc_bytes sample_wsc) = 23" "list_all wsc_ok sample_wsc"
  "fold wsc_apply sample_wsc (zero_creds, False) = (sample_result, True)"
  by (simp_all add: sample_wsc_def sample_result_def wsc_bytes_def wsc_consts wsc_security_def field_text_def
      c_str_def char_of_byte_def char_of_def bit_0)

text \<open>The usual format, and one with all long fields and an identifier.\<close>

definition short_format :: tag_format where
  "short_format = \<lparr>rec_flags = 0xD2, rec_id = [], long_tlv = False\<rparr>"

definition long_format :: tag_format where
  "long_format = \<lparr>rec_flags = 0xCA, rec_id = [0x77], long_tlv = True\<rparr>"

lemma format_facts:
  "record_ok short_format sample_wsc" "record_ok long_format sample_wsc"
  "length (wifi_tag tag_header short_format sample_wsc rest) = 67 + length rest"
  "length (wifi_tag tag_header long_format sample_wsc rest) = 74 + length rest"
  by (simp_all add: record_ok_def length_wifi_record sample_wsc_facts short_format_def long_format_def head_len_def
      id_len_def ndef_consts wifi_tag_def length_tlv_head tag_header_def)

text \<open>
  C15: a tag that carries WiFi credentials is read correctly. When page 3 has the NDEF magic and the
  tag's first TLV is an NDEF message whose first record is a WiFi record, in each of the formats the parser
  knows (TLV length of one byte or of three, payload length of one byte or of four, with an identifier or
  without), and the record's payload is the encoding of a list of attribute trees that name an SSID, the
  parser finds credentials, and they are those the attributes mean, taken in order through all nested
  containers, whatever follows the record on the tag.
\<close>

theorem nfc_reads_wifi_tag:
  assumes "length head = 16" "head ! 12 = 0xE1" "record_ok F ws" "list_all wsc_ok ws"
    and "length rest < 100000" "4 * n = length (wifi_tag head F ws rest)" "length (wsc_bytes ws) < fuel"
    and "fold wsc_apply ws (zero_creds, False) = (c', True)"
  shows "wfr_nfc_parse_wifi_tag (fuel + 2) (Some (wifi_tag head F ws rest)) n (Some c) = Ret (True, Some c')"
  using wifi_tag_parse [OF assms, of c] by simp

theorem nfc_reads_wifi_tag_witness:
  "wfr_nfc_parse_wifi_tag (50 + 2) (Some (wifi_tag tag_header short_format sample_wsc [0xFE])) 17 (Some zero_creds)
     = Ret (True, Some sample_result)
   \<and> wfr_nfc_parse_wifi_tag (50 + 2) (Some (wifi_tag tag_header long_format sample_wsc [0xFE, 0])) 19 (Some zero_creds)
     = Ret (True, Some sample_result)"
proof -
  have h: "length tag_header = 16" "tag_header ! 12 = 0xE1"
    by (simp_all add: tag_header_def)
  show ?thesis
    by (intro conjI; rule nfc_reads_wifi_tag [OF h])
      (simp_all add: sample_wsc_facts format_facts)
qed

text \<open>
  C17: reading a tag is memory safe and ends. On any pages in which no two neighbouring bytes are both
  FF, with at least as much fuel as the tag has bytes, the parser reads no byte outside the pages it
  was given and returns, and the credentials it leaves behind fit their arrays.
\<close>

theorem nfc_parse_safe:
  assumes "length mem = 4 * n" "length mem \<le> 65000" "no_ff_pair mem" "length mem \<le> fuel" "wf_creds c"
  shows "\<exists>found c'. wfr_nfc_parse_wifi_tag fuel (Some mem) n (Some c) = Ret (found, Some c') \<and> wf_creds c'"
proof -
  obtain r where r: "wfr_nfc_parse_wifi_tag fuel (Some mem) n (Some c) = Ret r"
    using tag_fine [OF assms(1-4), of c] by (auto simp: fine_def)
  obtain found c' where "r = (found, Some c')"
    using r by (auto simp: wfr_nfc_parse_wifi_tag_def andthen_Ret split: if_splits)
  with r assms(5) tlvs_wf show ?thesis
    by (auto simp: wfr_nfc_parse_wifi_tag_def andthen_Ret split: if_splits prod.splits)
qed

theorem nfc_parse_safe_witness:
  "\<exists>found c'. wfr_nfc_parse_wifi_tag 100 (Some (wifi_tag tag_header short_format sample_wsc [0xFE])) 17 (Some zero_creds)
     = Ret (found, Some c') \<and> wf_creds c'"
proof (rule nfc_parse_safe)
  have "wsc_bytes sample_wsc = [0x10, 0x0E, 0, 19, 0x10, 0x45, 0, 3, 0x6E, 0x65, 0x74, 0x10, 0x03, 0, 2, 0,
      0x20, 0x10, 0x27, 0, 2, 0x70, 0x77]"
    by (simp add: wsc_bytes_def sample_wsc_def wsc_consts be16_def)
  then show "no_ff_pair (wifi_tag tag_header short_format sample_wsc [0xFE])"
    by (simp add: wifi_tag_def wifi_record_def record_head_def tlv_head_def short_format_def tag_header_def wifi_ndef_type_def ndef_consts byte_of_char_def of_char_def)
qed (simp_all add: sample_wsc_facts format_facts)

text \<open>
  C29: a tag can hang the reader. On the 12 bytes of \<open>hang_tag\<close>'s data area, a record whose 32-bit
  payload length makes the record's total size wrap to 0, the loop over the message's records never
  advances: no fuel is enough for a result.
\<close>

theorem nfc_hangs: "wfr_nfc_parse_wifi_tag fuel (Some hang_tag) 7 (Some c) = OutOfFuel"
proof -
  have reads: "rd hang_tag 12 = Ret 0xE1" "rd hang_tag 16 = Ret 3" "rd hang_tag 17 = Ret 6"
    by (simp_all add: hang_tag_def tag_header_def rd_def)
  show ?thesis
    by (cases fuel)
      (simp_all add: wfr_nfc_parse_wifi_tag_def reads hang_message ndef_consts Let_def
        del: parse_ndef_message.simps)
qed

text \<open>
  C30: a tag can make the reader leave the pages. On \<open>past_tag\<close>, a record with an identifier length of
  255 and a payload length of almost 2^32, the check of the payload against the record wraps, and the
  attribute parser reads 255 bytes past the end of the 48 bytes that were read from the tag.
\<close>

theorem nfc_reads_past_tag:
  "length past_tag = 48 \<and> wfr_nfc_parse_wifi_tag (fuel + 3) (Some past_tag) 12 (Some c) = OutOfBounds"
proof -
  have "wfr_nfc_parse_wifi_tag (Suc (Suc (Suc fuel))) (Some past_tag) 12 (Some c) = OutOfBounds"
    by (simp add: wfr_nfc_parse_wifi_tag_def past_reads past_message Let_def ndef_consts
        del: parse_ndef_message.simps)
  then show ?thesis
    by (simp add: numeral_3_eq_3 past_tag_def tag_header_def wifi_ndef_type_def)
qed

end
