(* ===== verification/Storage.thy ===== *)
theory Storage
  imports Protocol "HOL-Library.State_Monad" "HOL-Library.Char_ord"
begin

text \<open>
  Saved credentials and settings on the SD card, \<^verbatim>\<open>flipper/wfr_storage.c\<close>. The firmware's storage
  and its FlipperFormat library are a record of operations on a world \<open>'w\<close>, a parameter of every
  definition; what they are relied on to do is the hypothesis \<open>flipper_format_laws\<close>. Storage
  operations are state monads over \<open>'w\<close>.
\<close>

datatype ff_value = FfString string | FfUint u32

type_synonym ff_file = "(string \<times> u32) option \<times> (string \<times> ff_value) list"

text \<open>
  \<open>dir_open\<close>: the entries that \<^verbatim>\<open>storage_dir_read\<close> goes on to return, each with its directory flag,
  or \<open>None\<close>. A read returns \<open>None\<close> for the C function's false.
\<close>

record 'w flipper_storage =
  simply_mkdir :: "string \<Rightarrow> ('w, unit) state"
  simply_remove :: "string \<Rightarrow> ('w, bool) state"
  ff_open_always :: "string \<Rightarrow> ('w, bool) state"
  ff_open_existing :: "string \<Rightarrow> ('w, bool) state"
  ff_write_header :: "string \<Rightarrow> u32 \<Rightarrow> ('w, bool) state"
  ff_write_string :: "string \<Rightarrow> string \<Rightarrow> ('w, bool) state"
  ff_write_uint32 :: "string \<Rightarrow> u32 \<Rightarrow> ('w, bool) state"
  ff_read_header :: "('w, (string \<times> u32) option) state"
  ff_read_string :: "string \<Rightarrow> ('w, string option) state"
  ff_read_uint32 :: "string \<Rightarrow> ('w, u32 option) state"
  ff_free :: "('w, unit) state"
  dir_open :: "string \<Rightarrow> ('w, (bool \<times> string) list option) state"
  dir_close :: "('w, unit) state"

definition WFR_SAVE_DIR :: string where "WFR_SAVE_DIR = ''/ext/apps_data/infrafi''"
definition WFR_SETTINGS_FILE :: string where "WFR_SETTINGS_FILE = ''/ext/apps_data/infrafi/settings.cfg''"
definition WFR_SAVE_EXT :: string where "WFR_SAVE_EXT = ''.wfir''"
definition WFR_SAVED_MAX :: nat where "WFR_SAVED_MAX = 20"
definition WFR_FILENAME_MAX :: nat where "WFR_FILENAME_MAX = 64"
definition WFR_FILE_TYPE :: string where "WFR_FILE_TYPE = ''InfraFi Credentials''"
definition WFR_FILE_VERSION :: u32 where "WFR_FILE_VERSION = 1"
definition WFR_SETTINGS_TYPE :: string where "WFR_SETTINGS_TYPE = ''InfraFi Settings''"
definition WFR_SETTINGS_VERSION :: u32 where "WFR_SETTINGS_VERSION = 1"

section \<open>File names\<close>

definition filename_char :: "char \<Rightarrow> bool" where
  "filename_char c \<longleftrightarrow>
     CHR ''A'' \<le> c \<and> c \<le> CHR ''Z'' \<or> CHR ''a'' \<le> c \<and> c \<le> CHR ''z'' \<or> CHR ''0'' \<le> c \<and> c \<le> CHR ''9''
     \<or> c = CHR ''-'' \<or> c = CHR ''_''"

fun sanitize_loop :: "string \<Rightarrow> nat \<Rightarrow> string \<Rightarrow> string" where
  "sanitize_loop [] dst_size dst = dst"
| "sanitize_loop (c # src) dst_size dst =
     (if length dst + 1 < dst_size
      then sanitize_loop src dst_size (dst @ [if filename_char c then c else CHR ''_''])
      else dst)"

definition sanitize_for_filename :: "string \<Rightarrow> nat \<Rightarrow> string" where
  "sanitize_for_filename src dst_size =
     (let dst = sanitize_loop src dst_size []
      in if dst = [] \<and> dst_size > 1 then ''_'' else dst)"

definition save_path :: "string \<Rightarrow> string" where
  "save_path s = str_trunc 127 (WFR_SAVE_DIR @ ''/'' @ sanitize_for_filename s 48 @ WFR_SAVE_EXT)"

section \<open>Credentials\<close>

definition write_creds :: "'w flipper_storage \<Rightarrow> string \<Rightarrow> WfrWifiCreds \<Rightarrow> ('w, bool) state" where
  "write_creds env path c = do {
     ok \<leftarrow> ff_open_always env path;
     (if \<not> ok then State_Monad.return False else do {
     ok \<leftarrow> ff_write_header env WFR_FILE_TYPE WFR_FILE_VERSION;
     (if \<not> ok then State_Monad.return False else do {
     ok \<leftarrow> ff_write_string env ''SSID'' (ssid c);
     (if \<not> ok then State_Monad.return False else do {
     ok \<leftarrow> ff_write_uint32 env ''Security'' (ucast (security c));
     (if \<not> ok then State_Monad.return False else do {
     ok \<leftarrow> ff_write_string env ''Password'' (password c);
     (if \<not> ok then State_Monad.return False else
     ff_write_uint32 env ''Hidden'' (if hidden c then 1 else 0))})})})})
   }"

definition wfr_storage_save :: "'w flipper_storage \<Rightarrow> WfrWifiCreds option \<Rightarrow> ('w, bool) state" where
  "wfr_storage_save env creds =
     (case creds of
        None \<Rightarrow> State_Monad.return False
      | Some c \<Rightarrow>
          if ssid c = [] then State_Monad.return False
          else do {
            simply_mkdir env WFR_SAVE_DIR;
            ok \<leftarrow> write_creds env (save_path (ssid c)) c;
            ff_free env;
            State_Monad.return ok
          })"

text \<open>The reads in order; the credentials keep what was read before the first failure.\<close>

definition read_creds :: "'w flipper_storage \<Rightarrow> string \<Rightarrow> WfrWifiCreds \<Rightarrow> ('w, bool \<times> WfrWifiCreds) state" where
  "read_creds env path creds = do {
     ok \<leftarrow> ff_open_existing env path;
     (if \<not> ok then State_Monad.return (False, creds) else do {
     header \<leftarrow> ff_read_header env;
     (case header of None \<Rightarrow> State_Monad.return (False, creds) | Some (tmp, version) \<Rightarrow>
     if c_str tmp \<noteq> WFR_FILE_TYPE then State_Monad.return (False, creds)
     else if version \<noteq> WFR_FILE_VERSION then State_Monad.return (False, creds) else do {
     tmp \<leftarrow> ff_read_string env ''SSID'';
     (case tmp of None \<Rightarrow> State_Monad.return (False, creds) | Some s \<Rightarrow> do {
     let creds = creds\<lparr>ssid := str_trunc WFR_SSID_MAX_LEN (c_str s)\<rparr>;
     sec \<leftarrow> ff_read_uint32 env ''Security'';
     (case sec of None \<Rightarrow> State_Monad.return (False, creds) | Some n \<Rightarrow> do {
     let creds = creds\<lparr>security := ucast n\<rparr>;
     tmp \<leftarrow> ff_read_string env ''Password'';
     (case tmp of None \<Rightarrow> State_Monad.return (False, creds) | Some p \<Rightarrow> do {
     let creds = creds\<lparr>password := str_trunc WFR_PASS_MAX_LEN (c_str p)\<rparr>;
     hid \<leftarrow> ff_read_uint32 env ''Hidden'';
     State_Monad.return (True, (case hid of None \<Rightarrow> creds | Some h \<Rightarrow> creds\<lparr>hidden := (h \<noteq> 0)\<rparr>))})})})})})
   }"

definition wfr_storage_load :: "'w flipper_storage \<Rightarrow> string option \<Rightarrow> WfrWifiCreds \<Rightarrow> ('w, bool \<times> WfrWifiCreds) state" where
  "wfr_storage_load env path creds =
     (case path of
        None \<Rightarrow> State_Monad.return (False, creds)
      | Some p \<Rightarrow> do {
          r \<leftarrow> read_creds env p zero_creds;
          ff_free env;
          State_Monad.return r
        })"

section \<open>Listing and deleting\<close>

text \<open>One entry of the arrays \<^verbatim>\<open>ssids\<close>, \<^verbatim>\<open>filenames\<close> and \<^verbatim>\<open>securities\<close>.\<close>

record saved_network =
  saved_ssid :: string
  saved_file :: string
  saved_security :: byte

definition has_save_ext :: "string \<Rightarrow> bool" where
  "has_save_ext name \<longleftrightarrow> length WFR_SAVE_EXT < length name
     \<and> drop (length name - length WFR_SAVE_EXT) name = WFR_SAVE_EXT"

definition saved_file_path :: "string \<Rightarrow> string" where
  "saved_file_path name = str_trunc 255 (WFR_SAVE_DIR @ ''/'' @ name)"

fun storage_list_loop ::
  "'w flipper_storage \<Rightarrow> nat \<Rightarrow> (bool \<times> string) list \<Rightarrow> saved_network list \<Rightarrow> ('w, saved_network list) state" where
  "storage_list_loop env max_count [] found = State_Monad.return found"
| "storage_list_loop env max_count ((is_dir, name) # dir) found =
     (if \<not> length found < max_count then State_Monad.return found
      else if is_dir then storage_list_loop env max_count dir found
      else if \<not> has_save_ext name then storage_list_loop env max_count dir found
      else do {
        r \<leftarrow> wfr_storage_load env (Some (saved_file_path name)) zero_creds;
        (case r of
           (True, c) \<Rightarrow> storage_list_loop env max_count dir
             (found @ [\<lparr>saved_ssid = str_trunc WFR_SSID_MAX_LEN (ssid c),
                        saved_file = str_trunc (WFR_FILENAME_MAX - 1) name,
                        saved_security = security c\<rparr>])
         | (False, c) \<Rightarrow> storage_list_loop env max_count dir found)
      })"

definition wfr_storage_list :: "'w flipper_storage \<Rightarrow> nat \<Rightarrow> ('w, saved_network list) state" where
  "wfr_storage_list env max_count = do {
     dir \<leftarrow> dir_open env WFR_SAVE_DIR;
     (case dir of
        None \<Rightarrow> State_Monad.return []
      | Some entries \<Rightarrow> do {
          found \<leftarrow> storage_list_loop env max_count entries [];
          dir_close env;
          State_Monad.return found
        })
   }"

definition wfr_storage_delete :: "'w flipper_storage \<Rightarrow> string \<Rightarrow> ('w, bool) state" where
  "wfr_storage_delete env filename = simply_remove env (saved_file_path filename)"

section \<open>Settings\<close>

definition protocol_of_uint :: "u32 \<Rightarrow> WfrIrProtocol" where
  "protocol_of_uint n = (if n = 1 then WfrIrProtocolNEC else WfrIrProtocolRC6)"

definition uint_of_protocol :: "WfrIrProtocol \<Rightarrow> u32" where
  "uint_of_protocol p = (case p of WfrIrProtocolRC6 \<Rightarrow> 0 | WfrIrProtocolNEC \<Rightarrow> 1)"

definition read_settings ::
  "'w flipper_storage \<Rightarrow> bool \<Rightarrow> WfrIrProtocol \<Rightarrow> ('w, bool \<times> bool \<times> WfrIrProtocol) state" where
  "read_settings env ack_enabled ir_protocol = do {
     ok \<leftarrow> ff_open_existing env WFR_SETTINGS_FILE;
     (if \<not> ok then State_Monad.return (False, ack_enabled, ir_protocol) else do {
     header \<leftarrow> ff_read_header env;
     (case header of None \<Rightarrow> State_Monad.return (False, ack_enabled, ir_protocol) | Some (tmp, version) \<Rightarrow>
     if c_str tmp \<noteq> WFR_SETTINGS_TYPE then State_Monad.return (False, ack_enabled, ir_protocol)
     else if version \<noteq> WFR_SETTINGS_VERSION then State_Monad.return (False, ack_enabled, ir_protocol) else do {
     ack \<leftarrow> ff_read_uint32 env ''WaitForACK'';
     proto \<leftarrow> ff_read_uint32 env ''IrProtocol'';
     State_Monad.return (True,
       (case ack of None \<Rightarrow> ack_enabled | Some n \<Rightarrow> n \<noteq> 0),
       (case proto of None \<Rightarrow> ir_protocol | Some n \<Rightarrow> protocol_of_uint n))})})
   }"

definition wfr_storage_load_settings ::
  "'w flipper_storage \<Rightarrow> bool \<Rightarrow> WfrIrProtocol \<Rightarrow> ('w, bool \<times> bool \<times> WfrIrProtocol) state" where
  "wfr_storage_load_settings env ack_enabled ir_protocol = do {
     r \<leftarrow> read_settings env ack_enabled ir_protocol;
     ff_free env;
     State_Monad.return r
   }"

definition write_settings :: "'w flipper_storage \<Rightarrow> bool \<Rightarrow> WfrIrProtocol \<Rightarrow> ('w, bool) state" where
  "write_settings env ack_enabled ir_protocol = do {
     ok \<leftarrow> ff_open_always env WFR_SETTINGS_FILE;
     (if \<not> ok then State_Monad.return False else do {
     ok \<leftarrow> ff_write_header env WFR_SETTINGS_TYPE WFR_SETTINGS_VERSION;
     (if \<not> ok then State_Monad.return False else do {
     ok \<leftarrow> ff_write_uint32 env ''WaitForACK'' (if ack_enabled then 1 else 0);
     (if \<not> ok then State_Monad.return False else
     ff_write_uint32 env ''IrProtocol'' (uint_of_protocol ir_protocol))})})
   }"

definition wfr_storage_save_settings :: "'w flipper_storage \<Rightarrow> bool \<Rightarrow> WfrIrProtocol \<Rightarrow> ('w, bool) state" where
  "wfr_storage_save_settings env ack_enabled ir_protocol = do {
     simply_mkdir env WFR_SAVE_DIR;
     ok \<leftarrow> write_settings env ack_enabled ir_protocol;
     ff_free env;
     State_Monad.return ok
   }"

section \<open>File names stay in the directory\<close>

lemma length_sanitize_loop: "length dst + 1 \<le> n \<Longrightarrow> length (sanitize_loop src n dst) + 1 \<le> n"
  by (induction src n dst rule: sanitize_loop.induct) auto

lemma filename_underscore [simp]: "filename_char CHR ''_''"
  by (simp add: filename_char_def)

lemma filename_char_replaced: "filename_char (if filename_char c then c else CHR ''_'')"
  by (cases "filename_char c") (simp_all only: if_True if_False filename_underscore)

lemma sanitize_loop_chars:
  "\<forall>c \<in> set dst. filename_char c \<Longrightarrow> \<forall>c \<in> set (sanitize_loop src n dst). filename_char c"
proof (induction src n dst rule: sanitize_loop.induct)
  case (2 c src n dst)
  then show ?case
    by (cases "Suc (length dst) < n") (simp_all add: filename_char_replaced split del: if_split)
qed simp

lemma sanitize_chars: "c \<in> set (sanitize_for_filename s n) \<Longrightarrow> filename_char c"
  using sanitize_loop_chars [of "[]" s n]
  by (auto simp: sanitize_for_filename_def Let_def split: if_splits)

lemma sanitize_length:
  "1 < n \<Longrightarrow> sanitize_for_filename s n \<noteq> []"
  "1 < n \<Longrightarrow> length (sanitize_for_filename s n) < n"
  using length_sanitize_loop [of "[]" n s] by (auto simp: sanitize_for_filename_def Let_def)

lemma save_path_eq: "save_path s = WFR_SAVE_DIR @ ''/'' @ sanitize_for_filename s 48 @ WFR_SAVE_EXT"
  unfolding save_path_def using sanitize_length(2) [of 48 s]
  by (intro str_trunc_short) (simp add: WFR_SAVE_DIR_def WFR_SAVE_EXT_def)

lemma not_filename_char: "\<not> filename_char CHR ''/''" "\<not> filename_char CHR ''.''"
  by (simp_all add: filename_char_def)

text \<open>
  A network's name cannot choose where its credentials are written. Whatever bytes the SSID holds,
  the file is in the application's own directory, its name is not empty and consists of letters,
  digits, hyphens and underscores before the extension, so it holds neither a slash nor a dot, and the
  path buffer does not cut it short.
\<close>

theorem save_path_contained:
  "\<exists>name. save_path s = WFR_SAVE_DIR @ ''/'' @ name @ WFR_SAVE_EXT
     \<and> name \<noteq> [] \<and> length name \<le> 47 \<and> CHR ''/'' \<notin> set name \<and> CHR ''.'' \<notin> set name"
proof (intro exI conjI)
  show "save_path s = WFR_SAVE_DIR @ ''/'' @ sanitize_for_filename s 48 @ WFR_SAVE_EXT"
    by (rule save_path_eq)
  show "CHR ''/'' \<notin> set (sanitize_for_filename s 48)" "CHR ''.'' \<notin> set (sanitize_for_filename s 48)"
    using sanitize_chars not_filename_char by blast+
qed (use sanitize_length [of 48 s] in auto)

section \<open>What the firmware's file format is relied on for\<close>

definition one_line :: "string \<Rightarrow> bool" where
  "one_line s \<longleftrightarrow> CHR 0x0A \<notin> set s \<and> CHR 0x0D \<notin> set s"

text \<open>
  The documented behaviour of FlipperFormat as the code uses it: a file opened for writing is empty;
  each successful write adds its line; freeing the object leaves the file stored; an existing file is
  read from its start; a read of the key that stands next returns its value. \<open>writing\<close> is the file
  that is being written, \<open>stored\<close> what the card holds, \<open>reading\<close> what is left to read.
\<close>

definition write_laws ::
  "'w flipper_storage \<Rightarrow> ('w \<Rightarrow> (string \<times> ff_file) option) \<Rightarrow> ('w \<Rightarrow> string \<Rightarrow> ff_file option) \<Rightarrow> bool" where
  "write_laws env writing stored \<longleftrightarrow>
     (\<forall>p w w'. run_state (ff_open_always env p) w = (True, w') \<longrightarrow> writing w' = Some (p, None, [])) \<and>
     (\<forall>t v p w w'. run_state (ff_write_header env t v) w = (True, w') \<and> writing w = Some (p, None, [])
        \<longrightarrow> writing w' = Some (p, Some (t, v), [])) \<and>
     (\<forall>k s p h fs w w'. run_state (ff_write_string env k s) w = (True, w') \<and> one_line s
        \<and> writing w = Some (p, h, fs) \<longrightarrow> writing w' = Some (p, h, fs @ [(k, FfString s)])) \<and>
     (\<forall>k n p h fs w w'. run_state (ff_write_uint32 env k n) w = (True, w') \<and> writing w = Some (p, h, fs)
        \<longrightarrow> writing w' = Some (p, h, fs @ [(k, FfUint n)])) \<and>
     (\<forall>p f w w' u. run_state (ff_free env) w = (u, w') \<and> writing w = Some (p, f) \<longrightarrow> stored w' p = Some f)"

definition read_laws ::
  "'w flipper_storage \<Rightarrow> ('w \<Rightarrow> ff_file) \<Rightarrow> ('w \<Rightarrow> string \<Rightarrow> ff_file option) \<Rightarrow> bool" where
  "read_laws env reading stored \<longleftrightarrow>
     (\<forall>p f w. stored w p = Some f \<longrightarrow>
        (\<exists>w'. run_state (ff_open_existing env p) w = (True, w') \<and> reading w' = f)) \<and>
     (\<forall>h fs w. reading w = (Some h, fs) \<longrightarrow>
        (\<exists>w'. run_state (ff_read_header env) w = (Some h, w') \<and> reading w' = (Some h, fs))) \<and>
     (\<forall>h k s fs w. reading w = (h, (k, FfString s) # fs) \<longrightarrow>
        (\<exists>w'. run_state (ff_read_string env k) w = (Some s, w') \<and> reading w' = (h, fs))) \<and>
     (\<forall>h k n fs w. reading w = (h, (k, FfUint n) # fs) \<longrightarrow>
        (\<exists>w'. run_state (ff_read_uint32 env k) w = (Some n, w') \<and> reading w' = (h, fs)))"

definition flipper_format_laws ::
  "'w flipper_storage \<Rightarrow> ('w \<Rightarrow> (string \<times> ff_file) option) \<Rightarrow> ('w \<Rightarrow> ff_file)
    \<Rightarrow> ('w \<Rightarrow> string \<Rightarrow> ff_file option) \<Rightarrow> bool" where
  "flipper_format_laws env writing reading stored \<longleftrightarrow>
     write_laws env writing stored \<and> read_laws env reading stored"

lemma run_bind:
  "run_state (State_Monad.bind m f) w = (case run_state m w of (a, w') \<Rightarrow> run_state (f a) w')"
  by (simp add: State_Monad.bind_def split: prod.splits)

lemma run_return [simp]: "run_state (State_Monad.return x) w = (x, w)"
  by (simp add: State_Monad.return_def)

text \<open>The file that holds credentials.\<close>

definition creds_file :: "WfrWifiCreds \<Rightarrow> ff_file" where
  "creds_file c = (Some (WFR_FILE_TYPE, WFR_FILE_VERSION),
     [(''SSID'', FfString (ssid c)), (''Security'', FfUint (ucast (security c))),
      (''Password'', FfString (password c)), (''Hidden'', FfUint (if hidden c then 1 else 0))])"

lemma write_lawsD:
  assumes "write_laws env writing stored"
  shows "run_state (ff_open_always env p) w = (True, w') \<Longrightarrow> writing w' = Some (p, None, [])"
    and "run_state (ff_write_header env t v) w = (True, w') \<Longrightarrow> writing w = Some (p, None, [])
      \<Longrightarrow> writing w' = Some (p, Some (t, v), [])"
    and "run_state (ff_write_string env k s) w = (True, w') \<Longrightarrow> one_line s \<Longrightarrow> writing w = Some (p, h, fs)
      \<Longrightarrow> writing w' = Some (p, h, fs @ [(k, FfString s)])"
    and "run_state (ff_write_uint32 env k n) w = (True, w') \<Longrightarrow> writing w = Some (p, h, fs)
      \<Longrightarrow> writing w' = Some (p, h, fs @ [(k, FfUint n)])"
    and "run_state (ff_free env) w = (u, w') \<Longrightarrow> writing w = Some (p, f) \<Longrightarrow> stored w' p = Some f"
proof -
  note a = assms [unfolded write_laws_def]
  show "run_state (ff_open_always env p) w = (True, w') \<Longrightarrow> writing w' = Some (p, None, [])"
    using a [THEN conjunct1] by simp
  show "run_state (ff_write_header env t v) w = (True, w') \<Longrightarrow> writing w = Some (p, None, [])
      \<Longrightarrow> writing w' = Some (p, Some (t, v), [])"
    using a [THEN conjunct2, THEN conjunct1] by simp
  show "run_state (ff_write_string env k s) w = (True, w') \<Longrightarrow> one_line s \<Longrightarrow> writing w = Some (p, h, fs)
      \<Longrightarrow> writing w' = Some (p, h, fs @ [(k, FfString s)])"
    using a [THEN conjunct2, THEN conjunct2, THEN conjunct1] by simp
  show "run_state (ff_write_uint32 env k n) w = (True, w') \<Longrightarrow> writing w = Some (p, h, fs)
      \<Longrightarrow> writing w' = Some (p, h, fs @ [(k, FfUint n)])"
    using a [THEN conjunct2, THEN conjunct2, THEN conjunct2, THEN conjunct1] by simp
  show "run_state (ff_free env) w = (u, w') \<Longrightarrow> writing w = Some (p, f) \<Longrightarrow> stored w' p = Some f"
    using a [THEN conjunct2, THEN conjunct2, THEN conjunct2, THEN conjunct2] by blast
qed

lemma read_lawsD:
  assumes "read_laws env reading stored"
  shows "stored w p = Some f \<Longrightarrow> \<exists>w'. run_state (ff_open_existing env p) w = (True, w') \<and> reading w' = f"
    and "reading w = (Some hdr, fs) \<Longrightarrow>
      \<exists>w'. run_state (ff_read_header env) w = (Some hdr, w') \<and> reading w' = (Some hdr, fs)"
    and "reading w = (h, (k, FfString s) # fs) \<Longrightarrow>
      \<exists>w'. run_state (ff_read_string env k) w = (Some s, w') \<and> reading w' = (h, fs)"
    and "reading w = (h, (k, FfUint n) # fs) \<Longrightarrow>
      \<exists>w'. run_state (ff_read_uint32 env k) w = (Some n, w') \<and> reading w' = (h, fs)"
  using assms unfolding read_laws_def by blast+

lemma write_creds_file:
  assumes laws: "write_laws env writing stored" and lines: "one_line (ssid c)" "one_line (password c)"
    and run: "run_state (write_creds env p c) w = (True, w')"
  shows "writing w' = Some (p, creds_file c)"
proof -
  obtain w1 w2 w3 w4 w5 where
    "run_state (ff_open_always env p) w = (True, w1)"
    "run_state (ff_write_header env WFR_FILE_TYPE WFR_FILE_VERSION) w1 = (True, w2)"
    "run_state (ff_write_string env ''SSID'' (ssid c)) w2 = (True, w3)"
    "run_state (ff_write_uint32 env ''Security'' (ucast (security c))) w3 = (True, w4)"
    "run_state (ff_write_string env ''Password'' (password c)) w4 = (True, w5)"
    "run_state (ff_write_uint32 env ''Hidden'' (if hidden c then 1 else 0)) w5 = (True, w')"
    using run by (auto simp: write_creds_def run_bind split: prod.splits if_splits)
  note steps = this
  note w = write_lawsD [OF laws]
  from w(2) [OF steps(2) w(1) [OF steps(1)]]
  show ?thesis
    using w(4) [OF steps(6) w(3) [OF steps(5) lines(2) w(4) [OF steps(4) w(3) [OF steps(3) lines(1)]]]]
    by (simp add: creds_file_def)
qed

lemma read_creds_file:
  assumes laws: "read_laws env reading stored" and wf: "wf_creds c"
    and st: "stored w p = Some (creds_file c)"
  shows "\<exists>w'. run_state (read_creds env p zero_creds) w = ((True, c), w')"
proof -
  note r = read_lawsD [OF laws]
  obtain w1 where 1: "run_state (ff_open_existing env p) w = (True, w1)" "reading w1 = creds_file c"
    using r(1) [OF st] by blast
  obtain w2 where 2: "run_state (ff_read_header env) w1 = (Some (WFR_FILE_TYPE, WFR_FILE_VERSION), w2)"
    "reading w2 = creds_file c"
    using r(2) [OF 1(2) [unfolded creds_file_def]] unfolding creds_file_def by blast
  obtain w3 where 3: "run_state (ff_read_string env ''SSID'') w2 = (Some (ssid c), w3)"
    "reading w3 = (Some (WFR_FILE_TYPE, WFR_FILE_VERSION), [(''Security'', FfUint (ucast (security c))),
      (''Password'', FfString (password c)), (''Hidden'', FfUint (if hidden c then 1 else 0))])"
    using r(3) [OF 2(2) [unfolded creds_file_def]] by blast
  obtain w4 where 4: "run_state (ff_read_uint32 env ''Security'') w3 = (Some (ucast (security c)), w4)"
    "reading w4 = (Some (WFR_FILE_TYPE, WFR_FILE_VERSION),
      [(''Password'', FfString (password c)), (''Hidden'', FfUint (if hidden c then 1 else 0))])"
    using r(4) [OF 3(2)] by blast
  obtain w5 where 5: "run_state (ff_read_string env ''Password'') w4 = (Some (password c), w5)"
    "reading w5 = (Some (WFR_FILE_TYPE, WFR_FILE_VERSION), [(''Hidden'', FfUint (if hidden c then 1 else 0))])"
    using r(3) [OF 4(2)] by blast
  obtain w6 where 6: "run_state (ff_read_uint32 env ''Hidden'') w5 = (Some (if hidden c then 1 else 0), w6)"
    using r(4) [OF 5(2)] by blast
  have type: "c_str WFR_FILE_TYPE = WFR_FILE_TYPE"
    by (simp add: WFR_FILE_TYPE_def)
  have fits: "str_trunc WFR_SSID_MAX_LEN (c_str (ssid c)) = ssid c"
    "str_trunc WFR_PASS_MAX_LEN (c_str (password c)) = password c"
    using wf by (simp_all add: wf_creds_def)
  have sec: "ucast (ucast (security c) :: u32) = security c"
    by (auto intro!: bit_word_eqI simp: bit_ucast_iff)
  show ?thesis
    by (cases c) (use 1(1) 2(1) 3(1) 4(1) 5(1) 6 type fits sec in
      \<open>auto simp: read_creds_def run_bind Let_def zero_creds_def\<close>)
qed

section \<open>Saving and loading\<close>

lemma save_stores:
  assumes laws: "write_laws env writing stored" and lines: "one_line (ssid c)" "one_line (password c)"
    and run: "run_state (wfr_storage_save env (Some c)) w = (True, w')"
  shows "stored w' (save_path (ssid c)) = Some (creds_file c)"
proof -
  obtain w1 w2 where "run_state (write_creds env (save_path (ssid c)) c) w1 = (True, w2)"
    "run_state (ff_free env) w2 = ((), w')"
    using run by (auto simp: wfr_storage_save_def run_bind split: prod.splits if_splits)
  then show ?thesis
    using write_creds_file [OF laws lines] write_lawsD(5) [OF laws] by blast
qed

lemma load_stored:
  assumes "read_laws env reading stored" "wf_creds c" "stored w p = Some (creds_file c)"
  shows "\<exists>w'. run_state (wfr_storage_load env (Some p) c0) w = ((True, c), w')"
  using read_creds_file [OF assms] by (auto simp: wfr_storage_load_def run_bind split: prod.splits)

text \<open>A card in memory, to show that the laws can hold.\<close>

record card =
  card_files :: "string \<Rightarrow> ff_file option"
  card_writing :: "(string \<times> ff_file) option"
  card_reading :: ff_file

definition card_write :: "(ff_file \<Rightarrow> ff_file) \<Rightarrow> (card, bool) state" where
  "card_write f = State (\<lambda>w. case card_writing w of
     None \<Rightarrow> (False, w) | Some (p, file) \<Rightarrow> (True, w\<lparr>card_writing := Some (p, f file)\<rparr>))"

definition card_read :: "(ff_value \<Rightarrow> 'a option) \<Rightarrow> string \<Rightarrow> (card, 'a option) state" where
  "card_read get k = State (\<lambda>w. case card_reading w of
     (h, (k', v) # fs) \<Rightarrow> if k' = k then (get v, w\<lparr>card_reading := (h, fs)\<rparr>) else (None, w)
   | _ \<Rightarrow> (None, w))"

definition mem_storage :: "card flipper_storage" where
  "mem_storage = \<lparr>
     simply_mkdir = (\<lambda>d. State_Monad.return ()),
     simply_remove = (\<lambda>p. State (\<lambda>w. (True, w\<lparr>card_files := (card_files w)(p := None)\<rparr>))),
     ff_open_always = (\<lambda>p. State (\<lambda>w. (True, w\<lparr>card_writing := Some (p, None, [])\<rparr>))),
     ff_open_existing = (\<lambda>p. State (\<lambda>w. case card_files w p of
        None \<Rightarrow> (False, w) | Some f \<Rightarrow> (True, w\<lparr>card_reading := f\<rparr>))),
     ff_write_header = (\<lambda>t v. card_write (\<lambda>(h, fs). (Some (t, v), fs))),
     ff_write_string = (\<lambda>k s. card_write (\<lambda>(h, fs). (h, fs @ [(k, FfString s)]))),
     ff_write_uint32 = (\<lambda>k n. card_write (\<lambda>(h, fs). (h, fs @ [(k, FfUint n)]))),
     ff_read_header = State (\<lambda>w. (fst (card_reading w), w)),
     ff_read_string = card_read (\<lambda>v. case v of FfString s \<Rightarrow> Some s | FfUint n \<Rightarrow> None),
     ff_read_uint32 = card_read (\<lambda>v. case v of FfString s \<Rightarrow> None | FfUint n \<Rightarrow> Some n),
     ff_free = State (\<lambda>w. ((), case card_writing w of
        None \<Rightarrow> w
      | Some (p, f) \<Rightarrow> w\<lparr>card_files := (card_files w)(p \<mapsto> f), card_writing := None\<rparr>)),
     dir_open = (\<lambda>d. State_Monad.return None),
     dir_close = State_Monad.return ()\<rparr>"

definition empty_card :: card where
  "empty_card = \<lparr>card_files = (\<lambda>p. None), card_writing = None, card_reading = (None, [])\<rparr>"

lemma mem_write_laws: "write_laws mem_storage card_writing card_files"
  by (auto simp: write_laws_def mem_storage_def card_write_def)

lemma mem_read_laws: "read_laws mem_storage card_reading card_files"
  by (auto simp: read_laws_def mem_storage_def card_read_def)

definition home_creds :: WfrWifiCreds where
  "home_creds = \<lparr>ssid = ''my home'', password = ''secret'', security = WFR_SEC_WPA, hidden = True\<rparr>"

text \<open>
  C36: credentials that were saved are loaded unchanged. On a card that keeps FlipperFormat's laws, when
  the save of credentials whose strings are single lines reports success, loading the path it wrote to
  succeeds and gives the same SSID, password, security type and hidden flag.
\<close>

theorem storage_roundtrip:
  assumes "write_laws env writing stored" "read_laws env reading stored" "wf_creds c"
    and "one_line (ssid c)" "one_line (password c)"
    and "run_state (wfr_storage_save env (Some c)) w = (True, w')"
  shows "\<exists>w''. run_state (wfr_storage_load env (Some (save_path (ssid c))) c0) w' = ((True, c), w'')"
  using save_stores [OF assms(1,4,5,6)] load_stored [OF assms(2,3)] by blast

theorem storage_roundtrip_witness:
  "\<exists>w''. run_state (wfr_storage_load mem_storage (Some (save_path (ssid home_creds))) zero_creds)
     (snd (run_state (wfr_storage_save mem_storage (Some home_creds)) empty_card)) = ((True, home_creds), w'')"
proof (rule storage_roundtrip [OF mem_write_laws mem_read_laws])
  show "run_state (wfr_storage_save mem_storage (Some home_creds)) empty_card =
    (True, snd (run_state (wfr_storage_save mem_storage (Some home_creds)) empty_card))"
    by (simp add: wfr_storage_save_def write_creds_def run_bind home_creds_def mem_storage_def empty_card_def
        card_write_def)
qed (simp_all add: home_creds_def wf_creds_def wfr_const one_line_def)

section \<open>Settings\<close>

lemma protocol_of_uint_of [simp]: "protocol_of_uint (uint_of_protocol p) = p"
  by (cases p) (simp_all add: protocol_of_uint_def uint_of_protocol_def)

definition settings_file :: "bool \<Rightarrow> WfrIrProtocol \<Rightarrow> ff_file" where
  "settings_file ack proto = (Some (WFR_SETTINGS_TYPE, WFR_SETTINGS_VERSION),
     [(''WaitForACK'', FfUint (if ack then 1 else 0)), (''IrProtocol'', FfUint (uint_of_protocol proto))])"

lemma settings_roundtrip:
  assumes laws: "write_laws env writing stored" "read_laws env reading stored"
    and run: "run_state (wfr_storage_save_settings env ack proto) w = (True, w')"
  shows "\<exists>w''. run_state (wfr_storage_load_settings env ack0 proto0) w' = ((True, ack, proto), w'')"
proof -
  obtain w1 w2 w3 w4 w5 where s:
    "run_state (ff_open_always env WFR_SETTINGS_FILE) w1 = (True, w2)"
    "run_state (ff_write_header env WFR_SETTINGS_TYPE WFR_SETTINGS_VERSION) w2 = (True, w3)"
    "run_state (ff_write_uint32 env ''WaitForACK'' (if ack then 1 else 0)) w3 = (True, w4)"
    "run_state (ff_write_uint32 env ''IrProtocol'' (uint_of_protocol proto)) w4 = (True, w5)"
    "run_state (ff_free env) w5 = ((), w')"
    using run by (auto simp: wfr_storage_save_settings_def write_settings_def run_bind split: prod.splits if_splits)
  note w = write_lawsD [OF laws(1)] and r = read_lawsD [OF laws(2)]
  have "stored w' WFR_SETTINGS_FILE = Some (settings_file ack proto)"
    using w(5) [OF s(5) w(4) [OF s(4) w(4) [OF s(3) w(2) [OF s(2) w(1) [OF s(1)]]]]]
    by (simp add: settings_file_def)
  from r(1) [OF this] obtain r1 where 1: "run_state (ff_open_existing env WFR_SETTINGS_FILE) w' = (True, r1)"
    "reading r1 = settings_file ack proto" by blast
  obtain r2 where 2: "run_state (ff_read_header env) r1 = (Some (WFR_SETTINGS_TYPE, WFR_SETTINGS_VERSION), r2)"
    "reading r2 = settings_file ack proto"
    using r(2) [OF 1(2) [unfolded settings_file_def]] unfolding settings_file_def by blast
  obtain r3 where 3: "run_state (ff_read_uint32 env ''WaitForACK'') r2 = (Some (if ack then 1 else 0), r3)"
    "reading r3 = (Some (WFR_SETTINGS_TYPE, WFR_SETTINGS_VERSION), [(''IrProtocol'', FfUint (uint_of_protocol proto))])"
    using r(4) [OF 2(2) [unfolded settings_file_def]] by blast
  obtain r4 where 4: "run_state (ff_read_uint32 env ''IrProtocol'') r3 = (Some (uint_of_protocol proto), r4)"
    using r(4) [OF 3(2)] by blast
  have "c_str WFR_SETTINGS_TYPE = WFR_SETTINGS_TYPE"
    by (simp add: WFR_SETTINGS_TYPE_def)
  then show ?thesis
    using 1(1) 2(1) 3(1) 4
    by (auto simp: wfr_storage_load_settings_def read_settings_def run_bind split: prod.splits)
qed

section \<open>The list\<close>

definition saved_ok :: "saved_network \<Rightarrow> bool" where
  "saved_ok n \<longleftrightarrow> length (saved_ssid n) \<le> WFR_SSID_MAX_LEN \<and> length (saved_file n) < WFR_FILENAME_MAX"

lemma storage_list_loop_ok:
  assumes "run_state (storage_list_loop env mx dir found) w = (res, w')" "length found \<le> mx" "list_all saved_ok found"
  shows "length res \<le> mx \<and> list_all saved_ok res"
  using assms
proof (induction env mx dir found arbitrary: w rule: storage_list_loop.induct)
  case (2 env mx is_dir name dir found)
  have trunc: "length (str_trunc 63 name) < 64"
    by (simp add: le_less_trans [OF length_str_trunc])
  show ?case
    using 2 trunc by (auto simp: run_bind saved_ok_def wfr_const WFR_FILENAME_MAX_def less_Suc_eq_le
        split: if_splits prod.splits bool.splits)
qed simp

lemma storage_list_ok:
  "run_state (wfr_storage_list env mx) w = (res, w') \<Longrightarrow> length res \<le> mx \<and> list_all saved_ok res"
  using storage_list_loop_ok [of env mx _ "[]"]
  by (auto simp: wfr_storage_list_def run_bind split: prod.splits option.splits)

end
