(* ===== verification/Views.thy ===== *)
theory Views
  imports Protocol
begin

text \<open>
  The application's own views, \<^verbatim>\<open>flipper/views\<close>: the model each of them keeps and its input handler.
  \<^verbatim>\<open>wfr_list_view.c\<close>, \<^verbatim>\<open>wfr_menu_view.c\<close> and \<^verbatim>\<open>wfr_confirm_view.c\<close> are here; the status view is in
  theory \<open>Status_View\<close>. An input handler returns whether it consumed the event, what it passed to the
  view's callback, if it called it, and the new model. The keys and press types are the firmware's.
\<close>

datatype InputKey = InputKeyUp | InputKeyDown | InputKeyRight | InputKeyLeft | InputKeyOk | InputKeyBack

datatype InputType = InputTypePress | InputTypeRelease | InputTypeShort | InputTypeLong | InputTypeRepeat

record InputEvent =
  input_key :: InputKey
  input_type :: InputType

text \<open>An assignment to a \<^verbatim>\<open>uint8_t\<close> member.\<close>

definition u8 :: "nat \<Rightarrow> nat" where
  "u8 n = n mod 256"

lemma u8_small [simp]: "n < 256 \<Longrightarrow> u8 n = n"
  by (simp add: u8_def)

section \<open>Selections that wrap around\<close>

text \<open>\<^verbatim>\<open>(selected + count + step) % count\<close>, with \<^verbatim>\<open>step\<close> -1 or 1.\<close>

definition cycle :: "nat \<Rightarrow> nat \<Rightarrow> int \<Rightarrow> nat" where
  "cycle selected count step = nat ((int selected + int count + step) mod int count)"

lemma cycle_lt: "0 < count \<Longrightarrow> cycle selected count step < count"
  by (simp add: cycle_def nat_less_iff)

lemma cycle_step: "0 < count \<Longrightarrow> int (cycle selected count step) = (int selected + step) mod int count"
  by (simp add: cycle_def) (metis add.commute add.left_commute mod_add_self2)

locale cyclic_selector =
  fixes entries :: "'m \<Rightarrow> nat" and chosen :: "'m \<Rightarrow> nat" and move :: "int \<Rightarrow> 'm \<Rightarrow> 'm"
  assumes entries_move: "entries (move d m) = entries m"
    and chosen_move: "0 < entries m \<Longrightarrow> entries m < 256 \<Longrightarrow>
      int (chosen (move d m)) = (int (chosen m) + d) mod int (entries m)"
begin

lemma chosen_valid: "0 < entries m \<Longrightarrow> entries m < 256 \<Longrightarrow> chosen (move d m) < entries m"
proof -
  assume m: "0 < entries m" "entries m < 256"
  have "int (chosen (move d m)) < int (entries m)"
    using m by (simp add: chosen_move)
  then show ?thesis by simp
qed

lemma there_and_back:
  assumes "0 < entries m" "entries m < 256" "chosen m < entries m"
  shows "chosen (move (- d) (move d m)) = chosen m"
proof -
  have "int (chosen (move (- d) (move d m))) = int (chosen m)"
    using assms by (simp add: chosen_move entries_move mod_diff_left_eq)
  then show ?thesis by simp
qed

lemma walk:
  assumes "0 < entries m" "entries m < 256" "chosen m < entries m"
  shows "entries ((move 1 ^^ n) m) = entries m \<and> chosen ((move 1 ^^ n) m) = (chosen m + n) mod entries m"
proof (induction n)
  case (Suc n)
  have "int (chosen (move 1 ((move 1 ^^ n) m))) = int ((chosen m + Suc n) mod entries m)"
    using Suc assms by (simp add: chosen_move zmod_int mod_add_left_eq) (simp add: ac_simps)
  then show ?case
    using Suc by (simp add: entries_move del: of_nat_mod)
qed (use assms in simp)

lemma full_circle:
  "0 < entries m \<Longrightarrow> entries m < 256 \<Longrightarrow> chosen m < entries m \<Longrightarrow> chosen ((move 1 ^^ entries m) m) = chosen m"
  by (simp add: walk)

end

section \<open>The list view\<close>

definition WFR_LIST_VIEW_MAX_ITEMS :: nat where "WFR_LIST_VIEW_MAX_ITEMS = 20"
definition ROWS_VISIBLE :: nat where "ROWS_VISIBLE = 4"

text \<open>\<open>items\<close>: the entries of \<^verbatim>\<open>names\<close> and \<^verbatim>\<open>locked\<close> below \<^verbatim>\<open>count\<close>.\<close>

record WfrListViewModel =
  list_title :: "string option"
  list_items :: "(string \<times> bool) list"
  list_selected :: nat
  list_offset :: nat

abbreviation list_count :: "WfrListViewModel \<Rightarrow> nat" where
  "list_count m \<equiv> length (list_items m)"

definition wfr_list_view_reset :: "string option \<Rightarrow> WfrListViewModel \<Rightarrow> WfrListViewModel" where
  "wfr_list_view_reset title m = m\<lparr>list_title := title, list_items := [], list_selected := 0, list_offset := 0\<rparr>"

definition wfr_list_view_add_item :: "string \<Rightarrow> bool \<Rightarrow> WfrListViewModel \<Rightarrow> WfrListViewModel" where
  "wfr_list_view_add_item name locked m =
     (if list_count m < WFR_LIST_VIEW_MAX_ITEMS
      then m\<lparr>list_items := list_items m @ [(name, locked)]\<rparr> else m)"

definition wfr_list_view_set_selected :: "nat \<Rightarrow> WfrListViewModel \<Rightarrow> WfrListViewModel" where
  "wfr_list_view_set_selected index m =
     (if index < list_count m then
        let m = m\<lparr>list_selected := u8 index\<rparr> in
        if list_selected m \<ge> ROWS_VISIBLE
        then m\<lparr>list_offset := u8 (list_selected m - ROWS_VISIBLE + 1)\<rparr>
        else m\<lparr>list_offset := 0\<rparr>
      else m)"

definition list_move :: "int \<Rightarrow> WfrListViewModel \<Rightarrow> WfrListViewModel" where
  "list_move step m =
     (if list_count m \<noteq> 0 then
        let m = m\<lparr>list_selected := u8 (cycle (list_selected m) (list_count m) step)\<rparr> in
        if list_selected m < list_offset m then m\<lparr>list_offset := list_selected m\<rparr>
        else if list_selected m \<ge> list_offset m + ROWS_VISIBLE
        then m\<lparr>list_offset := u8 (list_selected m - ROWS_VISIBLE + 1)\<rparr>
        else m
      else m)"

definition wfr_list_view_input ::
  "InputEvent \<Rightarrow> WfrListViewModel \<Rightarrow> bool \<times> nat option \<times> WfrListViewModel" where
  "wfr_list_view_input event m =
     (let step = (if input_type event = InputTypeShort \<or> input_type event = InputTypeRepeat
                  then (if input_key event = InputKeyUp then - 1
                        else if input_key event = InputKeyDown then 1 else 0 :: int)
                  else 0) in
      if step \<noteq> 0 then (True, None, list_move step m)
      else if input_type event = InputTypeShort \<and> input_key event = InputKeyOk
      then (True, if list_count m \<noteq> 0 then Some (list_selected m) else None, m)
      else (False, None, m))"

section \<open>The menu view\<close>

definition WFR_MENU_VIEW_MAX_ITEMS :: nat where "WFR_MENU_VIEW_MAX_ITEMS = 6"

text \<open>\<open>menu_items\<close>: the entries of \<^verbatim>\<open>labels\<close> and \<^verbatim>\<open>icons\<close> below \<^verbatim>\<open>count\<close>; an icon is the name of its asset.\<close>

record WfrMenuViewModel =
  menu_items :: "(string \<times> string) list"
  menu_selected :: nat

definition wfr_menu_view_reset :: "WfrMenuViewModel \<Rightarrow> WfrMenuViewModel" where
  "wfr_menu_view_reset m = m\<lparr>menu_items := [], menu_selected := 0\<rparr>"

definition wfr_menu_view_add_item :: "string \<Rightarrow> string \<Rightarrow> WfrMenuViewModel \<Rightarrow> WfrMenuViewModel" where
  "wfr_menu_view_add_item label icon m =
     (if length (menu_items m) < WFR_MENU_VIEW_MAX_ITEMS
      then m\<lparr>menu_items := menu_items m @ [(label, icon)]\<rparr> else m)"

definition wfr_menu_view_set_selected :: "nat \<Rightarrow> WfrMenuViewModel \<Rightarrow> WfrMenuViewModel" where
  "wfr_menu_view_set_selected index m =
     (if index < length (menu_items m) then m\<lparr>menu_selected := u8 index\<rparr> else m)"

definition menu_move :: "int \<Rightarrow> WfrMenuViewModel \<Rightarrow> WfrMenuViewModel" where
  "menu_move step m =
     (if length (menu_items m) \<noteq> 0
      then m\<lparr>menu_selected := u8 (cycle (menu_selected m) (length (menu_items m)) step)\<rparr> else m)"

definition wfr_menu_view_input ::
  "InputEvent \<Rightarrow> WfrMenuViewModel \<Rightarrow> bool \<times> nat option \<times> WfrMenuViewModel" where
  "wfr_menu_view_input event m =
     (let step = (if input_type event = InputTypeShort \<or> input_type event = InputTypeRepeat
                  then (if input_key event \<in> {InputKeyLeft, InputKeyUp} then - 1
                        else if input_key event \<in> {InputKeyRight, InputKeyDown} then 1 else 0 :: int)
                  else 0) in
      if step \<noteq> 0 then (True, None, menu_move step m)
      else if input_type event = InputTypeShort \<and> input_key event = InputKeyOk
      then (True, Some (menu_selected m), m)
      else (False, None, m))"

section \<open>The confirm view\<close>

datatype WfrConfirmResult = WfrConfirmResultBack | WfrConfirmResultSend | WfrConfirmResultDelete

record WfrConfirmViewModel =
  conf_ssid :: string
  conf_security :: byte
  conf_has_password :: bool
  conf_hidden :: bool
  conf_show_delete :: bool

definition wfr_security_label :: "byte \<Rightarrow> string" where
  "wfr_security_label sec =
     (if sec = WFR_SEC_OPEN then ''Open network''
      else if sec = WFR_SEC_WPA then ''WPA/WPA2''
      else if sec = WFR_SEC_WEP then ''WEP''
      else if sec = WFR_SEC_SAE then ''WPA3 (SAE)''
      else ''Unknown'')"

definition wfr_confirm_view_set_data :: "string \<Rightarrow> byte \<Rightarrow> bool \<Rightarrow> bool \<Rightarrow> bool \<Rightarrow> WfrConfirmViewModel" where
  "wfr_confirm_view_set_data name sec has_password hid show_delete =
     \<lparr>conf_ssid = str_trunc WFR_SSID_MAX_LEN name, conf_security = sec, conf_has_password = has_password,
      conf_hidden = hid, conf_show_delete = show_delete\<rparr>"

definition wfr_confirm_view_input ::
  "InputEvent \<Rightarrow> WfrConfirmViewModel \<Rightarrow> bool \<times> WfrConfirmResult option" where
  "wfr_confirm_view_input event m =
     (if input_type event \<noteq> InputTypeShort then (False, None)
      else (case input_key event of
              InputKeyLeft \<Rightarrow> (True, Some WfrConfirmResultBack)
            | InputKeyRight \<Rightarrow> (True, Some WfrConfirmResultSend)
            | InputKeyOk \<Rightarrow> (True, Some (if conf_show_delete m then WfrConfirmResultDelete else WfrConfirmResultSend))
            | _ \<Rightarrow> (False, None)))"

section \<open>Selections stay valid\<close>

definition list_ok :: "WfrListViewModel \<Rightarrow> bool" where
  "list_ok m \<longleftrightarrow> list_count m \<le> WFR_LIST_VIEW_MAX_ITEMS
     \<and> (list_count m = 0 \<longrightarrow> list_selected m = 0 \<and> list_offset m = 0)
     \<and> (list_count m \<noteq> 0 \<longrightarrow> list_selected m < list_count m \<and> list_offset m \<le> list_selected m
          \<and> list_selected m < list_offset m + ROWS_VISIBLE)
     \<and> (list_offset m = 0 \<or> list_offset m + ROWS_VISIBLE \<le> list_count m)"

lemmas view_limits = WFR_LIST_VIEW_MAX_ITEMS_def ROWS_VISIBLE_def WFR_MENU_VIEW_MAX_ITEMS_def

lemma list_ok_reset: "list_ok (wfr_list_view_reset title m)"
  by (simp add: list_ok_def wfr_list_view_reset_def view_limits)

lemma list_ok_add: "list_ok m \<Longrightarrow> list_ok (wfr_list_view_add_item name locked m)"
  by (auto simp: list_ok_def wfr_list_view_add_item_def view_limits)

lemma list_ok_set_selected: "list_ok m \<Longrightarrow> list_ok (wfr_list_view_set_selected index m)"
  by (auto simp: list_ok_def wfr_list_view_set_selected_def view_limits Let_def)

lemma list_ok_move: "list_ok m \<Longrightarrow> list_ok (list_move step m)"
  using cycle_lt [of "list_count m" "list_selected m" step]
  by (auto simp: list_ok_def list_move_def view_limits Let_def)

lemma list_ok_input:
  "list_ok m \<Longrightarrow> wfr_list_view_input event m = (consumed, called, m') \<Longrightarrow>
     list_ok m' \<and> (\<forall>i. called = Some i \<longrightarrow> i < list_count m')"
  by (auto simp: wfr_list_view_input_def Let_def list_ok_move split: if_splits)
    (auto simp: list_ok_def)

interpretation list_selector: cyclic_selector list_count list_selected list_move
proof unfold_locales
  fix m d
  show "list_count (list_move d m) = list_count m"
    by (simp add: list_move_def Let_def)
  assume "0 < list_count m" "list_count m < 256"
  then have "cycle (list_selected m) (list_count m) d < 256"
    using cycle_lt less_trans by blast
  then show "int (list_selected (list_move d m)) = (int (list_selected m) + d) mod int (list_count m)"
    using \<open>0 < list_count m\<close> by (simp add: list_move_def Let_def flip: cycle_step)
qed

interpretation menu_selector: cyclic_selector "\<lambda>m. length (menu_items m)" menu_selected menu_move
proof unfold_locales
  fix m d
  show "length (menu_items (menu_move d m)) = length (menu_items m)"
    by (simp add: menu_move_def)
  assume "0 < length (menu_items m)" "length (menu_items m) < 256"
  then have "cycle (menu_selected m) (length (menu_items m)) d < 256"
    using cycle_lt less_trans by blast
  then show "int (menu_selected (menu_move d m)) = (int (menu_selected m) + d) mod int (length (menu_items m))"
    using \<open>0 < length (menu_items m)\<close> by (simp add: menu_move_def flip: cycle_step)
qed

text \<open>The models the list view can have: those its operations make from a fresh one.\<close>

inductive list_reach :: "WfrListViewModel \<Rightarrow> bool" where
  fresh: "list_reach (wfr_list_view_reset None m)"
| reset: "list_reach m \<Longrightarrow> list_reach (wfr_list_view_reset title m)"
| add: "list_reach m \<Longrightarrow> list_reach (wfr_list_view_add_item name locked m)"
| select: "list_reach m \<Longrightarrow> list_reach (wfr_list_view_set_selected index m)"
| input: "list_reach m \<Longrightarrow> wfr_list_view_input event m = (consumed, called, m') \<Longrightarrow> list_reach m'"

lemma list_reach_ok: "list_reach m \<Longrightarrow> list_ok m"
  by (induction rule: list_reach.induct)
    (auto simp: list_ok_reset list_ok_add list_ok_set_selected dest: list_ok_input)

text \<open>
  The saved list always shows its selection and never hands out an index outside it. In every model
  the list view can reach by resets, additions, selections and key presses in any order, a list that is
  not empty has its selection among its entries and inside the four visible rows, OK reports exactly
  the selected entry and changes nothing, and pressing Down once per entry comes back to it.
\<close>

theorem list_view_selection:
  assumes "list_reach m" "list_count m \<noteq> 0"
  shows "list_selected m < list_count m \<and> list_count m \<le> WFR_LIST_VIEW_MAX_ITEMS
    \<and> list_offset m \<le> list_selected m \<and> list_selected m < list_offset m + ROWS_VISIBLE
    \<and> wfr_list_view_input \<lparr>input_key = InputKeyOk, input_type = InputTypeShort\<rparr> m
        = (True, Some (list_selected m), m)
    \<and> list_selected (((\<lambda>m. snd (snd (wfr_list_view_input
          \<lparr>input_key = InputKeyDown, input_type = InputTypeShort\<rparr> m))) ^^ list_count m) m) = list_selected m"
proof -
  have ok: "list_ok m"
    using assms(1) by (rule list_reach_ok)
  have down: "(\<lambda>m. snd (snd (wfr_list_view_input \<lparr>input_key = InputKeyDown, input_type = InputTypeShort\<rparr> m)))
      = list_move 1"
    by (simp add: wfr_list_view_input_def fun_eq_iff)
  have "list_selected ((list_move 1 ^^ list_count m) m) = list_selected m"
    using ok assms(2) by (intro list_selector.full_circle) (auto simp: list_ok_def view_limits)
  then show ?thesis
    unfolding down using ok assms(2) by (simp add: list_ok_def wfr_list_view_input_def)
qed

definition six_items :: WfrListViewModel where
  "six_items = wfr_list_view_set_selected 5
     (fold (\<lambda>n. wfr_list_view_add_item n False) [''a'', ''b'', ''c'', ''d'', ''e'', ''f'']
       (wfr_list_view_reset None \<lparr>list_title = None, list_items = [], list_selected = 0, list_offset = 0\<rparr>))"

theorem list_view_selection_witness:
  "list_selected six_items < list_count six_items \<and> list_count six_items \<le> WFR_LIST_VIEW_MAX_ITEMS
    \<and> list_offset six_items \<le> list_selected six_items
    \<and> list_selected six_items < list_offset six_items + ROWS_VISIBLE
    \<and> wfr_list_view_input \<lparr>input_key = InputKeyOk, input_type = InputTypeShort\<rparr> six_items
        = (True, Some (list_selected six_items), six_items)
    \<and> list_selected (((\<lambda>m. snd (snd (wfr_list_view_input
          \<lparr>input_key = InputKeyDown, input_type = InputTypeShort\<rparr> m))) ^^ list_count six_items) six_items)
        = list_selected six_items"
proof (rule list_view_selection)
  show "list_reach six_items"
    by (auto simp: six_items_def intro!: list_reach.intros)
  show "list_count six_items \<noteq> 0"
    by (simp add: six_items_def wfr_list_view_set_selected_def wfr_list_view_add_item_def
        wfr_list_view_reset_def view_limits)
qed

end
