(* ===== verification/Status_View.thy ===== *)
theory Status_View
  imports Views
begin

text \<open>
  The status view, \<^verbatim>\<open>flipper/views/wfr_status_view.c\<close>: what it shows (\<open>status_mode\<close> and the texts) and
  which keys it passes on. An icon is the name of its asset.
\<close>

datatype WfrStatusMode =
    WfrStatusModeNone | WfrStatusModeTransmit | WfrStatusModeWaiting | WfrStatusModeConnected
  | WfrStatusModeResult | WfrStatusModeNfcScan | WfrStatusModeAbout

datatype WfrStatusBadge = WfrStatusBadgeCheck | WfrStatusBadgeCross | WfrStatusBadgeQuestion

record WfrStatusViewModel =
  status_mode :: WfrStatusMode
  frame :: u32
  sent :: u16
  tx_total :: u16
  proto :: string
  timeout_sec :: byte
  subject :: "string option"
  badge :: WfrStatusBadge
  title :: string
  line1 :: string
  line2 :: string
  btn_left :: "string option"
  btn_right :: "string option"

text \<open>\<^verbatim>\<open>s ? s : ""\<close>.\<close>

definition or_empty :: "string option \<Rightarrow> string" where
  "or_empty s = (case s of None \<Rightarrow> [] | Some t \<Rightarrow> t)"

lemma or_empty_simps [simp]: "or_empty None = []" "or_empty (Some s) = s"
  by (simp_all add: or_empty_def)

definition FRAME_MS :: nat where "FRAME_MS = 100"

definition wfr_status_view_input :: "InputEvent \<Rightarrow> WfrStatusViewModel \<Rightarrow> bool \<times> InputKey option" where
  "wfr_status_view_input event m =
     (if input_type event \<noteq> InputTypeShort then (False, None)
      else if input_key event \<noteq> InputKeyLeft \<and> input_key event \<noteq> InputKeyRight \<and> input_key event \<noteq> InputKeyOk
      then (False, None)
      else if status_mode m \<noteq> WfrStatusModeResult \<and> status_mode m \<noteq> WfrStatusModeConnected then (False, None)
      else (True, Some (input_key event)))"

definition wfr_status_view_tick :: "WfrStatusViewModel \<Rightarrow> WfrStatusViewModel" where
  "wfr_status_view_tick m = m\<lparr>frame := frame m + 1\<rparr>"

definition set_mode :: "WfrStatusMode \<Rightarrow> WfrStatusViewModel \<Rightarrow> WfrStatusViewModel" where
  "set_mode mode m = (if status_mode m \<noteq> mode then m\<lparr>status_mode := mode, frame := 0\<rparr> else m)"

definition wfr_status_view_set_transmit :: "u16 \<Rightarrow> u16 \<Rightarrow> string option \<Rightarrow> WfrStatusViewModel \<Rightarrow> WfrStatusViewModel" where
  "wfr_status_view_set_transmit n tot label m =
     (set_mode WfrStatusModeTransmit m)\<lparr>sent := n, tx_total := tot,
        proto := str_trunc 7 (or_empty label)\<rparr>"

definition wfr_status_view_set_waiting :: "byte \<Rightarrow> WfrStatusViewModel \<Rightarrow> WfrStatusViewModel" where
  "wfr_status_view_set_waiting secs m = m\<lparr>status_mode := WfrStatusModeWaiting, frame := 0, timeout_sec := secs\<rparr>"

definition wfr_status_view_set_connected :: "string option \<Rightarrow> WfrStatusViewModel \<Rightarrow> WfrStatusViewModel" where
  "wfr_status_view_set_connected ip m =
     (set_mode WfrStatusModeConnected m)\<lparr>line1 := str_trunc 31 (or_empty ip)\<rparr>"

definition wfr_status_view_set_result ::
  "string option \<Rightarrow> WfrStatusBadge \<Rightarrow> string option \<Rightarrow> string option \<Rightarrow> string option
    \<Rightarrow> string option \<Rightarrow> string option
    \<Rightarrow> WfrStatusViewModel \<Rightarrow> WfrStatusViewModel" where
  "wfr_status_view_set_result subj bdg ttl l1 l2 left right m =
     m\<lparr>status_mode := WfrStatusModeResult, frame := 0, subject := subj, badge := bdg,
       title := str_trunc 23 (or_empty ttl), line1 := str_trunc 31 (or_empty l1),
       line2 := str_trunc 31 (or_empty l2),
       btn_left := left, btn_right := right\<rparr>"

definition wfr_status_view_set_nfc_scan :: "WfrStatusViewModel \<Rightarrow> WfrStatusViewModel" where
  "wfr_status_view_set_nfc_scan m = set_mode WfrStatusModeNfcScan m"

definition wfr_status_view_set_about :: "string \<Rightarrow> WfrStatusViewModel \<Rightarrow> WfrStatusViewModel" where
  "wfr_status_view_set_about version m = (set_mode WfrStatusModeAbout m)\<lparr>title := str_trunc 23 (''v'' @ version)\<rparr>"

text \<open>The whole seconds the waiting screen says are left; \<^verbatim>\<open>frame * FRAME_MS\<close> is 32-bit arithmetic.\<close>

definition seconds_left :: "WfrStatusViewModel \<Rightarrow> u32" where
  "seconds_left m =
     (let elapsed = frame m * of_nat FRAME_MS div 1000 in
      if elapsed < ucast (timeout_sec m) then ucast (timeout_sec m) - elapsed else 0)"

section \<open>What the setters leave on the screen\<close>

lemma status_mode_set [simp]:
  "status_mode (set_mode mode m) = mode"
  "status_mode (wfr_status_view_set_transmit n tot label m) = WfrStatusModeTransmit"
  "status_mode (wfr_status_view_set_waiting secs m) = WfrStatusModeWaiting"
  "status_mode (wfr_status_view_set_connected ip m) = WfrStatusModeConnected"
  "status_mode (wfr_status_view_set_result subj bdg ttl l1 l2 left right m) = WfrStatusModeResult"
  "status_mode (wfr_status_view_set_nfc_scan m) = WfrStatusModeNfcScan"
  "status_mode (wfr_status_view_set_about version m) = WfrStatusModeAbout"
  "status_mode (wfr_status_view_tick m) = status_mode m"
  by (simp_all add: set_mode_def wfr_status_view_set_transmit_def wfr_status_view_set_waiting_def
      wfr_status_view_set_connected_def wfr_status_view_set_result_def wfr_status_view_set_nfc_scan_def
      wfr_status_view_set_about_def wfr_status_view_tick_def)

lemma status_input_modes:
  "wfr_status_view_input event m = (True, called) \<Longrightarrow>
     status_mode m \<in> {WfrStatusModeResult, WfrStatusModeConnected} \<and> (\<exists>k. called = Some k)"
  "wfr_status_view_input event m = (False, called) \<Longrightarrow> called = None"
  by (auto simp: wfr_status_view_input_def split: if_splits)

end
