(* ===== verification/App.thy ===== *)
theory App
  imports Ack_Receive Storage Status_View
begin

text \<open>
  The state of the Flipper application, \<^verbatim>\<open>WiFirApp\<close> of \<^verbatim>\<open>flipper/wi_fir.h\<close>, and what a scene can ask of
  the firmware. The record extends \<open>ack_listener\<close>, the part that the infrared receive callback works
  on; its \<open>posted\<close> events are the view dispatcher's queue of custom events. Pointers to firmware objects
  are kept as whether there is such an object; the view models are those of theories \<open>Views\<close> and
  \<open>Status_View\<close>; \<open>sd\<close> is the world of the storage operations.
\<close>

datatype WiFirScene =
    WiFirSceneMainMenu | WiFirSceneEditSsid | WiFirSceneEditPassword | WiFirSceneEditSecurity
  | WiFirSceneConfirm | WiFirSceneTransmit | WiFirSceneScanNfc | WiFirSceneSaved | WiFirSceneAbout
  | WiFirSceneSettings

datatype WiFirView =
    WiFirViewMenu | WiFirViewList | WiFirViewConfirm | WiFirViewStatus | WiFirViewTextInput
  | WiFirViewVariableItemList | WiFirViewDialogEx

text \<open>
  Requests to the view dispatcher, the notification service, the stock view modules and the scene
  manager, in order. \<open>VariableItem\<close> is a line of the variable item list: its label, the index of its
  current value and that value's text.
\<close>

datatype request =
    SwitchToView WiFirView | Notify string | ResetModule WiFirView | VariableItem string nat string
  | NextScene WiFirScene | PreviousScene | SearchAndSwitchToPreviousScene WiFirScene

text \<open>
  The transmit thread: in \<^verbatim>\<open>wfr_transmit_credentials\<close>; past its check of \<^verbatim>\<open>tx_cancel\<close> and about to post
  \<^verbatim>\<open>TxFinished\<close>; returned, but not yet joined. The one-shot timer is armed or has fired.
\<close>

datatype tx_thread_state = TxSending | TxPosting | TxEnded

datatype timer_state = TimerArmed | TimerFired

record 'w WiFirApp = ack_listener +
  app_ssid :: string
  app_password :: string
  security_type :: byte
  app_hidden :: bool
  text_input_buf :: string
  confirm_text :: string
  nfc_creds :: WfrWifiCreds
  nfc_polling :: bool
  saved :: "saved_network list"
  selected_saved_file :: string
  ir_protocol :: WfrIrProtocol
  ack_enabled :: bool
  ir_worker :: bool
  ack_timer :: "timer_state option"
  tx_thread :: "tx_thread_state option"
  tx_creds :: WfrWifiCreds
  tx_cancel :: bool
  tx_ok :: bool
  dismiss_ticks :: u16
  retry_allowed :: bool
  menu :: WfrMenuViewModel
  list_view :: WfrListViewModel
  confirm :: WfrConfirmViewModel
  status :: WfrStatusViewModel
  status_callback :: bool
  scene_state :: "WiFirScene \<Rightarrow> nat"
  requests :: "request list"
  sd :: 'w

definition ask :: "request \<Rightarrow> 'w WiFirApp \<Rightarrow> 'w WiFirApp" where
  "ask r app = app\<lparr>requests := requests app @ [r]\<rparr>"

definition post :: "WiFirCustomEvent \<Rightarrow> 'w WiFirApp \<Rightarrow> 'w WiFirApp" where
  "post ev app = app\<lparr>posted := posted app @ [ev]\<rparr>"

definition show_status :: "(WfrStatusViewModel \<Rightarrow> WfrStatusViewModel) \<Rightarrow> 'w WiFirApp \<Rightarrow> 'w WiFirApp" where
  "show_status f app = app\<lparr>status := f (status app)\<rparr>"

text \<open>What a scene's event handler gets: a custom event, a 100 ms tick, or the Back key.\<close>

datatype SceneManagerEvent =
    SceneManagerEventTypeCustom WiFirCustomEvent | SceneManagerEventTypeTick | SceneManagerEventTypeBack

section \<open>Starting the application\<close>

text \<open>
  \<^verbatim>\<open>wi_fir_alloc\<close>: all members zero but the security type; the settings are loaded over the defaults.
  The view models are as the views' own allocation leaves them.
\<close>

definition zero_status :: WfrStatusViewModel where
  "zero_status = \<lparr>status_mode = WfrStatusModeNone, frame = 0, sent = 0, tx_total = 0, proto = [],
     timeout_sec = 0, subject = None, badge = WfrStatusBadgeCheck, title = [], line1 = [], line2 = [],
     btn_left = None, btn_right = None\<rparr>"

definition zero_app :: "'w \<Rightarrow> 'w WiFirApp" where
  "zero_app w = \<lparr>ack_decoder = wfr_ack_decode_init, ack_result_text = [], posted = [],
     app_ssid = [], app_password = [], security_type = 0, app_hidden = False, text_input_buf = [],
     confirm_text = [], nfc_creds = zero_creds, nfc_polling = False, saved = [], selected_saved_file = [],
     ir_protocol = WfrIrProtocolRC6, ack_enabled = False, ir_worker = False, ack_timer = None,
     tx_thread = None, tx_creds = zero_creds, tx_cancel = False, tx_ok = False, dismiss_ticks = 0,
     retry_allowed = False, menu = \<lparr>menu_items = [], menu_selected = 0\<rparr>,
     list_view = \<lparr>list_title = None, list_items = [], list_selected = 0, list_offset = 0\<rparr>,
     confirm = \<lparr>conf_ssid = [], conf_security = 0, conf_has_password = False, conf_hidden = False,
       conf_show_delete = False\<rparr>,
     status = zero_status, status_callback = False, scene_state = (\<lambda>s. 0), requests = [], sd = w\<rparr>"

definition wi_fir_alloc :: "'w flipper_storage \<Rightarrow> 'w \<Rightarrow> 'w WiFirApp" where
  "wi_fir_alloc env w =
     (let app = zero_app w;
          app = app\<lparr>security_type := WFR_SEC_WPA, ack_enabled := False\<rparr>;
          app = app\<lparr>menu := wfr_menu_view_reset (menu app)\<rparr>;
          app = app\<lparr>list_view := wfr_list_view_reset None (list_view app)\<rparr>;
          ((ok, ack, prot), w) = run_state (wfr_storage_load_settings env (ack_enabled app) (ir_protocol app)) (sd app)
      in app\<lparr>ack_enabled := ack, ir_protocol := prot, sd := w\<rparr>)"

end
