(* ===== verification/Transmit_Scene.thy ===== *)
theory Transmit_Scene
  imports App
begin

text \<open>
  The transmit scene, \<^verbatim>\<open>flipper/scenes/wi_fir_scene_transmit.c\<close>: starting and reaping the transmit
  thread, the acknowledgement listener with its worker and timer, the result screens, and the scene's
  handlers. The scene's threads, callbacks and queued events are the step relation at the end.
\<close>

section \<open>The listener\<close>

definition DISMISS_SENT_TICKS :: u16 where "DISMISS_SENT_TICKS = 25"
definition DISMISS_CONNECTED :: u16 where "DISMISS_CONNECTED = 60"

definition wi_fir_proto_label :: "'w WiFirApp \<Rightarrow> string" where
  "wi_fir_proto_label app = (if ir_protocol app = WfrIrProtocolNEC then ''NEC'' else ''RC-6'')"

definition wi_fir_ack_timeout_callback :: "'w WiFirApp \<Rightarrow> 'w WiFirApp" where
  "wi_fir_ack_timeout_callback app = post WiFirCustomEventAckTimeout app"

definition wi_fir_stop_ack_listener :: "'w WiFirApp \<Rightarrow> 'w WiFirApp" where
  "wi_fir_stop_ack_listener app =
     (let app = (if ack_timer app \<noteq> None then app\<lparr>ack_timer := None\<rparr> else app)
      in if ir_worker app then app\<lparr>ir_worker := False\<rparr> else app)"

definition wi_fir_start_ack_listener :: "'w WiFirApp \<Rightarrow> 'w WiFirApp" where
  "wi_fir_start_ack_listener app =
     (let app = app\<lparr>ack_decoder := wfr_ack_decode_init, ack_result_text := []\<rparr>;
          app = app\<lparr>ir_worker := True\<rparr>;
          app = app\<lparr>ack_timer := Some TimerArmed\<rparr>;
          app = ask (Notify ''blink_start_cyan'') app
      in show_status (wfr_status_view_set_waiting (of_nat WFR_ACK_TIMEOUT_SEC)) app)"

section \<open>The transmit thread\<close>

text \<open>The progress callback: what the screen shows, and whether to go on.\<close>

definition wi_fir_tx_progress :: "u16 \<Rightarrow> u16 \<Rightarrow> 'w WiFirApp \<Rightarrow> bool \<times> 'w WiFirApp" where
  "wi_fir_tx_progress n tot app =
     (\<not> tx_cancel app, show_status (wfr_status_view_set_transmit n tot (Some (wi_fir_proto_label app))) app)"

text \<open>The worker after \<^verbatim>\<open>wfr_transmit_credentials\<close> has returned \<open>ok\<close>, and its post.\<close>

definition wi_fir_tx_worker_returned :: "bool \<Rightarrow> 'w WiFirApp \<Rightarrow> 'w WiFirApp" where
  "wi_fir_tx_worker_returned ok app =
     (let app = app\<lparr>tx_ok := ok\<rparr>
      in if \<not> tx_cancel app then app\<lparr>tx_thread := Some TxPosting\<rparr> else app\<lparr>tx_thread := Some TxEnded\<rparr>)"

definition wi_fir_tx_worker_post :: "'w WiFirApp \<Rightarrow> 'w WiFirApp" where
  "wi_fir_tx_worker_post app = post WiFirCustomEventTxFinished (app\<lparr>tx_thread := Some TxEnded\<rparr>)"

text \<open>\<^verbatim>\<open>furi_thread_join\<close>: the thread runs to its end; \<open>ok\<close> is what its transmission still returns.\<close>

definition join_tx :: "bool \<Rightarrow> 'w WiFirApp \<Rightarrow> 'w WiFirApp" where
  "join_tx ok app =
     (let app = (if tx_thread app = Some TxSending then wi_fir_tx_worker_returned ok app else app)
      in if tx_thread app = Some TxPosting then wi_fir_tx_worker_post app else app)"

definition wi_fir_stop_tx :: "bool \<Rightarrow> 'w WiFirApp \<Rightarrow> 'w WiFirApp" where
  "wi_fir_stop_tx ok app =
     (if tx_thread app \<noteq> None
      then (join_tx ok (app\<lparr>tx_cancel := True\<rparr>))\<lparr>tx_thread := None\<rparr>
      else app)"

definition wi_fir_start_tx :: "bool \<Rightarrow> 'w WiFirApp \<Rightarrow> 'w WiFirApp" where
  "wi_fir_start_tx ok app =
     (let app = wi_fir_stop_ack_listener app;
          app = wi_fir_stop_tx ok app;
          app = ask (Notify ''blink_stop'') app;
          app = app\<lparr>tx_creds := \<lparr>ssid = str_trunc WFR_SSID_MAX_LEN (app_ssid app),
                     password = str_trunc WFR_PASS_MAX_LEN (app_password app),
                     security = security_type app, hidden = app_hidden app\<rparr>\<rparr>;
          app = app\<lparr>tx_cancel := False, tx_ok := False, dismiss_ticks := 0, retry_allowed := False\<rparr>;
          app = show_status (wfr_status_view_set_transmit 0 0 (Some (wi_fir_proto_label app))) app;
          app = ask (SwitchToView WiFirViewStatus) app;
          app = ask (Notify ''blink_start_magenta'') app
      in app\<lparr>tx_thread := Some TxSending\<rparr>)"

section \<open>Results\<close>

definition wi_fir_show_failure ::
  "WfrStatusBadge \<Rightarrow> string \<Rightarrow> string \<Rightarrow> string \<Rightarrow> string \<Rightarrow> 'w WiFirApp \<Rightarrow> 'w WiFirApp" where
  "wi_fir_show_failure bdg ttl l1 l2 retry_label app =
     show_status (wfr_status_view_set_result (Some ''server_20x18'') bdg (Some ttl) (Some l1) (Some l2)
        (Some ''Menu'') (Some retry_label)) (app\<lparr>retry_allowed := True, dismiss_ticks := 0\<rparr>)"

definition wi_fir_on_tx_finished :: "'w flipper_storage \<Rightarrow> bool \<Rightarrow> 'w WiFirApp \<Rightarrow> 'w WiFirApp" where
  "wi_fir_on_tx_finished env ok app =
     (let app = wi_fir_stop_tx ok app;
          app = ask (Notify ''blink_stop'') app in
      if \<not> tx_ok app then
        let app = ask (Notify ''error'') app in
        wi_fir_show_failure WfrStatusBadgeCross ''Send failed'' ''IR transmit error'' ''Try again'' ''Retry'' app
      else
        let app = app\<lparr>sd := snd (run_state (wfr_storage_save env (Some (tx_creds app))) (sd app))\<rparr>;
            app = ask (Notify ''success'') app in
        if ack_enabled app then wi_fir_start_ack_listener app
        else
          (show_status (wfr_status_view_set_result (Some ''server_20x18'') WfrStatusBadgeCheck (Some ''Sent!'')
             (Some ''Credentials sent'') (Some ''over infrared'') None None) app)
            \<lparr>dismiss_ticks := DISMISS_SENT_TICKS\<rparr>)"

definition wi_fir_status_callback :: "InputKey \<Rightarrow> 'w WiFirApp \<Rightarrow> 'w WiFirApp" where
  "wi_fir_status_callback key app =
     post (if key = InputKeyLeft then WiFirCustomEventStatusLeft
           else if key = InputKeyRight then WiFirCustomEventStatusRight
           else WiFirCustomEventStatusOk) app"

definition wi_fir_dismiss :: "'w WiFirApp \<Rightarrow> 'w WiFirApp" where
  "wi_fir_dismiss app = ask (SearchAndSwitchToPreviousScene WiFirSceneMainMenu) app"

section \<open>The scene's handlers\<close>

definition wi_fir_scene_transmit_on_enter :: "bool \<Rightarrow> 'w WiFirApp \<Rightarrow> 'w WiFirApp" where
  "wi_fir_scene_transmit_on_enter ok app = wi_fir_start_tx ok (app\<lparr>status_callback := True\<rparr>)"

definition transmit_on_custom :: "'w flipper_storage \<Rightarrow> bool \<Rightarrow> WiFirCustomEvent \<Rightarrow> 'w WiFirApp \<Rightarrow> bool \<times> 'w WiFirApp" where
  "transmit_on_custom env ok ev app =
     (if ev = WiFirCustomEventTxFinished then (True, wi_fir_on_tx_finished env ok app)
      else if ev = WiFirCustomEventAckSuccess then
        (let app = wi_fir_stop_ack_listener app;
             app = ask (Notify ''blink_stop'') app;
             app = ask (Notify ''success'') app;
             app = app\<lparr>retry_allowed := False\<rparr>;
             app = show_status (wfr_status_view_set_connected (Some (ack_result_text app))) app
         in (True, app\<lparr>dismiss_ticks := DISMISS_CONNECTED\<rparr>))
      else if ev = WiFirCustomEventAckFail then
        (let app = wi_fir_stop_ack_listener app;
             app = ask (Notify ''blink_stop'') app;
             app = ask (Notify ''error'') app
         in (True, wi_fir_show_failure WfrStatusBadgeCross ''Join failed'' ''Server rejected'' ''the credentials'' ''Retry'' app))
      else if ev = WiFirCustomEventAckTimeout then
        (let app = wi_fir_stop_ack_listener app;
             app = ask (Notify ''blink_stop'') app
         in (True, wi_fir_show_failure WfrStatusBadgeQuestion ''No reply'' ''Credentials sent,'' ''server is silent'' ''Resend'' app))
      else if ev = WiFirCustomEventStatusLeft \<or> ev = WiFirCustomEventStatusOk then (True, wi_fir_dismiss app)
      else if ev = WiFirCustomEventStatusRight then
        (True, if retry_allowed app then wi_fir_start_tx ok app else app)
      else (False, app))"

definition wi_fir_scene_transmit_on_event ::
  "'w flipper_storage \<Rightarrow> bool \<Rightarrow> SceneManagerEvent \<Rightarrow> 'w WiFirApp \<Rightarrow> bool \<times> 'w WiFirApp" where
  "wi_fir_scene_transmit_on_event env ok event app =
     (case event of
        SceneManagerEventTypeCustom ev \<Rightarrow> transmit_on_custom env ok ev app
      | SceneManagerEventTypeTick \<Rightarrow>
          (True, if dismiss_ticks app > 0 then
                   let app = app\<lparr>dismiss_ticks := dismiss_ticks app - 1\<rparr>
                   in if dismiss_ticks app = 0 then wi_fir_dismiss app else app
                 else app)
      | SceneManagerEventTypeBack \<Rightarrow> (True, wi_fir_dismiss app))"

definition wi_fir_scene_transmit_on_exit :: "bool \<Rightarrow> 'w WiFirApp \<Rightarrow> 'w WiFirApp" where
  "wi_fir_scene_transmit_on_exit ok app =
     (let app = wi_fir_stop_tx ok app;
          app = wi_fir_stop_ack_listener app;
          app = app\<lparr>dismiss_ticks := 0\<rparr>
      in ask (Notify ''blink_stop'') app)"

section \<open>What each operation does to threads, timers and queue\<close>

lemma ask_sel [simp]:
  "tx_thread (ask r app) = tx_thread app" "tx_cancel (ask r app) = tx_cancel app" "ir_worker (ask r app) = ir_worker app"
  "ack_timer (ask r app) = ack_timer app" "retry_allowed (ask r app) = retry_allowed app"
  "status (ask r app) = status app" "posted (ask r app) = posted app"
  "dismiss_ticks (ask r app) = dismiss_ticks app" "requests (ask r app) = requests app @ [r]"
  "tx_ok (ask r app) = tx_ok app" "ack_enabled (ask r app) = ack_enabled app"
  by (simp_all add: ask_def)

lemma show_status_sel [simp]:
  "tx_thread (show_status f app) = tx_thread app" "tx_cancel (show_status f app) = tx_cancel app" "ir_worker (show_status f app) = ir_worker app"
  "ack_timer (show_status f app) = ack_timer app" "retry_allowed (show_status f app) = retry_allowed app"
  "status (show_status f app) = f (status app)" "posted (show_status f app) = posted app"
  "dismiss_ticks (show_status f app) = dismiss_ticks app" "requests (show_status f app) = requests app"
  by (simp_all add: show_status_def)

lemma post_sel [simp]:
  "tx_thread (post ev app) = tx_thread app" "tx_cancel (post ev app) = tx_cancel app" "ir_worker (post ev app) = ir_worker app"
  "ack_timer (post ev app) = ack_timer app" "retry_allowed (post ev app) = retry_allowed app"
  "status (post ev app) = status app" "posted (post ev app) = posted app @ [ev]"
  "requests (post ev app) = requests app" "ack_enabled (post ev app) = ack_enabled app"
  by (simp_all add: post_def)

lemma stop_ack_listener_sel [simp]:
  "tx_thread (wi_fir_stop_ack_listener app) = tx_thread app" "\<not> ir_worker (wi_fir_stop_ack_listener app)"
  "ack_timer (wi_fir_stop_ack_listener app) = None"
  "retry_allowed (wi_fir_stop_ack_listener app) = retry_allowed app"
  "status (wi_fir_stop_ack_listener app) = status app" "posted (wi_fir_stop_ack_listener app) = posted app"
  "requests (wi_fir_stop_ack_listener app) = requests app"
  by (simp_all add: wi_fir_stop_ack_listener_def Let_def)

lemma start_ack_listener_sel [simp]:
  "tx_thread (wi_fir_start_ack_listener app) = tx_thread app" "ir_worker (wi_fir_start_ack_listener app)"
  "ack_timer (wi_fir_start_ack_listener app) = Some TimerArmed"
  "status_mode (status (wi_fir_start_ack_listener app)) = WfrStatusModeWaiting"
  "posted (wi_fir_start_ack_listener app) = posted app"
  by (simp_all add: wi_fir_start_ack_listener_def Let_def)

lemma stop_tx_sel [simp]:
  "tx_thread (wi_fir_stop_tx ok app) = None" "ir_worker (wi_fir_stop_tx ok app) = ir_worker app"
  "ack_timer (wi_fir_stop_tx ok app) = ack_timer app" "retry_allowed (wi_fir_stop_tx ok app) = retry_allowed app"
  "ack_enabled (wi_fir_stop_tx ok app) = ack_enabled app"
  "status (wi_fir_stop_tx ok app) = status app" "requests (wi_fir_stop_tx ok app) = requests app"
  by (simp_all add: wi_fir_stop_tx_def join_tx_def wi_fir_tx_worker_returned_def wi_fir_tx_worker_post_def Let_def)

lemma stop_tx_posted:
  "posted (wi_fir_stop_tx ok app) =
     posted app @ (if tx_thread app = Some TxPosting then [WiFirCustomEventTxFinished] else [])"
  by (simp add: wi_fir_stop_tx_def join_tx_def wi_fir_tx_worker_returned_def wi_fir_tx_worker_post_def Let_def)

lemma stop_tx_ended: "tx_thread app = Some TxEnded \<Longrightarrow> tx_ok (wi_fir_stop_tx ok app) = tx_ok app"
  by (simp add: wi_fir_stop_tx_def join_tx_def Let_def)

lemma start_tx_sel [simp]:
  "tx_thread (wi_fir_start_tx ok app) = Some TxSending" "\<not> ir_worker (wi_fir_start_tx ok app)"
  "ack_timer (wi_fir_start_tx ok app) = None" "\<not> retry_allowed (wi_fir_start_tx ok app)"
  "\<not> tx_cancel (wi_fir_start_tx ok app)"
  "status_mode (status (wi_fir_start_tx ok app)) = WfrStatusModeTransmit"
  "posted (wi_fir_start_tx ok app) = posted (wi_fir_stop_tx ok (wi_fir_stop_ack_listener app))"
  by (simp_all add: wi_fir_start_tx_def Let_def)

lemma show_failure_sel [simp]:
  "tx_thread (wi_fir_show_failure b t l1 l2 r app) = tx_thread app"
  "ir_worker (wi_fir_show_failure b t l1 l2 r app) = ir_worker app"
  "ack_timer (wi_fir_show_failure b t l1 l2 r app) = ack_timer app"
  "status_mode (status (wi_fir_show_failure b t l1 l2 r app)) = WfrStatusModeResult"
  "posted (wi_fir_show_failure b t l1 l2 r app) = posted app"
  "requests (wi_fir_show_failure b t l1 l2 r app) = requests app"
  by (simp_all add: wi_fir_show_failure_def)

lemma rx_callback_sel [simp]:
  "tx_thread (wi_fir_ir_rx_callback m t s app) = tx_thread app"
  "tx_cancel (wi_fir_ir_rx_callback m t s app) = tx_cancel app"
  "ir_worker (wi_fir_ir_rx_callback m t s app) = ir_worker app"
  "ack_timer (wi_fir_ir_rx_callback m t s app) = ack_timer app"
  "retry_allowed (wi_fir_ir_rx_callback m t s app) = retry_allowed app"
  "status (wi_fir_ir_rx_callback m t s app) = status app" for app :: "'w WiFirApp"
  by (simp_all add: wi_fir_ir_rx_callback_def Let_def split: option.splits prod.splits)

lemma rx_callback_posted:
  "posted (wi_fir_ir_rx_callback m t s app) = posted app
   \<or> posted (wi_fir_ir_rx_callback m t s app) = posted app @ [WiFirCustomEventAckSuccess]
   \<or> posted (wi_fir_ir_rx_callback m t s app) = posted app @ [WiFirCustomEventAckFail]" for app :: "'w WiFirApp"
  by (auto simp: wi_fir_ir_rx_callback_def Let_def split: option.splits prod.splits)

section \<open>The scene as it runs\<close>

text \<open>
  \<open>LeftScene\<close>: the scene manager has run the scene's exit handler. \<open>handled\<close>: one event is given to the
  handler; when it asks to go back to the main menu, the scene manager leaves the scene at once.
\<close>

datatype 'w scene_run = InScene "'w WiFirApp" | LeftScene "'w WiFirApp"

definition handled :: "'w flipper_storage \<Rightarrow> bool \<Rightarrow> SceneManagerEvent \<Rightarrow> 'w WiFirApp \<Rightarrow> 'w scene_run" where
  "handled env ok event app =
     (let app' = snd (wi_fir_scene_transmit_on_event env ok event app) in
      if SearchAndSwitchToPreviousScene WiFirSceneMainMenu \<in> set (drop (length (requests app)) (requests app'))
      then LeftScene (wi_fir_scene_transmit_on_exit ok app') else InScene app')"

definition is_ack_event :: "WiFirCustomEvent \<Rightarrow> bool" where
  "is_ack_event ev \<longleftrightarrow> ev \<in> {WiFirCustomEventAckSuccess, WiFirCustomEventAckFail, WiFirCustomEventAckTimeout}"

definition is_key_event :: "WiFirCustomEvent \<Rightarrow> bool" where
  "is_key_event ev \<longleftrightarrow> ev \<in> {WiFirCustomEventStatusLeft, WiFirCustomEventStatusRight, WiFirCustomEventStatusOk}"

text \<open>
  Entering, with nothing left over from an earlier visit; then, in any order: the transmit thread's
  progress, return and post; a received signal; the timer; a key; an animation frame; the next queued
  event; a tick; Back. \<open>ok\<close>, \<open>n\<close>, \<open>tot\<close>, \<open>t\<close> and \<open>s\<close> are arbitrary: what the transmission returns, what
  it reports, and what the infrared receiver hears.
\<close>

inductive transmit_reach :: "'w flipper_storage \<Rightarrow> (nat \<Rightarrow> u32) \<Rightarrow> 'w scene_run \<Rightarrow> bool"
  for env m where
  enter: "tx_thread app = None \<Longrightarrow> \<not> ir_worker app \<Longrightarrow> ack_timer app = None \<Longrightarrow>
     \<forall>ev \<in> set (posted app). \<not> is_ack_event ev \<and> ev \<noteq> WiFirCustomEventTxFinished \<Longrightarrow>
     transmit_reach env m (InScene (wi_fir_scene_transmit_on_enter ok app))"
| progress: "transmit_reach env m (InScene app) \<Longrightarrow> tx_thread app = Some TxSending \<Longrightarrow>
     transmit_reach env m (InScene (snd (wi_fir_tx_progress n tot app)))"
| returned: "transmit_reach env m (InScene app) \<Longrightarrow> tx_thread app = Some TxSending \<Longrightarrow>
     transmit_reach env m (InScene (wi_fir_tx_worker_returned ok app))"
| posts: "transmit_reach env m (InScene app) \<Longrightarrow> tx_thread app = Some TxPosting \<Longrightarrow>
     transmit_reach env m (InScene (wi_fir_tx_worker_post app))"
| signal: "transmit_reach env m (InScene app) \<Longrightarrow> ir_worker app \<Longrightarrow>
     transmit_reach env m (InScene (wi_fir_ir_rx_callback m t s app))"
| timer: "transmit_reach env m (InScene app) \<Longrightarrow> ack_timer app = Some TimerArmed \<Longrightarrow>
     transmit_reach env m (InScene (wi_fir_ack_timeout_callback (app\<lparr>ack_timer := Some TimerFired\<rparr>)))"
| key: "transmit_reach env m (InScene app) \<Longrightarrow> wfr_status_view_input e (status app) = (True, Some k) \<Longrightarrow>
     transmit_reach env m (InScene (wi_fir_status_callback k app))"
| frame: "transmit_reach env m (InScene app) \<Longrightarrow>
     transmit_reach env m (InScene (show_status wfr_status_view_tick app))"
| deliver: "transmit_reach env m (InScene app) \<Longrightarrow> posted app = ev # rest \<Longrightarrow>
     transmit_reach env m (handled env ok (SceneManagerEventTypeCustom ev) (app\<lparr>posted := rest\<rparr>))"
| tick: "transmit_reach env m (InScene app) \<Longrightarrow>
     transmit_reach env m (handled env ok SceneManagerEventTypeTick app)"
| back_key: "transmit_reach env m (InScene app) \<Longrightarrow>
     transmit_reach env m (handled env ok SceneManagerEventTypeBack app)"

section \<open>The invariant\<close>

text \<open>
  The queue tells where the scene is. While the thread lives no acknowledgement event is queued, and
  its one \<open>TxFinished\<close> is behind all key events; while the listener is on no key event is queued;
  otherwise every acknowledgement event is in front of every key event.
\<close>

definition no_ev :: "(WiFirCustomEvent \<Rightarrow> bool) \<Rightarrow> WiFirCustomEvent list \<Rightarrow> bool" where
  "no_ev P q \<longleftrightarrow> (\<forall>ev \<in> set q. \<not> P ev)"

lemma no_ev_simps [simp]:
  "no_ev P []" "no_ev P (e # q) \<longleftrightarrow> \<not> P e \<and> no_ev P q" "no_ev P (q @ r) \<longleftrightarrow> no_ev P q \<and> no_ev P r"
  by (auto simp: no_ev_def)

abbreviation is_tx_event :: "WiFirCustomEvent \<Rightarrow> bool" where
  "is_tx_event ev \<equiv> ev = WiFirCustomEventTxFinished"

definition acks_first :: "WiFirCustomEvent list \<Rightarrow> bool" where
  "acks_first q \<longleftrightarrow> no_ev is_ack_event (dropWhile (\<lambda>ev. \<not> is_key_event ev) q)"

lemma acks_first_simps:
  "acks_first []"
  "acks_first (e # q) \<longleftrightarrow> (if is_key_event e then no_ev is_ack_event (e # q) else acks_first q)"
  by (simp_all add: acks_first_def)

lemma acks_first_no_keys: "no_ev is_key_event q \<Longrightarrow> acks_first q"
  by (induction q) (simp_all add: acks_first_simps)

lemma acks_first_no_acks: "no_ev is_ack_event q \<Longrightarrow> acks_first q"
  by (induction q) (simp_all add: acks_first_simps)

lemma acks_first_key: "acks_first q \<Longrightarrow> \<not> is_ack_event k \<Longrightarrow> acks_first (q @ [k])"
  by (induction q) (auto simp: acks_first_simps split: if_splits)

fun tx_last :: "WiFirCustomEvent list \<Rightarrow> bool" where
  "tx_last [] = False"
| "tx_last (e # q) =
     (if is_tx_event e then no_ev is_tx_event q \<and> no_ev is_key_event q else tx_last q)"

lemma tx_last_post: "no_ev is_tx_event q \<Longrightarrow> tx_last (q @ [WiFirCustomEventTxFinished])"
  by (induction q) auto

definition scene_inv :: "'w WiFirApp \<Rightarrow> bool" where
  "scene_inv app \<longleftrightarrow>
     (ir_worker app \<longleftrightarrow> ack_timer app \<noteq> None) \<and>
     (case tx_thread app of
        Some th \<Rightarrow> \<not> ir_worker app \<and> \<not> retry_allowed app \<and> \<not> tx_cancel app \<and> status_mode (status app) = WfrStatusModeTransmit
          \<and> no_ev is_ack_event (posted app)
          \<and> (if th = TxEnded then tx_last (posted app) else no_ev is_tx_event (posted app))
      | None \<Rightarrow> no_ev is_tx_event (posted app) \<and>
          (if ir_worker app then no_ev is_key_event (posted app) \<and> status_mode (status app) = WfrStatusModeWaiting
           else acks_first (posted app)))"

lemmas event_kinds = is_ack_event_def is_key_event_def

lemma inv_enter:
  assumes "tx_thread app = None" "\<forall>ev \<in> set (posted app). \<not> is_ack_event ev \<and> ev \<noteq> WiFirCustomEventTxFinished"
  shows "scene_inv (wi_fir_scene_transmit_on_enter ok app)"
  using assms
  by (simp add: scene_inv_def wi_fir_scene_transmit_on_enter_def stop_tx_posted no_ev_def)

lemma inv_progress: "scene_inv app \<Longrightarrow> tx_thread app = Some TxSending \<Longrightarrow> scene_inv (snd (wi_fir_tx_progress n tot app))"
  by (auto simp: scene_inv_def wi_fir_tx_progress_def)

lemma inv_returned: "scene_inv app \<Longrightarrow> tx_thread app = Some TxSending \<Longrightarrow>
    scene_inv (wi_fir_tx_worker_returned ok app)"
  by (auto simp: scene_inv_def wi_fir_tx_worker_returned_def Let_def)

lemma inv_posts: "scene_inv app \<Longrightarrow> tx_thread app = Some TxPosting \<Longrightarrow> scene_inv (wi_fir_tx_worker_post app)"
  by (auto simp: scene_inv_def wi_fir_tx_worker_post_def tx_last_post event_kinds)

lemma inv_signal: "scene_inv app \<Longrightarrow> ir_worker app \<Longrightarrow> scene_inv (wi_fir_ir_rx_callback m t s app)" for app :: "'w WiFirApp"
  using rx_callback_posted [of m t s app]
  by (auto simp: scene_inv_def event_kinds split: option.splits)

lemma inv_timer: "scene_inv app \<Longrightarrow> ack_timer app = Some TimerArmed \<Longrightarrow>
    scene_inv (wi_fir_ack_timeout_callback (app\<lparr>ack_timer := Some TimerFired\<rparr>))"
  by (auto simp: scene_inv_def wi_fir_ack_timeout_callback_def event_kinds split: option.splits)

lemma inv_key: "scene_inv app \<Longrightarrow> wfr_status_view_input e (status app) = (True, Some k) \<Longrightarrow>
    scene_inv (wi_fir_status_callback k app)"
  using status_input_modes(1) [of e "status app" "Some k"]
  by (auto simp: scene_inv_def wi_fir_status_callback_def event_kinds acks_first_key split: option.splits)

lemma inv_frame: "scene_inv app \<Longrightarrow> scene_inv (show_status wfr_status_view_tick app)"
  by (auto simp: scene_inv_def split: option.splits)

text \<open>What the invariant says of the event at the head of the queue.\<close>

lemma inv_head:
  assumes "scene_inv app" "posted app = ev # rest"
  shows "ev = WiFirCustomEventTxFinished \<Longrightarrow> tx_thread app = Some TxEnded \<and> \<not> ir_worker app
      \<and> ack_timer app = None \<and> no_ev is_tx_event rest \<and> no_ev is_key_event rest \<and> no_ev is_ack_event rest"
    and "is_ack_event ev \<Longrightarrow> tx_thread app = None \<and> no_ev is_tx_event rest \<and> acks_first rest"
    and "retry_allowed app \<Longrightarrow> is_key_event ev \<Longrightarrow> tx_thread app = None \<and> \<not> ir_worker app
      \<and> ack_timer app = None \<and> no_ev is_tx_event rest \<and> no_ev is_ack_event rest"
    and "\<not> is_ack_event ev \<Longrightarrow> ev \<noteq> WiFirCustomEventTxFinished \<Longrightarrow> scene_inv (app\<lparr>posted := rest\<rparr>)"
  using assms
  by (auto simp: scene_inv_def acks_first_simps acks_first_no_keys acks_first_no_acks event_kinds
      split: option.splits if_splits)

lemma inv_idle:
  "tx_thread app = None \<Longrightarrow> \<not> ir_worker app \<Longrightarrow> ack_timer app = None \<Longrightarrow> no_ev is_tx_event (posted app) \<Longrightarrow>
     acks_first (posted app) \<Longrightarrow> scene_inv app"
  by (simp add: scene_inv_def)

lemma on_tx_finished_sel:
  assumes "tx_thread app = Some TxEnded"
  shows "tx_thread (wi_fir_on_tx_finished env ok app) = None"
    and "posted (wi_fir_on_tx_finished env ok app) = posted app"
    and "ir_worker (wi_fir_on_tx_finished env ok app) = (ir_worker app \<or> tx_ok app \<and> ack_enabled app)"
    and "ack_timer (wi_fir_on_tx_finished env ok app) =
      (if tx_ok app \<and> ack_enabled app then Some TimerArmed else ack_timer app)"
    and "tx_ok app \<and> ack_enabled app \<Longrightarrow>
      status_mode (status (wi_fir_on_tx_finished env ok app)) = WfrStatusModeWaiting"
  using assms by (simp_all add: wi_fir_on_tx_finished_def Let_def stop_tx_ended stop_tx_posted)

text \<open>The listener that is started when the transmission has succeeded.\<close>

lemma on_tx_finished_listens:
  assumes "tx_thread app = Some TxEnded" and "tx_ok app" and "ack_enabled app"
  shows "ack_decoder (wi_fir_on_tx_finished env ok app) = wfr_ack_decode_init"
    and "ack_result_text (wi_fir_on_tx_finished env ok app) = []"
  using assms by (simp_all add: wi_fir_on_tx_finished_def Let_def stop_tx_ended wi_fir_start_ack_listener_def
      show_status_def ask_def)

lemma scene_inv_dismiss: "scene_inv (wi_fir_dismiss app) = scene_inv app"
  by (auto simp: scene_inv_def wi_fir_dismiss_def split: option.splits)

lemma transmit_on_custom_inv:
  assumes inv: "scene_inv app" and q: "posted app = ev # rest"
  shows "scene_inv (snd (transmit_on_custom env ok ev (app\<lparr>posted := rest\<rparr>)))"
proof -
  note h = inv_head [OF inv q]
  consider "ev = WiFirCustomEventTxFinished" | "is_ack_event ev"
    | "ev = WiFirCustomEventStatusRight" "retry_allowed app"
    | "\<not> is_ack_event ev" "ev \<noteq> WiFirCustomEventTxFinished" "ev = WiFirCustomEventStatusRight \<longrightarrow> \<not> retry_allowed app"
    by blast
  then show ?thesis
  proof cases
    case 1
    let ?app = "app\<lparr>posted := rest\<rparr>"
    have "tx_thread ?app = Some TxEnded"
      using h(1) [OF 1] by simp
    then show ?thesis
      using h(1) [OF 1] 1 on_tx_finished_sel [of ?app env ok]
      by (auto simp: transmit_on_custom_def scene_inv_def acks_first_no_acks)
  next
    case 2
    then show ?thesis
      using h(2) by (auto simp: transmit_on_custom_def Let_def is_ack_event_def intro!: inv_idle)
  next
    case 3
    then show ?thesis
      using h(3) by (auto simp: transmit_on_custom_def is_key_event_def scene_inv_def stop_tx_posted)
  next
    case 4
    then have "snd (transmit_on_custom env ok ev (app\<lparr>posted := rest\<rparr>)) = app\<lparr>posted := rest\<rparr>
        \<or> snd (transmit_on_custom env ok ev (app\<lparr>posted := rest\<rparr>)) = wi_fir_dismiss (app\<lparr>posted := rest\<rparr>)"
      by (auto simp: transmit_on_custom_def is_ack_event_def)
    then show ?thesis
      using h(4) [OF 4(1,2)] by (auto simp: scene_inv_dismiss)
  qed
qed

lemma scene_inv_ticks: "scene_inv (app\<lparr>dismiss_ticks := n\<rparr>) = scene_inv app"
  by (auto simp: scene_inv_def split: option.splits)

lemma on_event_inv:
  "scene_inv app \<Longrightarrow> event \<in> {SceneManagerEventTypeTick, SceneManagerEventTypeBack} \<Longrightarrow>
     scene_inv (snd (wi_fir_scene_transmit_on_event env ok event app))"
  by (auto simp: wi_fir_scene_transmit_on_event_def scene_inv_dismiss scene_inv_ticks Let_def)

text \<open>Everything the scene owns is gone once its exit handler has run, whatever state it was in.\<close>

definition idle :: "'w WiFirApp \<Rightarrow> bool" where
  "idle app \<longleftrightarrow> tx_thread app = None \<and> \<not> ir_worker app \<and> ack_timer app = None \<and> dismiss_ticks app = 0"

lemma on_exit_idle: "idle (wi_fir_scene_transmit_on_exit ok app)"
  by (simp add: idle_def wi_fir_scene_transmit_on_exit_def Let_def)

definition run_ok :: "'w scene_run \<Rightarrow> bool" where
  "run_ok s = (case s of InScene app \<Rightarrow> scene_inv app | LeftScene app \<Rightarrow> idle app)"

lemma run_ok_simps [simp]: "run_ok (InScene app) = scene_inv app" "run_ok (LeftScene app) = idle app"
  by (simp_all add: run_ok_def)

lemma handled_ok: "scene_inv (snd (wi_fir_scene_transmit_on_event env ok event app)) \<Longrightarrow> run_ok (handled env ok event app)"
  by (simp add: handled_def Let_def on_exit_idle)

lemma transmit_reach_ok: "transmit_reach env m s \<Longrightarrow> run_ok s"
proof (induction rule: transmit_reach.induct)
  case (deliver app ev rest ok)
  then show ?case
    using transmit_on_custom_inv [of app ev rest env ok]
    by (intro handled_ok) (simp add: wi_fir_scene_transmit_on_event_def)
qed (auto simp: inv_enter inv_progress inv_returned inv_posts inv_signal inv_timer inv_key inv_frame
    on_event_inv handled_ok)

section \<open>The properties of the scene\<close>

text \<open>
  C35: the transmit scene never loses a thread, a worker or a timer. In every state it can reach, with
  keys, ticks, signals, timeouts, the thread's steps and the delivery of queued events in any order, the
  thread and the listener are never alive together; the listener's worker and timer are there together
  or not at all; when the transmission's end is handled the thread has ended and no listener is on, and
  when Retry starts a transmission no thread is left, so neither overwrites a live object. Once the
  scene is left, nothing it started is alive and no dismissal is pending.
\<close>

theorem transmit_scene_resources:
  assumes "transmit_reach env m s"
  shows "case s of
      InScene app \<Rightarrow>
        (tx_thread app \<noteq> None \<longrightarrow> \<not> ir_worker app \<and> ack_timer app = None)
        \<and> (ir_worker app \<longleftrightarrow> ack_timer app \<noteq> None)
        \<and> (\<forall>rest. posted app = WiFirCustomEventTxFinished # rest \<longrightarrow>
             tx_thread app = Some TxEnded \<and> \<not> ir_worker app \<and> ack_timer app = None)
        \<and> (\<forall>rest. posted app = WiFirCustomEventStatusRight # rest \<and> retry_allowed app \<longrightarrow>
             tx_thread app = None \<and> \<not> ir_worker app)
    | LeftScene app \<Rightarrow> tx_thread app = None \<and> \<not> ir_worker app \<and> ack_timer app = None \<and> dismiss_ticks app = 0"
proof (cases s)
  case (InScene app)
  then have inv: "scene_inv app"
    using transmit_reach_ok [OF assms] by simp
  then show ?thesis
    using InScene inv_head(1,3) [OF inv]
    by (auto simp: is_key_event_def scene_inv_def split: option.splits)
next
  case (LeftScene app)
  then show ?thesis
    using transmit_reach_ok [OF assms] by (simp add: idle_def)
qed

definition sent_app :: "card WiFirApp" where
  "sent_app = wi_fir_tx_worker_post (wi_fir_tx_worker_returned True
     (wi_fir_scene_transmit_on_enter True (wi_fir_alloc mem_storage empty_card)))"

theorem transmit_scene_resources_witness:
  "case InScene sent_app of
      InScene app \<Rightarrow>
        (tx_thread app \<noteq> None \<longrightarrow> \<not> ir_worker app \<and> ack_timer app = None)
        \<and> (ir_worker app \<longleftrightarrow> ack_timer app \<noteq> None)
        \<and> (\<forall>rest. posted app = WiFirCustomEventTxFinished # rest \<longrightarrow>
             tx_thread app = Some TxEnded \<and> \<not> ir_worker app \<and> ack_timer app = None)
        \<and> (\<forall>rest. posted app = WiFirCustomEventStatusRight # rest \<and> retry_allowed app \<longrightarrow>
             tx_thread app = None \<and> \<not> ir_worker app)
    | LeftScene app \<Rightarrow> tx_thread app = None \<and> \<not> ir_worker app \<and> ack_timer app = None \<and> dismiss_ticks app = 0"
proof (rule transmit_scene_resources [where env = mem_storage and m = of_nat])
  let ?a = "wi_fir_alloc mem_storage empty_card"
  have fields: "tx_thread ?a = None" "\<not> ir_worker ?a" "ack_timer ?a = None" "posted ?a = []"
    by (simp_all add: wi_fir_alloc_def zero_app_def Let_def split: prod.splits)
  have "transmit_reach mem_storage of_nat (InScene (wi_fir_scene_transmit_on_enter True ?a))"
    by (rule transmit_reach.enter) (simp_all add: fields)
  then have "transmit_reach mem_storage of_nat
      (InScene (wi_fir_tx_worker_returned True (wi_fir_scene_transmit_on_enter True ?a)))"
    by (rule transmit_reach.returned) (simp add: wi_fir_scene_transmit_on_enter_def)
  then show "transmit_reach mem_storage of_nat (InScene sent_app)"
    unfolding sent_app_def
    by (rule transmit_reach.posts)
      (simp add: wi_fir_tx_worker_returned_def wi_fir_scene_transmit_on_enter_def)
qed

lemma listen_reach:
  "transmit_reach env m (InScene app) \<Longrightarrow> ir_worker app \<Longrightarrow>
     transmit_reach env m (InScene (listen m sigs app)) \<and> ir_worker (listen m sigs app)
     \<and> ack_timer (listen m sigs app) = ack_timer app \<and> retry_allowed (listen m sigs app) = retry_allowed app" for app :: "'w WiFirApp"
proof (induction sigs arbitrary: app)
  case (Cons s sigs)
  obtain t sg where s: "s = (t, sg)" by (cases s)
  show ?case
    using Cons.IH [of "wi_fir_ir_rx_callback m t sg app"] transmit_reach.signal [OF Cons.prems] Cons.prems(2)
    by (simp add: s)
qed simp

text \<open>Signals are heard, and before the dispatcher handles an event the acknowledgement timer expires.\<close>

definition heard_then_expired :: "(nat \<Rightarrow> u32) \<Rightarrow> ((u32 \<times> u32) \<times> InfraredMessage option) list \<Rightarrow> 'w WiFirApp \<Rightarrow> 'w WiFirApp" where
  "heard_then_expired m sigs app = wi_fir_ack_timeout_callback ((listen m sigs app)\<lparr>ack_timer := Some TimerFired\<rparr>)"

text \<open>
  C39: an acknowledgement that comes just before the timeout is hidden. The acknowledgement and the
  30-second timer post their events from different threads. From every reachable state in which the scene
  listens with its timer running, no event queued and no acknowledgement begun: when all frames of an OK
  acknowledgement are heard in time and the timer expires before the success event is handled, the success
  and the timeout are queued, in that order; handling the first shows "Connected" with the address, and
  handling the second replaces it: from then on the scene has taken the address in but shows "No reply",
  offers Resend and does not return to the menu by itself, with no event left that could correct it.
\<close>

theorem late_timeout_hides_success:
  assumes "transmit_reach env m (InScene app)" and "ir_worker app" and "ack_timer app = Some TimerArmed"
    and "posted app = []" and "ack_decoder app = wfr_ack_decode_init"
    and "nul_free ip" and "length ip \<le> 252" and "within_ticks m (signal_frames sigs)"
    and "filter (\<lambda>f. frame_magic (fst f)) (map snd (signal_frames sigs)) = wfr_frames 0 (map byte_of_char (''OK:'' @ ip))"
  shows "transmit_reach env m (InScene (heard_then_expired m sigs app))
    \<and> posted (heard_then_expired m sigs app) = [WiFirCustomEventAckSuccess, WiFirCustomEventAckTimeout]
    \<and> (\<exists>shown late. handled env ok (SceneManagerEventTypeCustom WiFirCustomEventAckSuccess)
            ((heard_then_expired m sigs app)\<lparr>posted := [WiFirCustomEventAckTimeout]\<rparr>) = InScene shown
        \<and> posted shown = [WiFirCustomEventAckTimeout]
        \<and> status_mode (status shown) = WfrStatusModeConnected \<and> line1 (status shown) = take 31 ip
        \<and> handled env ok (SceneManagerEventTypeCustom WiFirCustomEventAckTimeout) (shown\<lparr>posted := []\<rparr>) = InScene late
        \<and> transmit_reach env m (InScene late) \<and> ack_result_text late = take 63 ip
        \<and> status_mode (status late) = WfrStatusModeResult \<and> title (status late) = ''No reply''
        \<and> retry_allowed late \<and> dismiss_ticks late = 0 \<and> posted late = [])"
proof -
  let ?heard = "listen m sigs app" and ?both = "heard_then_expired m sigs app"
  have heard: "posted ?heard = [WiFirCustomEventAckSuccess]" "ack_result_text ?heard = take 63 ip"
    using listen_one [OF _ _ assms(8,9,5)] assms(4,6,7)
    by (simp_all add: ack_event_def ack_text_def strncmp_eq_def str_trunc_def WFR_ACK_PREFIX_OK_def numeral_eq_Suc)
  have both: "transmit_reach env m (InScene ?both)"
    unfolding heard_then_expired_def
    using listen_reach [OF assms(1,2), of sigs] assms(3) by (intro transmit_reach.timer) simp_all
  have posted: "posted ?both = [WiFirCustomEventAckSuccess, WiFirCustomEventAckTimeout]" "ack_result_text ?both = take 63 ip"
    by (simp_all add: heard_then_expired_def wi_fir_ack_timeout_callback_def heard post_def)
  obtain shown where shown: "handled env ok (SceneManagerEventTypeCustom WiFirCustomEventAckSuccess)
      (?both\<lparr>posted := [WiFirCustomEventAckTimeout]\<rparr>) = InScene shown"
    "posted shown = [WiFirCustomEventAckTimeout]" "ack_result_text shown = take 63 ip"
    "status_mode (status shown) = WfrStatusModeConnected" "line1 (status shown) = take 31 ip"
    using posted(2)
    by (auto simp: handled_def wi_fir_scene_transmit_on_event_def transmit_on_custom_def Let_def
        wi_fir_stop_ack_listener_def ask_def post_def show_status_def wfr_status_view_set_connected_def str_trunc_def min_def)
  obtain late where late: "handled env ok (SceneManagerEventTypeCustom WiFirCustomEventAckTimeout)
      (shown\<lparr>posted := []\<rparr>) = InScene late" "ack_result_text late = take 63 ip" "posted late = []"
    "status_mode (status late) = WfrStatusModeResult" "title (status late) = ''No reply''"
    "retry_allowed late" "dismiss_ticks late = 0"
    using shown(3)
    by (auto simp: handled_def wi_fir_scene_transmit_on_event_def transmit_on_custom_def Let_def wi_fir_show_failure_def
        wfr_status_view_set_result_def wi_fir_stop_ack_listener_def ask_def show_status_def)
  have "transmit_reach env m (InScene shown)"
    using transmit_reach.deliver [OF both posted(1), of ok] shown(1) by simp
  then have "transmit_reach env m (InScene late)"
    using transmit_reach.deliver [OF _ shown(2), of env m ok] late(1) by simp
  with both posted(1) shown late show ?thesis by (intro conjI exI)
qed

text \<open>A scene that has sent its credentials and listens.\<close>

definition listening_app :: "card WiFirApp" where
  "listening_app = wi_fir_on_tx_finished mem_storage True ((wi_fir_tx_worker_post (wi_fir_tx_worker_returned True
     (wi_fir_scene_transmit_on_enter True ((zero_app empty_card)\<lparr>ack_enabled := True\<rparr>))))\<lparr>posted := []\<rparr>)"

lemma listening_app_reached:
  "transmit_reach mem_storage of_nat (InScene listening_app)" "ir_worker listening_app"
  "ack_timer listening_app = Some TimerArmed" "posted listening_app = []" "ack_decoder listening_app = wfr_ack_decode_init"
proof -
  let ?a = "(zero_app empty_card)\<lparr>ack_enabled := True\<rparr>"
  let ?s = "wi_fir_scene_transmit_on_enter True ?a"
  let ?r = "wi_fir_tx_worker_returned True ?s"
  let ?p = "wi_fir_tx_worker_post ?r"
  have "transmit_reach mem_storage of_nat (InScene ?s)"
    by (rule transmit_reach.enter) (simp_all add: zero_app_def)
  then have "transmit_reach mem_storage of_nat (InScene ?r)"
    by (rule transmit_reach.returned) (simp add: wi_fir_scene_transmit_on_enter_def)
  then have p: "transmit_reach mem_storage of_nat (InScene ?p)"
    by (rule transmit_reach.posts) (simp add: wi_fir_tx_worker_returned_def wi_fir_scene_transmit_on_enter_def)
  have q: "posted ?p = [WiFirCustomEventTxFinished]" "tx_thread ?p = Some TxEnded" "tx_ok ?p" "ack_enabled ?p"
    by (simp_all add: wi_fir_tx_worker_post_def wi_fir_tx_worker_returned_def wi_fir_scene_transmit_on_enter_def
        wi_fir_start_tx_def wi_fir_stop_ack_listener_def wi_fir_stop_tx_def zero_app_def ask_def post_def show_status_def Let_def)
  have e: "tx_thread (?p\<lparr>posted := []\<rparr>) = Some TxEnded" "tx_ok (?p\<lparr>posted := []\<rparr>)" "ack_enabled (?p\<lparr>posted := []\<rparr>)"
    using q by simp_all
  show "ir_worker listening_app" "ack_timer listening_app = Some TimerArmed" "posted listening_app = []"
    "ack_decoder listening_app = wfr_ack_decode_init"
    unfolding listening_app_def using on_tx_finished_sel [OF e(1)] on_tx_finished_listens [OF e] e by simp_all
  have "handled mem_storage True (SceneManagerEventTypeCustom WiFirCustomEventTxFinished) (?p\<lparr>posted := []\<rparr>) = InScene listening_app"
    using e
    by (simp add: handled_def wi_fir_scene_transmit_on_event_def transmit_on_custom_def listening_app_def
        wi_fir_on_tx_finished_def wi_fir_start_ack_listener_def stop_tx_ended ask_def show_status_def Let_def)
  then show "transmit_reach mem_storage of_nat (InScene listening_app)"
    using transmit_reach.deliver [OF p q(1), of True] by simp
qed

theorem late_timeout_hides_success_witness:
  "let sigs = rc6_signals 9 (wfr_frames 0 (map byte_of_char (''OK:'' @ ''10.0.0.7'')));
       both = heard_then_expired of_nat sigs listening_app in
     posted both = [WiFirCustomEventAckSuccess, WiFirCustomEventAckTimeout]
     \<and> (\<exists>shown late. handled mem_storage True (SceneManagerEventTypeCustom WiFirCustomEventAckSuccess)
            (both\<lparr>posted := [WiFirCustomEventAckTimeout]\<rparr>) = InScene shown
        \<and> line1 (status shown) = ''10.0.0.7''
        \<and> handled mem_storage True (SceneManagerEventTypeCustom WiFirCustomEventAckTimeout) (shown\<lparr>posted := []\<rparr>) = InScene late
        \<and> title (status late) = ''No reply'' \<and> retry_allowed late)"
proof -
  let ?p = "''OK:'' @ ''10.0.0.7''"
  let ?s = "rc6_signals 9 (wfr_frames 0 (map byte_of_char ?p))"
  have t: "within_ticks of_nat (signal_frames ?s)"
    by (simp add: within_ticks_def in_window_def list_all_iff tick_near_def WFR_ACK_TIMEOUT_SEC_def)
  have f: "filter (\<lambda>f. frame_magic (fst f)) (map snd (signal_frames ?s)) = wfr_frames 0 (map byte_of_char ?p)"
    by (simp only: signal_frames_rc6 map_map comp_def snd_conv map_ident filter_magic_frames [of 0] bit.conj_zero_left)
  have ip: "nul_free ''10.0.0.7''" "length ''10.0.0.7'' \<le> 252"
    by simp_all
  have take: "take 31 ''10.0.0.7'' = ''10.0.0.7''"
    by simp
  show ?thesis
    using late_timeout_hides_success [OF listening_app_reached ip t f, of True]
    unfolding Let_def take by blast
qed

end
