(* ===== verification/Scenes.thy ===== *)
theory Scenes
  imports Transmit_Scene Nfc
begin

text \<open>
  The other scenes of the application, \<^verbatim>\<open>flipper/scenes\<close>: the main menu, the editors, the confirmation
  with its delete dialog, NFC scanning, the saved list, settings and about, and the handler tables of
  \<^verbatim>\<open>wi_fir_scene.c\<close>. A handler returns whether it consumed the event and the new state. The text input
  module writes \<open>text_input_buf\<close>; the variable item list hands back the index of a value.
\<close>

section \<open>Main menu\<close>

definition main_menu_events :: "WiFirCustomEvent list" where
  "main_menu_events = [WiFirCustomEventMainMenuCredentials, WiFirCustomEventMainMenuScanNfc,
     WiFirCustomEventMainMenuSaved, WiFirCustomEventMainMenuSettings, WiFirCustomEventMainMenuAbout]"

definition wi_fir_scene_main_menu_callback :: "nat \<Rightarrow> 'w WiFirApp \<Rightarrow> 'w WiFirApp" where
  "wi_fir_scene_main_menu_callback index app =
     (if index < length main_menu_events then post (main_menu_events ! index) app else app)"

definition wi_fir_scene_main_menu_on_enter :: "'w WiFirApp \<Rightarrow> 'w WiFirApp" where
  "wi_fir_scene_main_menu_on_enter app =
     (let m = wfr_menu_view_reset (menu app);
          m = wfr_menu_view_add_item ''Send Credentials'' ''menu_keyboard_22x18'' m;
          m = wfr_menu_view_add_item ''Scan NFC Tag'' ''menu_nfc_20x16'' m;
          m = wfr_menu_view_add_item ''Saved Networks'' ''menu_saved_20x20'' m;
          m = wfr_menu_view_add_item ''Settings'' ''menu_settings_24x24'' m;
          m = wfr_menu_view_add_item ''About'' ''menu_about_20x20'' m;
          m = wfr_menu_view_set_selected (scene_state app WiFirSceneMainMenu) m
      in ask (SwitchToView WiFirViewMenu) (app\<lparr>menu := m\<rparr>))"

definition set_scene_state :: "WiFirScene \<Rightarrow> nat \<Rightarrow> 'w WiFirApp \<Rightarrow> 'w WiFirApp" where
  "set_scene_state s n app = app\<lparr>scene_state := (scene_state app)(s := n)\<rparr>"

definition go_from_menu :: "nat \<Rightarrow> WiFirScene \<Rightarrow> 'w WiFirApp \<Rightarrow> bool \<times> 'w WiFirApp" where
  "go_from_menu index s app = (True, ask (NextScene s) (set_scene_state WiFirSceneMainMenu index app))"

definition wi_fir_scene_main_menu_on_event :: "SceneManagerEvent \<Rightarrow> 'w WiFirApp \<Rightarrow> bool \<times> 'w WiFirApp" where
  "wi_fir_scene_main_menu_on_event event app =
     (case event of
        SceneManagerEventTypeCustom ev \<Rightarrow>
          (if ev = WiFirCustomEventMainMenuCredentials then go_from_menu 0 WiFirSceneEditSsid app
           else if ev = WiFirCustomEventMainMenuScanNfc then go_from_menu 1 WiFirSceneScanNfc app
           else if ev = WiFirCustomEventMainMenuSaved then go_from_menu 2 WiFirSceneSaved app
           else if ev = WiFirCustomEventMainMenuSettings then go_from_menu 3 WiFirSceneSettings app
           else if ev = WiFirCustomEventMainMenuAbout then go_from_menu 4 WiFirSceneAbout app
           else (False, app))
      | _ \<Rightarrow> (False, app))"

section \<open>Editing\<close>

definition wi_fir_scene_edit_callback :: "'w WiFirApp \<Rightarrow> 'w WiFirApp" where
  "wi_fir_scene_edit_callback app = post WiFirCustomEventTextInputDone app"

definition wi_fir_scene_edit_ssid_on_enter :: "'w WiFirApp \<Rightarrow> 'w WiFirApp" where
  "wi_fir_scene_edit_ssid_on_enter app =
     (let app = app\<lparr>text_input_buf := str_trunc 63 (app_ssid app)\<rparr>;
          app = ask (ResetModule WiFirViewTextInput) app
      in ask (SwitchToView WiFirViewTextInput) app)"

definition wi_fir_scene_edit_ssid_on_event :: "SceneManagerEvent \<Rightarrow> 'w WiFirApp \<Rightarrow> bool \<times> 'w WiFirApp" where
  "wi_fir_scene_edit_ssid_on_event event app =
     (if event = SceneManagerEventTypeCustom WiFirCustomEventTextInputDone
      then (True, ask (NextScene WiFirSceneEditPassword)
             (app\<lparr>app_ssid := str_trunc WFR_SSID_MAX_LEN (text_input_buf app)\<rparr>))
      else (False, app))"

definition wi_fir_scene_edit_password_on_enter :: "'w WiFirApp \<Rightarrow> 'w WiFirApp" where
  "wi_fir_scene_edit_password_on_enter app =
     (let app = app\<lparr>text_input_buf := str_trunc 63 (app_password app)\<rparr>;
          app = ask (ResetModule WiFirViewTextInput) app
      in ask (SwitchToView WiFirViewTextInput) app)"

definition wi_fir_scene_edit_password_on_event :: "SceneManagerEvent \<Rightarrow> 'w WiFirApp \<Rightarrow> bool \<times> 'w WiFirApp" where
  "wi_fir_scene_edit_password_on_event event app =
     (if event = SceneManagerEventTypeCustom WiFirCustomEventTextInputDone
      then (True, ask (NextScene WiFirSceneEditSecurity)
             (app\<lparr>app_password := str_trunc WFR_PASS_MAX_LEN (text_input_buf app)\<rparr>))
      else (False, app))"

definition wi_fir_scene_edit_on_exit :: "'w WiFirApp \<Rightarrow> 'w WiFirApp" where
  "wi_fir_scene_edit_on_exit app = ask (ResetModule WiFirViewTextInput) app"

text \<open>Reading an array of strings: \<open>None\<close> is a read outside of it.\<close>

definition array_get :: "'a list \<Rightarrow> nat \<Rightarrow> 'a option" where
  "array_get xs i = (if i < length xs then Some (xs ! i) else None)"

definition security_names :: "string list" where
  "security_names = [''Open'', ''WPA'', ''WEP'', ''SAE'']"

definition hidden_names :: "string list" where
  "hidden_names = [''No'', ''Yes'']"

definition wi_fir_scene_edit_security_change_callback :: "byte \<Rightarrow> 'w WiFirApp \<Rightarrow> 'w WiFirApp option" where
  "wi_fir_scene_edit_security_change_callback index app =
     (case array_get security_names (unat index) of
        None \<Rightarrow> None
      | Some name \<Rightarrow> Some (ask (VariableItem ''Security'' (unat index) name) (app\<lparr>security_type := index\<rparr>)))"

definition wi_fir_scene_edit_hidden_change_callback :: "byte \<Rightarrow> 'w WiFirApp \<Rightarrow> 'w WiFirApp option" where
  "wi_fir_scene_edit_hidden_change_callback index app =
     (case array_get hidden_names (unat index) of
        None \<Rightarrow> None
      | Some name \<Rightarrow> Some (ask (VariableItem ''Hidden SSID'' (unat index) name) (app\<lparr>app_hidden := (index = 1)\<rparr>)))"

definition wi_fir_scene_edit_security_enter_callback :: "'w WiFirApp \<Rightarrow> 'w WiFirApp" where
  "wi_fir_scene_edit_security_enter_callback app = post WiFirCustomEventSecurityDone app"

definition wi_fir_scene_edit_security_on_enter :: "'w WiFirApp \<Rightarrow> 'w WiFirApp option" where
  "wi_fir_scene_edit_security_on_enter app =
     (let app = ask (ResetModule WiFirViewVariableItemList) app in
      case array_get security_names (unat (security_type app)) of
        None \<Rightarrow> None
      | Some name \<Rightarrow>
          let app = ask (VariableItem ''Security'' (unat (security_type app)) name) app;
              h = (if app_hidden app then 1 else 0) in
          case array_get hidden_names h of
            None \<Rightarrow> None
          | Some hname \<Rightarrow>
              Some (ask (SwitchToView WiFirViewVariableItemList) (ask (VariableItem ''Hidden SSID'' h hname) app)))"

definition wi_fir_scene_edit_security_on_event :: "SceneManagerEvent \<Rightarrow> 'w WiFirApp \<Rightarrow> bool \<times> 'w WiFirApp" where
  "wi_fir_scene_edit_security_on_event event app =
     (if event = SceneManagerEventTypeCustom WiFirCustomEventSecurityDone
      then (True, ask (NextScene WiFirSceneConfirm) (app\<lparr>selected_saved_file := []\<rparr>))
      else (False, app))"

definition wi_fir_scene_variable_items_on_exit :: "'w WiFirApp \<Rightarrow> 'w WiFirApp" where
  "wi_fir_scene_variable_items_on_exit app = ask (ResetModule WiFirViewVariableItemList) app"

section \<open>Confirmation\<close>

definition wi_fir_scene_confirm_delete_callback :: "bool \<Rightarrow> 'w WiFirApp \<Rightarrow> 'w WiFirApp" where
  "wi_fir_scene_confirm_delete_callback right app =
     post (if right then WiFirCustomEventDeleteConfirmed else WiFirCustomEventDeleteCancelled) app"

definition wi_fir_scene_confirm_callback :: "WfrConfirmResult \<Rightarrow> 'w WiFirApp \<Rightarrow> 'w WiFirApp" where
  "wi_fir_scene_confirm_callback result app =
     (case result of
        WfrConfirmResultSend \<Rightarrow> post WiFirCustomEventConfirmSend app
      | WfrConfirmResultBack \<Rightarrow> post WiFirCustomEventConfirmBack app
      | WfrConfirmResultDelete \<Rightarrow> post WiFirCustomEventConfirmDelete app)"

definition wi_fir_scene_confirm_on_enter :: "'w WiFirApp \<Rightarrow> 'w WiFirApp" where
  "wi_fir_scene_confirm_on_enter app =
     ask (SwitchToView WiFirViewConfirm)
       (app\<lparr>confirm := wfr_confirm_view_set_data (app_ssid app) (security_type app)
          (app_password app \<noteq> []) (app_hidden app) (selected_saved_file app \<noteq> [])\<rparr>)"

definition wi_fir_scene_confirm_show_delete_dialog :: "'w WiFirApp \<Rightarrow> 'w WiFirApp" where
  "wi_fir_scene_confirm_show_delete_dialog app =
     (let app = ask (ResetModule WiFirViewDialogEx) app;
          app = app\<lparr>confirm_text := str_trunc 127 (''Remove '' @ [CHR 0x22] @ app_ssid app @ [CHR 0x22]
                  @ [CHR 0x0A] @ ''from saved networks?'')\<rparr>
      in ask (SwitchToView WiFirViewDialogEx) app)"

definition wi_fir_scene_confirm_on_event ::
  "'w flipper_storage \<Rightarrow> SceneManagerEvent \<Rightarrow> 'w WiFirApp \<Rightarrow> bool \<times> 'w WiFirApp" where
  "wi_fir_scene_confirm_on_event env event app =
     (case event of
        SceneManagerEventTypeCustom ev \<Rightarrow>
          (if ev = WiFirCustomEventConfirmSend then (True, ask (NextScene WiFirSceneTransmit) app)
           else if ev = WiFirCustomEventConfirmBack then (True, ask PreviousScene app)
           else if ev = WiFirCustomEventConfirmDelete then
             (True, if selected_saved_file app \<noteq> [] then wi_fir_scene_confirm_show_delete_dialog app else app)
           else if ev = WiFirCustomEventDeleteConfirmed then
             (let app = app\<lparr>sd := snd (run_state (wfr_storage_delete env (selected_saved_file app)) (sd app))\<rparr>;
                  app = app\<lparr>selected_saved_file := []\<rparr>
              in (True, ask PreviousScene app))
           else if ev = WiFirCustomEventDeleteCancelled then (True, ask (SwitchToView WiFirViewConfirm) app)
           else (False, app))
      | _ \<Rightarrow> (False, app))"

definition wi_fir_scene_confirm_on_exit :: "'w WiFirApp \<Rightarrow> 'w WiFirApp" where
  "wi_fir_scene_confirm_on_exit app = ask (ResetModule WiFirViewDialogEx) app"

section \<open>NFC scanning\<close>

definition NFC_ERROR_TICKS :: u16 where "NFC_ERROR_TICKS = 20"

datatype MfUltralightPollerEvent =
    MfUltralightPollerEventTypeRequestMode | MfUltralightPollerEventTypeAuthRequest
  | MfUltralightPollerEventTypeReadSuccess "byte list" nat
  | MfUltralightPollerEventTypeReadFailed | MfUltralightPollerEventTypeOther

datatype NfcCommand = NfcCommandContinue | NfcCommandStop | NfcCommandReset

text \<open>The reply: the command, whether the read mode was chosen, and whether authentication is skipped.\<close>

definition wi_fir_nfc_poller_callback ::
  "nat \<Rightarrow> MfUltralightPollerEvent \<Rightarrow> 'w WiFirApp \<Rightarrow> ((NfcCommand \<times> bool \<times> bool) \<times> 'w WiFirApp) outcome" where
  "wi_fir_nfc_poller_callback fuel event app =
     (case event of
        MfUltralightPollerEventTypeRequestMode \<Rightarrow> Ret ((NfcCommandContinue, True, False), app)
      | MfUltralightPollerEventTypeAuthRequest \<Rightarrow> Ret ((NfcCommandContinue, False, True), app)
      | MfUltralightPollerEventTypeReadSuccess page pages_read \<Rightarrow>
          andthen (wfr_nfc_parse_wifi_tag fuel (Some page) pages_read (Some (nfc_creds app))) (\<lambda>(found, creds).
            let app = app\<lparr>nfc_creds := the creds\<rparr>
            in Ret ((NfcCommandStop, False, False),
                 post (if found then WiFirCustomEventNfcWifiFound else WiFirCustomEventNfcNotWifi) app))
      | MfUltralightPollerEventTypeReadFailed \<Rightarrow> Ret ((NfcCommandReset, False, False), app)
      | MfUltralightPollerEventTypeOther \<Rightarrow> Ret ((NfcCommandContinue, False, False), app))"

definition wi_fir_nfc_stop :: "'w WiFirApp \<Rightarrow> 'w WiFirApp" where
  "wi_fir_nfc_stop app = (if nfc_polling app then app\<lparr>nfc_polling := False\<rparr> else app)"

definition wi_fir_nfc_start :: "'w WiFirApp \<Rightarrow> 'w WiFirApp" where
  "wi_fir_nfc_start app =
     (let app = wi_fir_nfc_stop app;
          app = app\<lparr>dismiss_ticks := 0\<rparr>;
          app = show_status wfr_status_view_set_nfc_scan app;
          app = ask (Notify ''blink_start_cyan'') app
      in app\<lparr>nfc_polling := True\<rparr>)"

definition wi_fir_nfc_show_error :: "string \<Rightarrow> string \<Rightarrow> string \<Rightarrow> 'w WiFirApp \<Rightarrow> 'w WiFirApp" where
  "wi_fir_nfc_show_error ttl l1 l2 app =
     (let app = wi_fir_nfc_stop app;
          app = ask (Notify ''blink_stop'') app;
          app = ask (Notify ''error'') app;
          app = show_status (wfr_status_view_set_result (Some ''menu_nfc_20x16'') WfrStatusBadgeCross
                  (Some ttl) (Some l1) (Some l2) None None) app
      in app\<lparr>dismiss_ticks := NFC_ERROR_TICKS\<rparr>)"

definition wi_fir_scene_scan_nfc_on_enter :: "'w WiFirApp \<Rightarrow> 'w WiFirApp" where
  "wi_fir_scene_scan_nfc_on_enter app =
     wi_fir_nfc_start (ask (SwitchToView WiFirViewStatus) (app\<lparr>status_callback := False\<rparr>))"

definition take_creds :: "WfrWifiCreds \<Rightarrow> 'w WiFirApp \<Rightarrow> 'w WiFirApp" where
  "take_creds c app = app\<lparr>app_ssid := str_trunc WFR_SSID_MAX_LEN (ssid c),
     app_password := str_trunc WFR_PASS_MAX_LEN (password c), security_type := security c, app_hidden := hidden c\<rparr>"

definition wi_fir_scene_scan_nfc_on_event :: "SceneManagerEvent \<Rightarrow> 'w WiFirApp \<Rightarrow> bool \<times> 'w WiFirApp" where
  "wi_fir_scene_scan_nfc_on_event event app =
     (case event of
        SceneManagerEventTypeCustom ev \<Rightarrow>
          (if ev = WiFirCustomEventNfcWifiFound then
             (let app = take_creds (nfc_creds app) app;
                  app = ask (Notify ''success'') app;
                  app = app\<lparr>selected_saved_file := []\<rparr>
              in (True, ask (NextScene WiFirSceneConfirm) app))
           else if ev = WiFirCustomEventNfcNotWifi then
             (True, wi_fir_nfc_show_error ''Not Wi-Fi'' ''No credentials'' ''on this tag'' app)
           else if ev = WiFirCustomEventNfcError then
             (True, wi_fir_nfc_show_error ''Read error'' ''Couldn't read tag'' ''Hold it still'' app)
           else (False, app))
      | SceneManagerEventTypeTick \<Rightarrow>
          (True, if dismiss_ticks app > 0 then
                   let app = app\<lparr>dismiss_ticks := dismiss_ticks app - 1\<rparr>
                   in if dismiss_ticks app = 0 then wi_fir_nfc_start app else app
                 else app)
      | SceneManagerEventTypeBack \<Rightarrow> (True, ask PreviousScene app))"

definition wi_fir_scene_scan_nfc_on_exit :: "'w WiFirApp \<Rightarrow> 'w WiFirApp" where
  "wi_fir_scene_scan_nfc_on_exit app =
     (wi_fir_nfc_stop (ask (Notify ''blink_stop'') app))\<lparr>dismiss_ticks := 0\<rparr>"

section \<open>Saved networks\<close>

definition wi_fir_scene_saved_callback :: "nat \<Rightarrow> 'w WiFirApp \<Rightarrow> 'w WiFirApp" where
  "wi_fir_scene_saved_callback index app =
     post WiFirCustomEventSavedSelected (set_scene_state WiFirSceneSaved index app)"

definition wi_fir_scene_saved_on_enter :: "'w flipper_storage \<Rightarrow> 'w WiFirApp \<Rightarrow> 'w WiFirApp" where
  "wi_fir_scene_saved_on_enter env app =
     (let (found, w) = run_state (wfr_storage_list env WFR_SAVED_MAX) (sd app);
          app = app\<lparr>saved := found, sd := w\<rparr>;
          l = wfr_list_view_reset (Some ''Saved Networks'') (list_view app);
          l = fold (\<lambda>n. wfr_list_view_add_item (saved_ssid n) (saved_security n \<noteq> WFR_SEC_OPEN)) (saved app) l;
          l = wfr_list_view_set_selected (scene_state app WiFirSceneSaved) l
      in ask (SwitchToView WiFirViewList) (app\<lparr>list_view := l\<rparr>))"

definition wi_fir_scene_saved_on_event ::
  "'w flipper_storage \<Rightarrow> SceneManagerEvent \<Rightarrow> 'w WiFirApp \<Rightarrow> bool \<times> 'w WiFirApp" where
  "wi_fir_scene_saved_on_event env event app =
     (if event = SceneManagerEventTypeCustom WiFirCustomEventSavedSelected then
        (let index = scene_state app WiFirSceneSaved in
         if index < length (saved app) then
           (let file = saved_file (saved app ! index);
                ((ok, creds), w) = run_state (wfr_storage_load env (Some (saved_file_path file)) zero_creds) (sd app);
                app = app\<lparr>sd := w\<rparr>
            in if ok then
                 (let app = take_creds creds app;
                      app = app\<lparr>selected_saved_file := str_trunc (WFR_FILENAME_MAX - 1) file\<rparr>
                  in (True, ask (NextScene WiFirSceneConfirm) app))
               else (False, app))
         else (False, app))
      else (False, app))"

section \<open>Settings and about\<close>

definition ack_names :: "string list" where
  "ack_names = [''Off'', ''On'']"

definition protocol_names :: "string list" where
  "protocol_names = [''RC-6'', ''NEC'']"

definition wi_fir_scene_settings_save :: "'w flipper_storage \<Rightarrow> 'w WiFirApp \<Rightarrow> 'w WiFirApp" where
  "wi_fir_scene_settings_save env app =
     app\<lparr>sd := snd (run_state (wfr_storage_save_settings env (ack_enabled app) (ir_protocol app)) (sd app))\<rparr>"

definition wi_fir_scene_settings_protocol_change :: "'w flipper_storage \<Rightarrow> byte \<Rightarrow> 'w WiFirApp \<Rightarrow> 'w WiFirApp option" where
  "wi_fir_scene_settings_protocol_change env index app =
     (case array_get protocol_names (unat index) of
        None \<Rightarrow> None
      | Some name \<Rightarrow>
          let app = app\<lparr>ir_protocol := protocol_of_uint (ucast index)\<rparr>;
              app = ask (VariableItem ''IR Protocol'' (unat index) name) app
          in Some (wi_fir_scene_settings_save env app))"

definition wi_fir_scene_settings_ack_change :: "'w flipper_storage \<Rightarrow> byte \<Rightarrow> 'w WiFirApp \<Rightarrow> 'w WiFirApp option" where
  "wi_fir_scene_settings_ack_change env index app =
     (case array_get ack_names (unat index) of
        None \<Rightarrow> None
      | Some name \<Rightarrow>
          let app = app\<lparr>ack_enabled := (index = 1)\<rparr>;
              app = ask (VariableItem ''Wait for ACK'' (unat index) name) app
          in Some (wi_fir_scene_settings_save env app))"

definition wi_fir_scene_settings_on_enter :: "'w WiFirApp \<Rightarrow> 'w WiFirApp option" where
  "wi_fir_scene_settings_on_enter app =
     (let app = ask (ResetModule WiFirViewVariableItemList) app;
          p = unat (uint_of_protocol (ir_protocol app));
          a = (if ack_enabled app then 1 else 0) in
      case array_get protocol_names p of
        None \<Rightarrow> None
      | Some pname \<Rightarrow>
          let app = ask (VariableItem ''IR Protocol'' p pname) app in
          case array_get ack_names a of
            None \<Rightarrow> None
          | Some aname \<Rightarrow>
              Some (ask (SwitchToView WiFirViewVariableItemList) (ask (VariableItem ''Wait for ACK'' a aname) app)))"

definition wi_fir_scene_about_on_enter :: "string \<Rightarrow> 'w WiFirApp \<Rightarrow> 'w WiFirApp" where
  "wi_fir_scene_about_on_enter version app =
     ask (SwitchToView WiFirViewStatus) (show_status (wfr_status_view_set_about version) app)"

definition no_event :: "SceneManagerEvent \<Rightarrow> 'w WiFirApp \<Rightarrow> bool \<times> 'w WiFirApp" where
  "no_event event app = (False, app)"

section \<open>The handler tables\<close>

definition scene_number :: "WiFirScene \<Rightarrow> nat" where
  "scene_number s = (case s of
      WiFirSceneMainMenu \<Rightarrow> 0 | WiFirSceneEditSsid \<Rightarrow> 1 | WiFirSceneEditPassword \<Rightarrow> 2
    | WiFirSceneEditSecurity \<Rightarrow> 3 | WiFirSceneConfirm \<Rightarrow> 4 | WiFirSceneTransmit \<Rightarrow> 5
    | WiFirSceneScanNfc \<Rightarrow> 6 | WiFirSceneSaved \<Rightarrow> 7 | WiFirSceneAbout \<Rightarrow> 8 | WiFirSceneSettings \<Rightarrow> 9)"

text \<open>\<open>None\<close>: the handler reads outside an array. \<open>ok\<close> is the argument of \<open>join_tx\<close>.\<close>

definition wi_fir_scene_on_enter_handlers ::
  "'w flipper_storage \<Rightarrow> string \<Rightarrow> bool \<Rightarrow> ('w WiFirApp \<Rightarrow> 'w WiFirApp option) list" where
  "wi_fir_scene_on_enter_handlers env version ok = [
     \<lambda>app. Some (wi_fir_scene_main_menu_on_enter app),
     \<lambda>app. Some (wi_fir_scene_edit_ssid_on_enter app),
     \<lambda>app. Some (wi_fir_scene_edit_password_on_enter app),
     wi_fir_scene_edit_security_on_enter,
     \<lambda>app. Some (wi_fir_scene_confirm_on_enter app),
     \<lambda>app. Some (wi_fir_scene_transmit_on_enter ok app),
     \<lambda>app. Some (wi_fir_scene_scan_nfc_on_enter app),
     \<lambda>app. Some (wi_fir_scene_saved_on_enter env app),
     \<lambda>app. Some (wi_fir_scene_about_on_enter version app),
     wi_fir_scene_settings_on_enter]"

definition wi_fir_scene_on_event_handlers ::
  "'w flipper_storage \<Rightarrow> bool \<Rightarrow> (SceneManagerEvent \<Rightarrow> 'w WiFirApp \<Rightarrow> bool \<times> 'w WiFirApp) list" where
  "wi_fir_scene_on_event_handlers env ok = [
     wi_fir_scene_main_menu_on_event,
     wi_fir_scene_edit_ssid_on_event,
     wi_fir_scene_edit_password_on_event,
     wi_fir_scene_edit_security_on_event,
     wi_fir_scene_confirm_on_event env,
     wi_fir_scene_transmit_on_event env ok,
     wi_fir_scene_scan_nfc_on_event,
     wi_fir_scene_saved_on_event env,
     no_event,
     no_event]"

definition wi_fir_scene_on_exit_handlers :: "bool \<Rightarrow> ('w WiFirApp \<Rightarrow> 'w WiFirApp) list" where
  "wi_fir_scene_on_exit_handlers ok = [
     id,
     wi_fir_scene_edit_on_exit,
     wi_fir_scene_edit_on_exit,
     wi_fir_scene_variable_items_on_exit,
     wi_fir_scene_confirm_on_exit,
     wi_fir_scene_transmit_on_exit ok,
     wi_fir_scene_scan_nfc_on_exit,
     id,
     id,
     wi_fir_scene_variable_items_on_exit]"

definition scene_on_enter :: "'w flipper_storage \<Rightarrow> string \<Rightarrow> bool \<Rightarrow> WiFirScene \<Rightarrow> 'w WiFirApp \<Rightarrow> 'w WiFirApp option" where
  "scene_on_enter env version ok s app = (wi_fir_scene_on_enter_handlers env version ok ! scene_number s) app"

definition scene_on_event ::
  "'w flipper_storage \<Rightarrow> bool \<Rightarrow> WiFirScene \<Rightarrow> SceneManagerEvent \<Rightarrow> 'w WiFirApp \<Rightarrow> bool \<times> 'w WiFirApp" where
  "scene_on_event env ok s event app = (wi_fir_scene_on_event_handlers env ok ! scene_number s) event app"

definition scene_on_exit :: "bool \<Rightarrow> WiFirScene \<Rightarrow> 'w WiFirApp \<Rightarrow> 'w WiFirApp" where
  "scene_on_exit ok s app = (wi_fir_scene_on_exit_handlers ok ! scene_number s) app"

lemmas scene_tables = scene_on_enter_def scene_on_event_def scene_on_exit_def scene_number_def
  wi_fir_scene_on_enter_handlers_def wi_fir_scene_on_event_handlers_def wi_fir_scene_on_exit_handlers_def

section \<open>From the screen to the transmission\<close>

lemma ask_more [simp]:
  "app_ssid (ask r app) = app_ssid app" "app_password (ask r app) = app_password app"
  "security_type (ask r app) = security_type app" "app_hidden (ask r app) = app_hidden app"
  "confirm (ask r app) = confirm app" "selected_saved_file (ask r app) = selected_saved_file app"
  "saved (ask r app) = saved app" "sd (ask r app) = sd app" "scene_state (ask r app) = scene_state app"
  "text_input_buf (ask r app) = text_input_buf app" "nfc_creds (ask r app) = nfc_creds app"
  "tx_creds (ask r app) = tx_creds app" "ir_protocol (ask r app) = ir_protocol app"
  "nfc_polling (ask r app) = nfc_polling app"
  by (simp_all add: ask_def)

lemma show_status_more [simp]:
  "tx_creds (show_status f app) = tx_creds app" "ir_protocol (show_status f app) = ir_protocol app"
  by (simp_all add: show_status_def)

lemma stop_more [simp]:
  "app_ssid (wi_fir_stop_tx ok app) = app_ssid app" "app_ssid (wi_fir_stop_ack_listener app) = app_ssid app"
  "app_password (wi_fir_stop_tx ok app) = app_password app"
  "app_password (wi_fir_stop_ack_listener app) = app_password app"
  "security_type (wi_fir_stop_tx ok app) = security_type app"
  "security_type (wi_fir_stop_ack_listener app) = security_type app"
  "app_hidden (wi_fir_stop_tx ok app) = app_hidden app"
  "app_hidden (wi_fir_stop_ack_listener app) = app_hidden app"
  by (simp_all add: wi_fir_stop_tx_def join_tx_def wi_fir_tx_worker_returned_def wi_fir_tx_worker_post_def
      post_def wi_fir_stop_ack_listener_def Let_def)

text \<open>What the transmit scene sends: the working set, cut to the sizes of the credentials.\<close>

lemma enter_tx_creds:
  "tx_creds (wi_fir_scene_transmit_on_enter ok app) =
     \<lparr>ssid = str_trunc WFR_SSID_MAX_LEN (app_ssid app), password = str_trunc WFR_PASS_MAX_LEN (app_password app),
      security = security_type app, hidden = app_hidden app\<rparr>"
  by (simp add: wi_fir_scene_transmit_on_enter_def wi_fir_start_tx_def Let_def)

lemma take_creds_sends:
  assumes "wf_creds c" "app_ssid app = app_ssid (take_creds c app0)" "app_password app = app_password (take_creds c app0)"
    "security_type app = security_type (take_creds c app0)" "app_hidden app = app_hidden (take_creds c app0)"
  shows "tx_creds (wi_fir_scene_transmit_on_enter ok app) = c"
  using assms by (simp add: enter_tx_creds take_creds_def wf_creds_def)

text \<open>
  What the confirmation screen shows is what is sent. For a working set that fits its arrays, when
  the user confirms, the scene manager is asked for the transmit scene, and the credentials that scene
  hands to the transmitter have the SSID, security type and hidden flag on the screen, and a password
  exactly when the screen says there is one.
\<close>

theorem confirm_shows_what_is_sent:
  assumes "length (app_ssid app) \<le> WFR_SSID_MAX_LEN" "length (app_password app) \<le> WFR_PASS_MAX_LEN"
    and "scene_on_enter env version ok WiFirSceneConfirm app = Some shown"
    and "wfr_confirm_view_input \<lparr>input_key = InputKeyRight, input_type = InputTypeShort\<rparr> (confirm shown) = (used, Some result)"
    and "posted (wi_fir_scene_confirm_callback result shown) = posted shown @ [ev]"
    and "scene_on_event env ok WiFirSceneConfirm (SceneManagerEventTypeCustom ev) shown = (consumed, left)"
  shows "consumed \<and> last (requests left) = NextScene WiFirSceneTransmit \<and>
    (\<exists>started. scene_on_enter env version ok WiFirSceneTransmit (scene_on_exit ok WiFirSceneConfirm left) = Some started
       \<and> tx_creds started = \<lparr>ssid = conf_ssid (confirm shown), password = app_password app,
            security = conf_security (confirm shown), hidden = conf_hidden (confirm shown)\<rparr>
       \<and> (password (tx_creds started) \<noteq> [] \<longleftrightarrow> conf_has_password (confirm shown)))"
proof -
  have shown: "shown = wi_fir_scene_confirm_on_enter app"
    using assms(3) by (simp add: scene_tables)
  have "result = WfrConfirmResultSend"
    using assms(4) by (simp add: wfr_confirm_view_input_def)
  then have "ev = WiFirCustomEventConfirmSend"
    using assms(5) by (simp add: wi_fir_scene_confirm_callback_def post_def)
  then have "consumed" "left = ask (NextScene WiFirSceneTransmit) shown"
    using assms(6) by (simp_all add: scene_tables wi_fir_scene_confirm_on_event_def)
  then show ?thesis
    using assms(1,2)
    by (simp add: scene_tables shown enter_tx_creds wi_fir_scene_confirm_on_enter_def
        wfr_confirm_view_set_data_def wi_fir_scene_confirm_on_exit_def)
qed

definition home_app :: "card WiFirApp" where
  "home_app = take_creds home_creds (zero_app empty_card)"

definition home_shown :: "card WiFirApp" where
  "home_shown = wi_fir_scene_confirm_on_enter home_app"

theorem confirm_shows_what_is_sent_witness:
  "True \<and> last (requests (ask (NextScene WiFirSceneTransmit) home_shown)) = NextScene WiFirSceneTransmit \<and>
    (\<exists>started. scene_on_enter mem_storage ''1'' True WiFirSceneTransmit
         (scene_on_exit True WiFirSceneConfirm (ask (NextScene WiFirSceneTransmit) home_shown)) = Some started
       \<and> tx_creds started = \<lparr>ssid = conf_ssid (confirm home_shown), password = app_password home_app,
            security = conf_security (confirm home_shown), hidden = conf_hidden (confirm home_shown)\<rparr>
       \<and> (password (tx_creds started) \<noteq> [] \<longleftrightarrow> conf_has_password (confirm home_shown)))"
proof (rule confirm_shows_what_is_sent)
  show "length (app_ssid home_app) \<le> WFR_SSID_MAX_LEN" "length (app_password home_app) \<le> WFR_PASS_MAX_LEN"
    by (simp_all add: home_app_def take_creds_def home_creds_def wfr_const)
  show "scene_on_enter mem_storage ''1'' True WiFirSceneConfirm home_app = Some home_shown"
    by (simp add: scene_tables home_shown_def)
  show "wfr_confirm_view_input \<lparr>input_key = InputKeyRight, input_type = InputTypeShort\<rparr> (confirm home_shown)
      = (True, Some WfrConfirmResultSend)"
    by (simp add: wfr_confirm_view_input_def)
  show "posted (wi_fir_scene_confirm_callback WfrConfirmResultSend home_shown) =
      posted home_shown @ [WiFirCustomEventConfirmSend]"
    by (simp add: wi_fir_scene_confirm_callback_def)
  show "scene_on_event mem_storage True WiFirSceneConfirm (SceneManagerEventTypeCustom WiFirCustomEventConfirmSend)
      home_shown = (True, ask (NextScene WiFirSceneTransmit) home_shown)"
    by (simp add: scene_tables wi_fir_scene_confirm_on_event_def)
qed

section \<open>A saved file can make the editor read outside its table\<close>

lemma edit_security_on_enter_iff:
  "wi_fir_scene_edit_security_on_enter app \<noteq> None \<longleftrightarrow> unat (security_type app) < 4"
  by (simp add: wi_fir_scene_edit_security_on_enter_def array_get_def security_names_def hidden_names_def
      Let_def)

lemma saved_selected:
  assumes "scene_state app WiFirSceneSaved < length (saved app)"
    and "run_state (wfr_storage_load env (Some (saved_file_path (saved_file (saved app ! scene_state app WiFirSceneSaved))))
           zero_creds) (sd app) = ((True, c), w)"
  shows "wi_fir_scene_saved_on_event env (SceneManagerEventTypeCustom WiFirCustomEventSavedSelected) app =
    (True, ask (NextScene WiFirSceneConfirm) ((take_creds c (app\<lparr>sd := w\<rparr>))\<lparr>selected_saved_file :=
       str_trunc (WFR_FILENAME_MAX - 1) (saved_file (saved app ! scene_state app WiFirSceneSaved))\<rparr>))"
  using assms by (simp add: wi_fir_scene_saved_on_event_def Let_def)

text \<open>The user opens a saved network, goes back, and starts to edit credentials.\<close>

definition open_saved_then_edit :: "'w flipper_storage \<Rightarrow> 'w WiFirApp \<Rightarrow> 'w WiFirApp option" where
  "open_saved_then_edit env app =
     (let app = snd (wi_fir_scene_saved_on_event env (SceneManagerEventTypeCustom WiFirCustomEventSavedSelected) app);
          app = wi_fir_scene_confirm_on_enter app;
          app = snd (wi_fir_scene_confirm_on_event env (SceneManagerEventTypeCustom WiFirCustomEventConfirmBack) app);
          app = wi_fir_scene_saved_on_enter env (wi_fir_scene_confirm_on_exit app);
          app = wi_fir_scene_main_menu_on_enter app;
          app = snd (wi_fir_scene_main_menu_on_event (SceneManagerEventTypeCustom WiFirCustomEventMainMenuCredentials) app);
          app = wi_fir_scene_edit_ssid_on_enter app;
          app = snd (wi_fir_scene_edit_ssid_on_event (SceneManagerEventTypeCustom WiFirCustomEventTextInputDone) app);
          app = wi_fir_scene_edit_password_on_enter app;
          app = snd (wi_fir_scene_edit_password_on_event (SceneManagerEventTypeCustom WiFirCustomEventTextInputDone) app)
      in wi_fir_scene_edit_security_on_enter app)"

text \<open>
  C40: the security type of a saved file is not checked. When the file of the selected network loads with
  a security type above 3, which loading accepts, and the user goes back to the menu and edits
  credentials, entering the security editor reads \<^verbatim>\<open>security_names\<close> outside its four entries.
\<close>

theorem saved_security_out_of_range:
  assumes "scene_state app WiFirSceneSaved < length (saved app)"
    and "run_state (wfr_storage_load env (Some (saved_file_path (saved_file (saved app ! scene_state app WiFirSceneSaved))))
           zero_creds) (sd app) = ((True, c), w)"
    and "3 < unat (security c)"
  shows "open_saved_then_edit env app = None"
proof -
  have "wi_fir_scene_edit_security_on_enter a = None" if "security_type a = security c" for a :: "'a WiFirApp"
    using edit_security_on_enter_iff [of a] assms(3) that by simp
  then show ?thesis
    unfolding open_saved_then_edit_def saved_selected [OF assms(1,2)]
    by (simp add: Let_def wi_fir_scene_confirm_on_enter_def wi_fir_scene_confirm_on_event_def
        wi_fir_scene_confirm_on_exit_def wi_fir_scene_saved_on_enter_def wi_fir_scene_main_menu_on_enter_def
        wi_fir_scene_main_menu_on_event_def go_from_menu_def set_scene_state_def
        wi_fir_scene_edit_ssid_on_enter_def wi_fir_scene_edit_ssid_on_event_def
        wi_fir_scene_edit_password_on_enter_def wi_fir_scene_edit_password_on_event_def take_creds_def
        split: prod.splits)
qed

definition odd_creds :: WfrWifiCreds where
  "odd_creds = \<lparr>ssid = ''x'', password = ''y'', security = 7, hidden = False\<rparr>"

definition odd_card :: card where
  "odd_card = empty_card\<lparr>card_files := [''/ext/apps_data/infrafi/x.wfir'' \<mapsto> creds_file odd_creds]\<rparr>"

definition odd_app :: "card WiFirApp" where
  "odd_app = (zero_app odd_card)\<lparr>saved := [\<lparr>saved_ssid = ''x'', saved_file = ''x.wfir'', saved_security = 7\<rparr>]\<rparr>"

theorem saved_security_out_of_range_witness: "open_saved_then_edit mem_storage odd_app = None"
proof -
  have path: "saved_file_path ''x.wfir'' = ''/ext/apps_data/infrafi/x.wfir''"
    by (simp add: saved_file_path_def WFR_SAVE_DIR_def)
  obtain w where "run_state (wfr_storage_load mem_storage (Some (saved_file_path ''x.wfir'')) zero_creds) odd_card
      = ((True, odd_creds), w)"
    using load_stored [OF mem_read_laws, of odd_creds odd_card "saved_file_path ''x.wfir''"]
    by (auto simp: odd_card_def odd_creds_def wf_creds_def wfr_const path)
  then show ?thesis
    by (intro saved_security_out_of_range [of _ _ odd_creds w])
      (simp_all add: odd_app_def zero_app_def odd_creds_def)
qed

end
