(* ===== verification/Draw.thy ===== *)
theory Draw
  imports Status_View "HOL-Library.Signed_Division"
begin

unbundle bit_operations_syntax

text \<open>
  What the views draw: the helpers of \<^verbatim>\<open>flipper/views/wfr_draw.c\<close> and the draw callbacks of the four
  views, as the list of the calls they make on the canvas. The 128 by 64 pixel canvas, its fonts and
  the \<^verbatim>\<open>elements\<close> module are the firmware's: the width of a text and the shortening of one that is too
  wide are parameters (\<open>canvas_env\<close>). The sizes of the icons are those of the files in
  \<^verbatim>\<open>flipper/images\<close>.
\<close>

section \<open>The canvas\<close>

datatype Color = ColorWhite | ColorBlack
datatype Font = FontPrimary | FontSecondary
datatype Align = AlignLeft | AlignRight | AlignTop | AlignBottom | AlignCenter

datatype canvas_op =
    canvas_clear | canvas_set_color Color | canvas_set_font Font
  | canvas_draw_dot int int | canvas_draw_line int int int int
  | canvas_draw_icon int int string | canvas_draw_str int int string
  | canvas_draw_str_aligned int int Align Align string
  | canvas_draw_box int int int int | canvas_draw_rbox int int int int int
  | canvas_draw_rframe int int int int int
  | canvas_draw_disc int int int | canvas_draw_circle int int int
  | elements_button_left string | elements_button_center string | elements_button_right string
  | read_outside

text \<open>
  \<open>read_outside\<close> is no call: it stands for a draw callback that reads one of its tables outside the
  table's entries. \<open>table_read\<close> makes the call that uses an entry.
\<close>

definition table_read :: "'a list \<Rightarrow> int \<Rightarrow> ('a \<Rightarrow> canvas_op) \<Rightarrow> canvas_op" where
  "table_read xs i f = (if 0 \<le> i \<and> i < int (length xs) then f (xs ! nat i) else read_outside)"

record canvas_env =
  canvas_string_width :: "string \<Rightarrow> nat"
  elements_string_fit_width :: "string \<Rightarrow> nat \<Rightarrow> string"

definition icon_sizes :: "(string \<times> int \<times> int) list" where
  "icon_sizes =
     [(''beam_9x11'', 9, 11), (''check_16x12'', 16, 12), (''cross_10x10'', 10, 10), (''flipper_32x18'', 32, 18),
      (''infrafi_10px'', 10, 10), (''key_10x5'', 10, 5), (''lock_9x10'', 9, 10), (''menu_about_20x20'', 20, 20),
      (''menu_keyboard_22x18'', 22, 18), (''menu_nfc_20x16'', 20, 16), (''menu_saved_20x20'', 20, 20),
      (''menu_settings_24x24'', 24, 24), (''pulse_5x7'', 5, 7), (''server_20x18'', 20, 18),
      (''wifi_small_9x5'', 9, 5), (''wifi_up_19x14'', 19, 14)]"

definition icon_size :: "string \<Rightarrow> int \<times> int" where
  "icon_size icon = (case map_of icon_sizes icon of None \<Rightarrow> (0, 0) | Some s \<Rightarrow> s)"

text \<open>\<^verbatim>\<open>%u\<close> of \<^verbatim>\<open>snprintf\<close>.\<close>

fun decimal :: "nat \<Rightarrow> string" where
  "decimal n = (if n < 10 then [] else decimal (n div 10)) @ [char_of (48 + n mod 10)]"

declare decimal.simps [simp del]

section \<open>Shared helpers\<close>

definition wfr_draw_dotted_hline :: "int \<Rightarrow> int \<Rightarrow> int \<Rightarrow> canvas_op list" where
  "wfr_draw_dotted_hline x y width =
     map (\<lambda>k. canvas_draw_dot (x + 2 * int k) y) [0..<nat ((width + 1) div 2)]"

definition wfr_draw_wordmark :: "int \<Rightarrow> int \<Rightarrow> canvas_op list" where
  "wfr_draw_wordmark x y =
     [canvas_draw_icon x (y - 9) ''infrafi_10px'', canvas_set_font FontPrimary, canvas_draw_str (x + 13) y ''InfraFi'']"

definition wfr_draw_title :: "string \<Rightarrow> canvas_op list" where
  "wfr_draw_title text = [canvas_set_font FontPrimary, canvas_draw_str_aligned 64 9 AlignCenter AlignBottom text]"

definition wfr_draw_arrow_left :: "int \<Rightarrow> int \<Rightarrow> canvas_op list" where
  "wfr_draw_arrow_left x y = map (\<lambda>k. canvas_draw_line (x + int k) (y - int k) (x + int k) (y + int k)) [0..<4]"

definition wfr_draw_arrow_right :: "int \<Rightarrow> int \<Rightarrow> canvas_op list" where
  "wfr_draw_arrow_right x y = map (\<lambda>k. canvas_draw_line (x - int k) (y - int k) (x - int k) (y + int k)) [0..<4]"

definition wfr_draw_badge :: "int \<Rightarrow> int \<Rightarrow> string \<Rightarrow> canvas_op list" where
  "wfr_draw_badge cx cy icon =
     [canvas_set_color ColorWhite, canvas_draw_disc cx cy 11, canvas_set_color ColorBlack, canvas_draw_disc cx cy 10,
      canvas_set_color ColorWhite,
      canvas_draw_icon (cx - fst (icon_size icon) div 2) (cy - snd (icon_size icon) div 2) icon,
      canvas_set_color ColorBlack]"

definition wfr_draw_str_fit :: "canvas_env \<Rightarrow> int \<Rightarrow> int \<Rightarrow> string \<Rightarrow> nat \<Rightarrow> canvas_op list" where
  "wfr_draw_str_fit env x y str width = [canvas_draw_str x y (elements_string_fit_width env str width)]"

section \<open>The menu view\<close>

definition TILE_SIZE :: int where "TILE_SIZE = 32"
definition TILE_X :: int where "TILE_X = (128 - TILE_SIZE) div 2"
definition TILE_Y :: int where "TILE_Y = 14"

definition menu_page_dots :: "WfrMenuViewModel \<Rightarrow> canvas_op list" where
  "menu_page_dots m = map (\<lambda>i. let x = 124 - (int (length (menu_items m)) - 1 - int i) * 6 in
     if i = menu_selected m then canvas_draw_disc x 5 2 else canvas_draw_circle x 5 1) [0..<length (menu_items m)]"

definition wfr_menu_view_draw :: "canvas_env \<Rightarrow> WfrMenuViewModel \<Rightarrow> canvas_op list" where
  "wfr_menu_view_draw env m =
     [canvas_clear, canvas_set_color ColorBlack] @ wfr_draw_wordmark 2 9 @ menu_page_dots m
     @ wfr_draw_dotted_hline 0 12 128
     @ (if length (menu_items m) = 0 then []
        else
          let (label, icon) = menu_items m ! menu_selected m; tw = int (canvas_string_width env label) in
          [canvas_draw_rbox (TILE_X + 2) (TILE_Y + 2) TILE_SIZE TILE_SIZE 5, canvas_set_color ColorWhite,
           canvas_draw_rbox TILE_X TILE_Y TILE_SIZE TILE_SIZE 5, canvas_set_color ColorBlack,
           canvas_draw_rframe TILE_X TILE_Y TILE_SIZE TILE_SIZE 5,
           canvas_draw_icon (TILE_X + (TILE_SIZE - fst (icon_size icon)) sdiv 2)
             (TILE_Y + (TILE_SIZE - snd (icon_size icon)) sdiv 2) icon]
          @ wfr_draw_arrow_left (TILE_X - 10) (TILE_Y + TILE_SIZE div 2)
          @ wfr_draw_arrow_right (TILE_X + TILE_SIZE + 11) (TILE_Y + TILE_SIZE div 2)
          @ [canvas_set_font FontPrimary,
             canvas_draw_rbox ((128 - tw) sdiv 2 - 6) 50 (tw + 12) 13 3, canvas_set_color ColorWhite,
             canvas_draw_str ((128 - tw) sdiv 2) 60 label, canvas_set_color ColorBlack])"

section \<open>The list view\<close>

definition ROW_H :: int where "ROW_H = 12"
definition LIST_Y :: int where "LIST_Y = 15"

definition list_row :: "canvas_env \<Rightarrow> WfrListViewModel \<Rightarrow> nat \<Rightarrow> canvas_op list" where
  "list_row env m row =
     (let i = u8 (list_offset m + row); y = LIST_Y + int row * ROW_H; (name, locked) = list_items m ! i in
      (if i = list_selected m
       then [canvas_draw_rbox 0 y 123 ROW_H 2, canvas_set_color ColorWhite] else [])
      @ [canvas_draw_icon 3 (y + 4) ''wifi_small_9x5'']
      @ wfr_draw_str_fit env 15 (y + 9) name (if locked then 90 else 104)
      @ (if locked then [canvas_draw_icon 111 (y + 1) ''lock_9x10''] else [])
      @ [canvas_set_color ColorBlack])"

definition list_thumb :: "WfrListViewModel \<Rightarrow> int" where
  "list_thumb m = (let thumb = (64 - 14) * int ROWS_VISIBLE div int (list_count m) in if thumb < 4 then 4 else thumb)"

definition list_scrollbar :: "WfrListViewModel \<Rightarrow> canvas_op list" where
  "list_scrollbar m =
     map (\<lambda>k. canvas_draw_dot 126 (14 + 2 * int k)) [0..<25]
     @ [canvas_draw_box 125 (14 + (64 - 14 - list_thumb m) * int (list_selected m) div (int (list_count m) - 1))
          3 (list_thumb m)]"

definition wfr_list_view_draw :: "canvas_env \<Rightarrow> WfrListViewModel \<Rightarrow> canvas_op list" where
  "wfr_list_view_draw env m =
     [canvas_clear, canvas_set_color ColorBlack, canvas_set_font FontPrimary,
      canvas_draw_str 2 9 (or_empty (list_title m))] @ wfr_draw_dotted_hline 0 12 128
     @ (if list_count m = 0
        then [canvas_draw_icon 54 18 ''menu_saved_20x20'', canvas_set_font FontSecondary,
              canvas_draw_str_aligned 64 50 AlignCenter AlignBottom ''No saved networks yet'',
              canvas_draw_str_aligned 64 61 AlignCenter AlignBottom ''Sent networks show up here'']
        else
          [canvas_set_font FontSecondary,
           canvas_draw_str_aligned 126 9 AlignRight AlignBottom
             (str_trunc 7 (decimal (list_selected m + 1) @ ''/'' @ decimal (list_count m)))]
          @ concat (map (list_row env m)
              (takeWhile (\<lambda>row. u8 (list_offset m + row) < list_count m) [0..<ROWS_VISIBLE]))
          @ (if list_count m > ROWS_VISIBLE then list_scrollbar m else []))"

section \<open>The confirm view\<close>

definition wfr_confirm_view_draw :: "canvas_env \<Rightarrow> WfrConfirmViewModel \<Rightarrow> canvas_op list" where
  "wfr_confirm_view_draw env m =
     [canvas_clear, canvas_set_color ColorBlack, canvas_draw_icon 2 3 ''wifi_small_9x5'', canvas_set_font FontPrimary]
     @ wfr_draw_str_fit env 14 9 (conf_ssid m) 112 @ wfr_draw_dotted_hline 0 12 128
     @ [canvas_set_font FontSecondary, canvas_draw_icon 1 15 ''lock_9x10'',
        canvas_draw_str 14 23 (wfr_security_label (conf_security m)),
        canvas_draw_icon 2 29 ''key_10x5'',
        canvas_draw_str 14 35 (if conf_has_password m then ''********'' else ''No password''),
        canvas_draw_icon 2 40 ''wifi_small_9x5'',
        canvas_draw_str 14 46 (if conf_hidden m then ''Hidden SSID'' else ''Broadcast SSID''),
        canvas_draw_icon 105 18 ''server_20x18'',
        elements_button_left ''Back'', elements_button_right ''Send'']
     @ (if conf_show_delete m then [elements_button_center ''Del''] else [])"

section \<open>The status view\<close>

definition FLIPPER_X :: int where "FLIPPER_X = 2"
definition DEVICE_Y :: int where "DEVICE_Y = 16"
definition SERVER_X :: int where "SERVER_X = 106"

definition draw_badge :: "int \<Rightarrow> int \<Rightarrow> WfrStatusBadge \<Rightarrow> canvas_op list" where
  "draw_badge cx cy b =
     (case b of
        WfrStatusBadgeCheck \<Rightarrow> wfr_draw_badge cx cy ''check_16x12''
      | WfrStatusBadgeCross \<Rightarrow> wfr_draw_badge cx cy ''cross_10x10''
      | WfrStatusBadgeQuestion \<Rightarrow>
          [canvas_set_color ColorWhite, canvas_draw_disc cx cy 11, canvas_set_color ColorBlack,
           canvas_draw_disc cx cy 10, canvas_set_color ColorWhite, canvas_set_font FontPrimary,
           canvas_draw_str_aligned (cx + 1) (cy + 4) AlignCenter AlignBottom ''?'', canvas_set_color ColorBlack])"

definition bits :: string where "bits = ''1011001110100101''"
definition n_bits :: int where "n_bits = 16"

text \<open>The index into \<open>bits\<close>: C's remainder takes the sign of its left operand.\<close>

definition bit_index :: "int \<Rightarrow> u32 \<Rightarrow> int" where
  "bit_index i fr = ((i - uint (fr div 4)) smod n_bits + n_bits) smod n_bits"

function draw_bits :: "u32 \<Rightarrow> int \<Rightarrow> int \<Rightarrow> canvas_op list" where
  "draw_bits fr x i =
     (if x < SERVER_X - 6
      then table_read bits (bit_index i fr) (\<lambda>ch. canvas_draw_str x 29 [ch]) # draw_bits fr (x + 8) (i + 1) else [])"
  by auto
termination by (relation "measure (\<lambda>(_, x, _). nat (SERVER_X - x))") (auto simp: SERVER_X_def)

declare draw_bits.simps [simp del]

definition progress_width :: "WfrStatusViewModel \<Rightarrow> int" where
  "progress_width m = 116 * uint (sent m) div uint (tx_total m)"

definition draw_transmit :: "WfrStatusViewModel \<Rightarrow> canvas_op list" where
  "draw_transmit m =
     wfr_draw_title ''Beaming credentials''
     @ [canvas_draw_icon FLIPPER_X DEVICE_Y ''flipper_32x18'', canvas_draw_icon SERVER_X DEVICE_Y ''server_20x18'',
        canvas_set_font FontSecondary]
     @ draw_bits (frame m) (38 + uint ((frame m * 2) mod 8)) 0
     @ [canvas_draw_rframe 4 42 120 8 2]
     @ (if tx_total m \<noteq> 0 \<and> progress_width m > 0 then [canvas_draw_box 6 44 (progress_width m) 4] else [])
     @ [canvas_draw_str 4 61 (proto m),
        canvas_draw_str_aligned 124 61 AlignRight AlignBottom
          (str_trunc 15 (decimal (unat (sent m)) @ ''/'' @ decimal (unat (tx_total m)) @ '' B''))]"

definition pulse_x :: "u32 \<Rightarrow> nat \<Rightarrow> int" where
  "pulse_x fr k = 100 - uint ((fr * 3 + of_nat k * 64 div 3) mod 64)"

definition dots :: "string list" where "dots = [[], ''.'', ''..'', ''...'']"

definition draw_waiting :: "WfrStatusViewModel \<Rightarrow> canvas_op list" where
  "draw_waiting m =
     wfr_draw_title ''Waiting for server''
     @ [canvas_draw_icon FLIPPER_X DEVICE_Y ''flipper_32x18'', canvas_draw_icon SERVER_X DEVICE_Y ''server_20x18'']
     @ map (\<lambda>k. canvas_draw_icon (pulse_x (frame m) k) 22 ''pulse_5x7'') [0..<3]
     @ [canvas_set_font FontSecondary,
        table_read dots (uint ((frame m div 4) mod 4))
          (\<lambda>d. canvas_draw_str_aligned 64 50 AlignCenter AlignBottom (str_trunc 31 (''Listening for ACK'' @ d))),
        canvas_draw_str_aligned 64 61 AlignCenter AlignBottom
          (str_trunc 31 (decimal (unat (seconds_left m)) @ ''s left''))]"

definition draw_connected :: "WfrStatusViewModel \<Rightarrow> canvas_op list" where
  "draw_connected m =
     (let sx = 6; sy = 26 in
      [canvas_draw_icon sx sy ''server_20x18'', canvas_draw_icon (sx + 1) (sy - 14) ''wifi_up_19x14'']
      @ draw_badge (sx + 24) (sy + 20) WfrStatusBadgeCheck
      @ [canvas_set_font FontPrimary, canvas_draw_str 46 20 ''Connected!'',
         canvas_set_font FontSecondary, canvas_draw_str 46 32 ''Server is online'',
         canvas_draw_rframe 44 38 82 14 3,
         canvas_draw_str_aligned 85 48 AlignCenter AlignBottom (line1 m)])"

definition draw_result :: "WfrStatusViewModel \<Rightarrow> canvas_op list" where
  "draw_result m =
     (let buttons = btn_left m \<noteq> None \<or> btn_right m \<noteq> None;
          sx = 6; sy = (if buttons then 16 else 22);
          subj = (case subject m of None \<Rightarrow> ''server_20x18'' | Some icon \<Rightarrow> icon) in
      [canvas_draw_icon sx sy subj] @ draw_badge (sx + 24) (sy + 20) (badge m)
      @ [canvas_set_font FontPrimary, canvas_draw_str 46 sy (title m),
         canvas_set_font FontSecondary, canvas_draw_str 46 (sy + 12) (line1 m),
         canvas_draw_str 46 (sy + 23) (line2 m)]
      @ (case btn_left m of None \<Rightarrow> [] | Some label \<Rightarrow> [elements_button_left label])
      @ (case btn_right m of None \<Rightarrow> [] | Some label \<Rightarrow> [elements_button_right label]))"

definition bob :: "int list" where "bob = [0, 1, 2, 1]"

definition draw_nfc_scan :: "WfrStatusViewModel \<Rightarrow> canvas_op list" where
  "draw_nfc_scan m =
     wfr_draw_title ''Scan NFC Tag''
     @ [canvas_draw_rframe 4 15 44 34 6, canvas_draw_rframe 5 16 42 32 5, canvas_draw_rframe 14 22 24 20 3,
        canvas_draw_rframe 17 25 18 14 2, canvas_draw_rframe 20 28 12 8 1,
        table_read bob (uint ((frame m div 3) mod 4)) (\<lambda>b. canvas_draw_icon (60 + b) 24 ''menu_nfc_20x16''),
        canvas_draw_icon (56 - uint ((frame m div 2) mod 4) * 2) 29 ''pulse_5x7'',
        canvas_set_font FontSecondary,
        canvas_draw_str 84 26 ''Hold tag'', canvas_draw_str 84 37 ''to back of'', canvas_draw_str 84 48 ''Flipper'',
        elements_button_left ''Back'']"

definition draw_about :: "WfrStatusViewModel \<Rightarrow> canvas_op list" where
  "draw_about m =
     [canvas_draw_icon 4 4 ''flipper_32x18'', canvas_draw_icon 38 7 ''beam_9x11'', canvas_draw_icon 54 4 ''server_20x18'',
      canvas_set_font FontSecondary, canvas_draw_str_aligned 125 12 AlignRight AlignBottom (title m),
      canvas_set_font FontPrimary, canvas_draw_str 4 36 ''InfraFi'', canvas_draw_line 4 39 43 39,
      canvas_set_font FontSecondary, canvas_draw_str 4 49 ''Wi-Fi over infrared.'',
      canvas_draw_str 4 60 ''github.com/amd989'']"

definition wfr_status_view_draw :: "WfrStatusViewModel \<Rightarrow> canvas_op list" where
  "wfr_status_view_draw m =
     [canvas_clear, canvas_set_color ColorBlack]
     @ (case status_mode m of
          WfrStatusModeTransmit \<Rightarrow> draw_transmit m
        | WfrStatusModeWaiting \<Rightarrow> draw_waiting m
        | WfrStatusModeConnected \<Rightarrow> draw_connected m
        | WfrStatusModeResult \<Rightarrow> draw_result m
        | WfrStatusModeNfcScan \<Rightarrow> draw_nfc_scan m
        | WfrStatusModeAbout \<Rightarrow> draw_about m
        | WfrStatusModeNone \<Rightarrow> [])"

section \<open>On the screen\<close>

text \<open>
  A call that reads inside its tables and whose shape lies inside the 128 by 64 pixels; of a text, its
  anchor. How far the text itself reaches depends on the font: \<open>text_inside\<close>.
\<close>

fun on_screen :: "canvas_op \<Rightarrow> bool" where
  "on_screen (canvas_draw_dot x y) \<longleftrightarrow> 0 \<le> x \<and> x < 128 \<and> 0 \<le> y \<and> y < 64"
| "on_screen (canvas_draw_line x y x' y') \<longleftrightarrow> 0 \<le> x \<and> x < 128 \<and> 0 \<le> y \<and> y < 64 \<and> 0 \<le> x' \<and> x' < 128 \<and> 0 \<le> y' \<and> y' < 64"
| "on_screen (canvas_draw_icon x y icon) \<longleftrightarrow>
     0 \<le> x \<and> x + fst (icon_size icon) \<le> 128 \<and> 0 \<le> y \<and> y + snd (icon_size icon) \<le> 64"
| "on_screen (canvas_draw_str x y str) \<longleftrightarrow> 0 \<le> x \<and> x < 128 \<and> 0 \<le> y \<and> y < 64"
| "on_screen (canvas_draw_str_aligned x y h v str) \<longleftrightarrow> 0 \<le> x \<and> x < 128 \<and> 0 \<le> y \<and> y < 64"
| "on_screen (canvas_draw_box x y w h) \<longleftrightarrow> 0 \<le> x \<and> 0 < w \<and> x + w \<le> 128 \<and> 0 \<le> y \<and> 0 < h \<and> y + h \<le> 64"
| "on_screen (canvas_draw_rbox x y w h r) \<longleftrightarrow> 0 \<le> x \<and> 0 < w \<and> x + w \<le> 128 \<and> 0 \<le> y \<and> 0 < h \<and> y + h \<le> 64"
| "on_screen (canvas_draw_rframe x y w h r) \<longleftrightarrow> 0 \<le> x \<and> 0 < w \<and> x + w \<le> 128 \<and> 0 \<le> y \<and> 0 < h \<and> y + h \<le> 64"
| "on_screen (canvas_draw_disc x y r) \<longleftrightarrow> r \<le> x \<and> x + r < 128 \<and> r \<le> y \<and> y + r < 64"
| "on_screen (canvas_draw_circle x y r) \<longleftrightarrow> r \<le> x \<and> x + r < 128 \<and> r \<le> y \<and> y + r < 64"
| "on_screen read_outside \<longleftrightarrow> False"
| "on_screen _ \<longleftrightarrow> True"

fun text_inside :: "canvas_env \<Rightarrow> canvas_op \<Rightarrow> bool" where
  "text_inside env (canvas_draw_str x y str) \<longleftrightarrow> 0 \<le> x \<and> x + int (canvas_string_width env str) \<le> 128"
| "text_inside env (canvas_draw_str_aligned x y h v str) \<longleftrightarrow>
     (let w = int (canvas_string_width env str) in
      case h of AlignRight \<Rightarrow> w \<le> x \<and> x \<le> 128
      | AlignCenter \<Rightarrow> w div 2 \<le> x \<and> x - w div 2 + w \<le> 128
      | _ \<Rightarrow> 0 \<le> x \<and> x + w \<le> 128)"
| "text_inside env _ \<longleftrightarrow> True"

abbreviation drawn :: "canvas_op list \<Rightarrow> bool" where
  "drawn \<equiv> list_all on_screen"

lemma icon_size_bounds:
  "0 \<le> fst (icon_size icon) \<and> fst (icon_size icon) \<le> 32 \<and> 0 \<le> snd (icon_size icon) \<and> snd (icon_size icon) \<le> 24"
proof -
  have sizes: "list_all (\<lambda>(_, w, h). 0 \<le> w \<and> w \<le> 32 \<and> 0 \<le> h \<and> h \<le> 24) icon_sizes"
    by (simp add: icon_sizes_def)
  show ?thesis
  proof (cases "map_of icon_sizes icon")
    case (Some s)
    then have "(icon, s) \<in> set icon_sizes" by (rule map_of_SomeD)
    with sizes Some show ?thesis by (fastforce simp: list_all_iff icon_size_def)
  qed (simp add: icon_size_def)
qed

lemma icon_size_simps [simp]:
  "icon_size ''beam_9x11'' = (9, 11)"
  "icon_size ''check_16x12'' = (16, 12)"
  "icon_size ''cross_10x10'' = (10, 10)"
  "icon_size ''flipper_32x18'' = (32, 18)"
  "icon_size ''infrafi_10px'' = (10, 10)"
  "icon_size ''key_10x5'' = (10, 5)"
  "icon_size ''lock_9x10'' = (9, 10)"
  "icon_size ''menu_nfc_20x16'' = (20, 16)"
  "icon_size ''menu_saved_20x20'' = (20, 20)"
  "icon_size ''pulse_5x7'' = (5, 7)"
  "icon_size ''server_20x18'' = (20, 18)"
  "icon_size ''wifi_small_9x5'' = (9, 5)"
  "icon_size ''wifi_up_19x14'' = (19, 14)"
  by (simp_all add: icon_size_def icon_sizes_def)

lemma bit_index_range: "0 \<le> bit_index i fr \<and> bit_index i fr < int (length bits)"
proof -
  have r: "- 16 < k smod 16 \<and> k smod 16 < 16" for k :: int
    using smod_int_range [of 16 k] by auto
  have "0 < (i - uint (fr div 4)) smod 16 + 16"
    using r [of "i - uint (fr div 4)"] by simp
  then show ?thesis
    using r smod_int_compares [of "(i - uint (fr div 4)) smod 16 + 16" 16]
    by (simp add: bit_index_def n_bits_def bits_def)
qed

lemma drawn_hline [simp]: "drawn (wfr_draw_dotted_hline 0 12 128)"
  by (auto simp: wfr_draw_dotted_hline_def list_all_iff)

lemma drawn_title [simp]: "drawn (wfr_draw_title text)"
  by (simp add: wfr_draw_title_def)

lemma drawn_bit [simp]: "0 \<le> x \<Longrightarrow> x < 128 \<Longrightarrow> on_screen (table_read bits (bit_index i fr) (\<lambda>ch. canvas_draw_str x 29 [ch]))"
  using bit_index_range [of i fr] by (simp add: table_read_def)

lemma drawn_draw_bits: "0 \<le> x \<Longrightarrow> drawn (draw_bits fr x i)"
  by (induction fr x i rule: draw_bits.induct) (subst draw_bits.simps, simp add: SERVER_X_def)

lemma drawn_badge [simp]: "drawn (draw_badge 30 46 b)" "drawn (draw_badge 30 36 b)" "drawn (draw_badge 30 42 b)"
  by (cases b; simp add: draw_badge_def wfr_draw_badge_def)+

lemma progress_width_bounds:
  "sent m \<le> tx_total m \<Longrightarrow> 0 < tx_total m \<Longrightarrow> progress_width m \<le> 116 \<and> (progress_width m = 116 \<longleftrightarrow> sent m = tx_total m)"
proof -
  assume m: "sent m \<le> tx_total m" "0 < tx_total m"
  define s t where "s = uint (sent m)" and "t = uint (tx_total m)"
  have st: "0 \<le> s" "s \<le> t" "0 < t"
    using m by (simp_all add: s_def t_def word_le_def word_less_def)
  have "116 * s div t \<le> 116 * t div t"
    using st by (intro zdiv_mono1) simp_all
  moreover have "116 * s div t < 116" if "s < t"
  proof -
    have "t * (116 * s div t) + 116 * s mod t = 116 * s" by simp
    moreover have "0 \<le> 116 * s mod t" using st by simp
    ultimately have "t * (116 * s div t) < t * 116" using that by linarith
    then show ?thesis using st by simp
  qed
  ultimately show ?thesis
    using st by (cases "s = t") (auto simp: progress_width_def s_def [symmetric] t_def [symmetric] word_uint_eq_iff)
qed

text \<open>Reads of the tables that an animation's frame counter drives.\<close>

lemma mod_four: "uint (x mod 4) < 4" "unat (x mod 4) < 4" for x :: u32
  by (simp_all add: unat_mod uint_mod)

lemma drawn_bob [simp]:
  "on_screen (table_read bob (uint (x mod 4)) (\<lambda>b. canvas_draw_icon (60 + b) 24 ''menu_nfc_20x16''))" for x :: u32
proof -
  have "bob ! unat (x mod 4) \<in> set bob"
    using mod_four(2) [of x] by (intro nth_mem) (simp add: bob_def)
  also have "set bob = {0, 1, 2}" by (auto simp: bob_def)
  finally have "bob ! nat (uint (x mod 4)) \<in> {0, 1, 2}" by simp
  moreover have "uint (x mod 4) < int (length bob)"
    using mod_four(1) [of x] by (simp add: bob_def)
  ultimately show ?thesis by (auto simp: table_read_def)
qed

lemma drawn_dots [simp]:
  "on_screen (table_read dots (uint (x mod 4)) (\<lambda>d. canvas_draw_str_aligned 64 50 h v (f d)))" for x :: u32
  using mod_four(1) [of x] by (simp add: table_read_def dots_def)

lemma pulse_range: "36 < pulse_x fr k \<and> pulse_x fr k \<le> 100"
proof -
  have "uint ((fr * 3 + of_nat k * 64 div 3) mod 64) < 64" by (simp add: uint_mod)
  then show ?thesis by (simp add: pulse_x_def)
qed

lemma drawn_pulses: "drawn (map (\<lambda>k. canvas_draw_icon (pulse_x fr k) 22 ''pulse_5x7'') ks)"
proof -
  have "on_screen (canvas_draw_icon (pulse_x fr k) 22 ''pulse_5x7'')" for k
    using pulse_range [of fr k] by simp
  then show ?thesis by (auto simp: list_all_iff simp del: on_screen.simps)
qed

lemma drawn_status:
  assumes "status_mode m = WfrStatusModeTransmit \<Longrightarrow> sent m \<le> tx_total m"
  shows "drawn (wfr_status_view_draw m)"
proof -
  have off: "0 \<le> 38 + uint ((frame m * 2) mod 8)" by simp
  have i: "0 \<le> fst (icon_size x) \<and> fst (icon_size x) \<le> 32 \<and> 0 \<le> snd (icon_size x) \<and> snd (icon_size x) \<le> 24" for x
    by (rule icon_size_bounds)
  have r: "drawn (draw_result m)"
    using i [of "''server_20x18''"] i [of "the (subject m)"]
    by (auto simp: draw_result_def Let_def split: option.splits)
  have t: "drawn (draw_transmit m)" if "status_mode m = WfrStatusModeTransmit"
    using progress_width_bounds [OF assms [OF that]] i [of "''flipper_32x18''"]
    by (auto simp: draw_transmit_def word_neq_0_conv drawn_draw_bits [OF off] FLIPPER_X_def DEVICE_Y_def SERVER_X_def)
  have p: "drawn (draw_waiting m)"
    by (simp add: draw_waiting_def drawn_pulses FLIPPER_X_def DEVICE_Y_def SERVER_X_def
        del: upt_conv_Cons list.map upt_rec_numeral)
  define u where "u = uint (frame m div 2 mod 4)"
  have "0 \<le> u" "u < 4" using mod_four(1) [of "frame m div 2"] by (simp_all add: u_def)
  then have n: "drawn (draw_nfc_scan m)"
    by (simp add: draw_nfc_scan_def u_def [symmetric])
  have "drawn (draw_connected m)" "drawn (draw_about m)"
    by (simp_all add: draw_connected_def draw_about_def)
  with r t p n show ?thesis
    by (cases "status_mode m") (simp_all add: wfr_status_view_draw_def)
qed

text \<open>Whatever has been sent, no table is read outside its entries.\<close>

lemma bits_inside: "0 \<le> x \<Longrightarrow> read_outside \<notin> set (draw_bits fr x i)"
  using drawn_draw_bits [of x fr i] by (auto simp: list_all_iff)

lemma status_reads_inside: "read_outside \<notin> set (wfr_status_view_draw m)"
proof (cases "status_mode m = WfrStatusModeTransmit")
  case True
  have "0 \<le> 38 + uint ((frame m * 2) mod 8)" by simp
  then show ?thesis
    using True bits_inside by (simp add: wfr_status_view_draw_def draw_transmit_def wfr_draw_title_def)
next
  case False
  then have "drawn (wfr_status_view_draw m)" by (intro drawn_status) simp
  then show ?thesis by (auto simp: list_all_iff)
qed

section \<open>The list and the menu\<close>

lemma visible_rows:
  assumes "list_ok m" and "list_count m \<noteq> 0"
  shows "takeWhile (\<lambda>row. u8 (list_offset m + row) < list_count m) [0..<ROWS_VISIBLE]
    = [0..<min ROWS_VISIBLE (list_count m - list_offset m)]"
proof -
  have u: "u8 (list_offset m + row) = list_offset m + row" if "row \<in> set [0..<ROWS_VISIBLE]" for row
    using assms that by (simp add: list_ok_def view_limits)
  have "takeWhile (\<lambda>row. u8 (list_offset m + row) < list_count m) [0..<ROWS_VISIBLE]
      = takeWhile (\<lambda>row. row < list_count m - list_offset m) [0..<ROWS_VISIBLE]"
    by (rule takeWhile_cong) (use assms u in \<open>auto simp: list_ok_def\<close>)
  also have "\<dots> = take (list_count m - list_offset m) [0..<ROWS_VISIBLE]"
    by (rule takeWhile_eq_take_P_nth) auto
  also have "\<dots> = [0..<min ROWS_VISIBLE (list_count m - list_offset m)]"
    by (cases "list_count m - list_offset m \<le> ROWS_VISIBLE") (simp_all add: min_def)
  finally show ?thesis .
qed

text \<open>Rows as they are drawn, when the list's offset is in order.\<close>

definition row_highlighted :: "canvas_op \<Rightarrow> bool" where
  "row_highlighted x = (case x of canvas_draw_rbox a b c d e \<Rightarrow> True | _ \<Rightarrow> False)"

lemma list_row_highlights:
  "u8 (list_offset m + row) = i \<Longrightarrow> filter row_highlighted (list_row env m row) =
     (if i = list_selected m then [canvas_draw_rbox 0 (LIST_Y + int row * ROW_H) 123 ROW_H 2] else [])"
  by (auto simp: list_row_def row_highlighted_def wfr_draw_str_fit_def Let_def split: prod.splits)

lemma drawn_list_row: "row < 4 \<Longrightarrow> drawn (list_row env m row)"
  by (auto simp: list_row_def wfr_draw_str_fit_def Let_def LIST_Y_def ROW_H_def split: prod.splits)

lemma list_thumb_range:
  assumes "4 < list_count m"
  shows "4 \<le> list_thumb m \<and> list_thumb m \<le> 40"
proof -
  have "200 div int (list_count m) \<le> 200 div 5"
    using assms by (intro zdiv_mono2) auto
  then show ?thesis by (simp add: list_thumb_def Let_def ROWS_VISIBLE_def)
qed

lemma drawn_scrollbar:
  assumes "list_selected m < list_count m" and "4 < list_count m"
  shows "drawn (list_scrollbar m)"
proof -
  define t n where "t = list_thumb m" and "n = int (list_count m) - 1"
  have n: "0 < n" using assms(2) by (simp add: n_def)
  have t: "4 \<le> t" "t \<le> 40" using list_thumb_range [OF assms(2)] by (simp_all add: t_def)
  have "(50 - t) * int (list_selected m) \<le> (50 - t) * (int (list_count m) - 1)"
    using t assms by (intro mult_left_mono) auto
  then have "(50 - t) * int (list_selected m) div n \<le> (50 - t) * n div n"
    using n by (intro zdiv_mono1) (simp_all add: n_def)
  then have "(50 - t) * int (list_selected m) div n \<le> 50 - t"
    using n by simp
  moreover have "0 \<le> (50 - t) * int (list_selected m) div n"
    using t n by (simp add: pos_imp_zdiv_nonneg_iff)
  ultimately show ?thesis
    using t by (auto simp: list_scrollbar_def t_def [symmetric] n_def [symmetric] list_all_iff)
qed

lemma drawn_concat: "drawn (concat xss) \<longleftrightarrow> list_all drawn xss"
  by (induction xss) simp_all

lemma drawn_list:
  assumes "list_ok m"
  shows "drawn (wfr_list_view_draw env m)"
proof (cases "list_count m = 0")
  case True
  then show ?thesis by (simp add: wfr_list_view_draw_def)
next
  case False
  have rows: "drawn (concat (map (list_row env m) [0..<min ROWS_VISIBLE (list_count m - list_offset m)]))"
    by (auto simp: drawn_concat list_all_iff [of drawn] ROWS_VISIBLE_def intro!: drawn_list_row)
  have bar: "drawn (if list_count m > ROWS_VISIBLE then list_scrollbar m else [])"
    using assms drawn_scrollbar [of m] by (auto simp: list_ok_def ROWS_VISIBLE_def)
  show ?thesis
    unfolding wfr_list_view_draw_def visible_rows [OF assms False]
    using False rows bar by simp
qed

lemma list_highlights:
  assumes "list_ok m" and "list_count m \<noteq> 0"
  shows "filter row_highlighted (wfr_list_view_draw env m) =
    [canvas_draw_rbox 0 (LIST_Y + int (list_selected m - list_offset m) * ROW_H) 123 ROW_H 2]"
proof -
  define k where "k = min ROWS_VISIBLE (list_count m - list_offset m)"
  define s where "s = list_selected m - list_offset m"
  have s: "s < k" "list_selected m = list_offset m + s"
    using assms by (auto simp: list_ok_def s_def k_def)
  have row: "filter row_highlighted (list_row env m row) =
      (if row = s then [canvas_draw_rbox 0 (LIST_Y + int row * ROW_H) 123 ROW_H 2] else [])" if "row < k" for row
    using assms that s by (subst list_row_highlights [of _ _ "list_offset m + row"])
      (auto simp: list_ok_def view_limits k_def)
  have one: "concat (map (\<lambda>row. if row = s then [f row] else []) [0..<n]) = (if s < n then [f s] else [])"
    for n and f :: "nat \<Rightarrow> canvas_op"
    by (induction n) auto
  have "filter row_highlighted (concat (map (list_row env m) [0..<k]))
      = concat (map (\<lambda>row. filter row_highlighted (list_row env m row)) [0..<k])"
    by (simp add: filter_concat comp_def)
  also have "\<dots> = concat (map (\<lambda>row. if row = s
      then [canvas_draw_rbox 0 (LIST_Y + int row * ROW_H) 123 ROW_H 2] else []) [0..<k])"
    by (intro arg_cong [of _ _ concat] map_cong refl row) simp
  also have "\<dots> = [canvas_draw_rbox 0 (LIST_Y + int s * ROW_H) 123 ROW_H 2]"
    using s by (simp add: one)
  finally have "filter row_highlighted (concat (map (list_row env m) [0..<k]))
      = [canvas_draw_rbox 0 (LIST_Y + int s * ROW_H) 123 ROW_H 2]" .
  then show ?thesis
    unfolding wfr_list_view_draw_def visible_rows [OF assms] k_def [symmetric]
    using assms(2)
    by (auto simp: s_def row_highlighted_def list_scrollbar_def wfr_draw_dotted_hline_def filter_empty_conv comp_def)
qed

lemma menu_ok_selected_icon:
  "x = 32 - fst (icon_size icon) \<Longrightarrow> 0 \<le> x sdiv 2 \<and> x sdiv 2 + fst (icon_size icon) \<le> 32"
  "y = 32 - snd (icon_size icon) \<Longrightarrow> 0 \<le> y sdiv 2 \<and> y sdiv 2 + snd (icon_size icon) \<le> 32"
  using icon_size_bounds [of icon] by (auto simp: signed_divide_int_def sgn_if)

lemma drawn_menu:
  assumes "length (menu_items m) \<le> WFR_MENU_VIEW_MAX_ITEMS"
    and "canvas_string_width env (fst (menu_items m ! menu_selected m)) \<le> 116"
  shows "drawn (wfr_menu_view_draw env m)"
proof -
  obtain label icon where e: "menu_items m ! menu_selected m = (label, icon)" by fastforce
  have w: "canvas_string_width env label \<le> 116" using assms(2) e by simp
  have dots: "drawn (menu_page_dots m)"
    using assms(1) by (auto simp: menu_page_dots_def list_all_iff Let_def WFR_MENU_VIEW_MAX_ITEMS_def)
  have arrows: "drawn (wfr_draw_arrow_left 38 30)" "drawn (wfr_draw_arrow_right 91 30)"
    by (auto simp: wfr_draw_arrow_left_def wfr_draw_arrow_right_def list_all_iff)
  have half: "(128 - int (canvas_string_width env label)) sdiv 2 = (128 - int (canvas_string_width env label)) div 2"
    using w by (simp add: signed_divide_int_def sgn_if)
  define h where "h = (128 - int (canvas_string_width env label)) div 2"
  have h: "6 \<le> h" "h + int (canvas_string_width env label) \<le> 122" "h < 128"
    using w unfolding h_def by linarith+
  show ?thesis
    using w h dots arrows menu_ok_selected_icon [OF refl, of icon]
    by (simp add: wfr_menu_view_draw_def e half h_def [symmetric] wfr_draw_wordmark_def TILE_X_def TILE_Y_def TILE_SIZE_def Let_def)
qed

text \<open>The row of an entry inside the window is drawn with the entry's name.\<close>

lemma list_row_text:
  assumes "list_ok m" and "list_offset m + row < list_count m" and "row < ROWS_VISIBLE"
    and "list_items m ! (list_offset m + row) = (name, locked)"
  shows "canvas_draw_str 15 (LIST_Y + int row * ROW_H + 9) (elements_string_fit_width env name (if locked then 90 else 104))
    \<in> set (wfr_list_view_draw env m)"
proof -
  have ne: "list_count m \<noteq> 0" using assms(2) by linarith
  have u: "u8 (list_offset m + row) = list_offset m + row"
    using assms(1,2) by (simp add: list_ok_def view_limits)
  have "canvas_draw_str 15 (LIST_Y + int row * ROW_H + 9) (elements_string_fit_width env name (if locked then 90 else 104))
      \<in> set (list_row env m row)"
    using assms(4) by (simp add: list_row_def u Let_def wfr_draw_str_fit_def)
  moreover have "row \<in> set [0..<min ROWS_VISIBLE (list_count m - list_offset m)]"
    using assms(2,3) by simp
  ultimately show ?thesis
    unfolding wfr_list_view_draw_def visible_rows [OF assms(1) ne] using ne by auto
qed

text \<open>The texts of the saved list, when the fonts shorten names as they promise and the fixed texts fit.\<close>

definition list_fonts :: "canvas_env \<Rightarrow> string \<Rightarrow> bool" where
  "list_fonts env ttl \<longleftrightarrow>
     (\<forall>s w. 90 \<le> w \<longrightarrow> canvas_string_width env (elements_string_fit_width env s w) \<le> w)
     \<and> canvas_string_width env ttl \<le> 126 \<and> (\<forall>s. length s \<le> 7 \<longrightarrow> canvas_string_width env s \<le> 126)
     \<and> canvas_string_width env ''No saved networks yet'' \<le> 128
     \<and> canvas_string_width env ''Sent networks show up here'' \<le> 128"

lemma dotted_inside [simp]: "list_all (text_inside env) (wfr_draw_dotted_hline x y w)"
  by (simp add: wfr_draw_dotted_hline_def list_all_iff)

lemma scrollbar_inside [simp]: "list_all (text_inside env) (list_scrollbar m)"
  by (auto simp: list_scrollbar_def list_all_iff)

lemma fit_inside:
  "list_fonts env t \<Longrightarrow> 90 \<le> w \<Longrightarrow> 15 + int w \<le> b \<Longrightarrow> 15 + int (canvas_string_width env (elements_string_fit_width env s w)) \<le> b"
proof -
  assume "list_fonts env t" "90 \<le> w" "15 + int w \<le> b"
  moreover from this have "canvas_string_width env (elements_string_fit_width env s w) \<le> w"
    by (simp add: list_fonts_def)
  ultimately show ?thesis by linarith
qed

lemma list_row_inside: "list_fonts env t \<Longrightarrow> list_all (text_inside env) (list_row env m row)"
  using fit_inside [of env t 90 128] fit_inside [of env t 104 128]
  by (auto simp: list_row_def wfr_draw_str_fit_def Let_def split: prod.splits)

lemma length_counter: "length (str_trunc 7 s) \<le> 7"
  by simp

lemma list_texts_inside:
  assumes "list_fonts env (or_empty (list_title m))"
  shows "list_all (text_inside env) (wfr_list_view_draw env m)"
proof -
  have c: "canvas_string_width env (str_trunc 7 s) \<le> 126" for s
    using assms by (simp add: list_fonts_def)
  have w: "canvas_string_width env (or_empty (list_title m)) \<le> 126"
    "canvas_string_width env ''No saved networks yet'' \<le> 128" "canvas_string_width env ''Sent networks show up here'' \<le> 128"
    using assms by (simp_all add: list_fonts_def)
  have half: "int n div 2 \<le> 64" "64 - int n div 2 + int n \<le> 128" if "n \<le> 128" for n
    using that by linarith+
  have rows: "list_all (text_inside env) (concat (map (list_row env m) rs))" for rs
    using list_row_inside [OF assms] by (auto simp: list_all_iff)
  show ?thesis
    using w half [OF w(2)] half [OF w(3)] rows c
    by (simp add: wfr_list_view_draw_def Let_def)
qed

section \<open>Properties\<close>

text \<open>
  C37: the saved list draws what its selection is. In every model the list view can reach, all shapes lie on
  the 128 by 64 screen; in fonts in which the title, the counter and the two texts of the empty list
  fit and which shorten a name as they promise, no text runs off the screen; when there are entries,
  exactly one row is highlighted, it is the row of the selected entry, and that entry's name is drawn in
  it, ending before the lock and the scroll bar.
\<close>

theorem list_view_drawing:
  assumes "list_reach m" and "list_fonts env (or_empty (list_title m))"
  shows "list_all on_screen (wfr_list_view_draw env m) \<and> list_all (text_inside env) (wfr_list_view_draw env m)
    \<and> (list_count m \<noteq> 0 \<longrightarrow>
        (let y = LIST_Y + int (list_selected m - list_offset m) * ROW_H;
             (name, locked) = list_items m ! list_selected m;
             drawn_name = elements_string_fit_width env name (if locked then 90 else 104) in
         filter row_highlighted (wfr_list_view_draw env m) = [canvas_draw_rbox 0 y 123 ROW_H 2]
         \<and> canvas_draw_str 15 (y + 9) drawn_name \<in> set (wfr_list_view_draw env m)
         \<and> 15 + int (canvas_string_width env drawn_name) \<le> (if locked then 111 else 125)))"
proof (intro conjI impI)
  have ok: "list_ok m" using assms(1) by (rule list_reach_ok)
  show "drawn (wfr_list_view_draw env m)" using ok by (rule drawn_list)
  show "list_all (text_inside env) (wfr_list_view_draw env m)" using assms(2) by (rule list_texts_inside)
  assume ne: "list_count m \<noteq> 0"
  obtain name locked where e: "list_items m ! list_selected m = (name, locked)" by fastforce
  define row where "row = list_selected m - list_offset m"
  have "list_selected m = list_offset m + row" "row < ROWS_VISIBLE" "list_offset m + row < list_count m"
    using ok ne by (auto simp: list_ok_def row_def)
  moreover have "15 + int (canvas_string_width env (elements_string_fit_width env name (if locked then 90 else 104)))
      \<le> (if locked then 111 else 125)"
    by (intro fit_inside [OF assms(2)]) auto
  ultimately show "let y = LIST_Y + int (list_selected m - list_offset m) * ROW_H;
             (name, locked) = list_items m ! list_selected m;
             drawn_name = elements_string_fit_width env name (if locked then 90 else 104) in
         filter row_highlighted (wfr_list_view_draw env m) = [canvas_draw_rbox 0 y 123 ROW_H 2]
         \<and> canvas_draw_str 15 (y + 9) drawn_name \<in> set (wfr_list_view_draw env m)
         \<and> 15 + int (canvas_string_width env drawn_name) \<le> (if locked then 111 else 125)"
    using list_highlights [OF ok ne, of env] list_row_text [OF ok, of row name locked env] e
    by (simp add: row_def Let_def)
qed

text \<open>A font of four pixels a character.\<close>

definition four_pixels :: canvas_env where
  "four_pixels = \<lparr>canvas_string_width = (\<lambda>s. 4 * length s), elements_string_fit_width = (\<lambda>s w. take (w div 4) s)\<rparr>"

theorem list_view_drawing_witness:
  "list_all (text_inside four_pixels) (wfr_list_view_draw four_pixels six_items)
     \<and> filter row_highlighted (wfr_list_view_draw four_pixels six_items) = [canvas_draw_rbox 0 51 123 12 2]"
proof -
  have r: "list_reach six_items"
    by (auto simp: six_items_def intro!: list_reach.intros)
  have c: "list_count six_items \<noteq> 0" "list_selected six_items - list_offset six_items = 3"
    "or_empty (list_title six_items) = []"
    by (simp_all add: six_items_def wfr_list_view_set_selected_def wfr_list_view_add_item_def
        wfr_list_view_reset_def view_limits or_empty_def)
  have "list_fonts four_pixels (or_empty (list_title six_items))"
    unfolding list_fonts_def c(3) by (auto simp: four_pixels_def)
  with list_view_drawing [OF r this] c(1,2) show ?thesis
    by (simp add: Let_def LIST_Y_def ROW_H_def split: prod.splits)
qed



end
