(* ===== verification/Lifecycle.thy ===== *)
theory Lifecycle
  imports App
begin

text \<open>
  What the application holds: the allocations of \<^verbatim>\<open>wi_fir_alloc\<close> and of the views' own \<^verbatim>\<open>alloc\<close>
  functions, the records it opens and the views it registers with the view dispatcher, and how
  \<^verbatim>\<open>wi_fir_free\<close> and the views' \<^verbatim>\<open>free\<close> functions give them back. The calls are a list of actions;
  \<open>account\<close> follows them and fails where the code would leak, free twice, or free a view that the
  dispatcher can still show. Stock modules, records and the dispatcher are the firmware's.
\<close>

datatype holding =
    AppMemory | RecordGui | RecordNotification | RecordStorage | ViewDispatcher | SceneManager
  | ViewStruct WiFirView | ViewObject WiFirView | StatusTimer | StockModule WiFirView

datatype action =
    Acquire holding | Release holding | AddView WiFirView | RemoveView WiFirView
  | TimerStart | TimerStop

section \<open>The views\<close>

definition wfr_menu_view_alloc :: "action list" where
  "wfr_menu_view_alloc = [Acquire (ViewStruct WiFirViewMenu), Acquire (ViewObject WiFirViewMenu)]"

definition wfr_menu_view_free :: "action list" where
  "wfr_menu_view_free = [Release (ViewObject WiFirViewMenu), Release (ViewStruct WiFirViewMenu)]"

definition wfr_list_view_alloc :: "action list" where
  "wfr_list_view_alloc = [Acquire (ViewStruct WiFirViewList), Acquire (ViewObject WiFirViewList)]"

definition wfr_list_view_free :: "action list" where
  "wfr_list_view_free = [Release (ViewObject WiFirViewList), Release (ViewStruct WiFirViewList)]"

definition wfr_confirm_view_alloc :: "action list" where
  "wfr_confirm_view_alloc = [Acquire (ViewStruct WiFirViewConfirm), Acquire (ViewObject WiFirViewConfirm)]"

definition wfr_confirm_view_free :: "action list" where
  "wfr_confirm_view_free = [Release (ViewObject WiFirViewConfirm), Release (ViewStruct WiFirViewConfirm)]"

definition wfr_status_view_alloc :: "action list" where
  "wfr_status_view_alloc =
     [Acquire (ViewStruct WiFirViewStatus), Acquire (ViewObject WiFirViewStatus), Acquire StatusTimer]"

definition wfr_status_view_free :: "action list" where
  "wfr_status_view_free =
     [TimerStop, Release StatusTimer, Release (ViewObject WiFirViewStatus), Release (ViewStruct WiFirViewStatus)]"

definition wfr_status_view_enter :: "action list" where "wfr_status_view_enter = [TimerStart]"
definition wfr_status_view_exit :: "action list" where "wfr_status_view_exit = [TimerStop]"

section \<open>The application\<close>

definition stock_alloc :: "WiFirView \<Rightarrow> action list" where
  "stock_alloc v = [Acquire (StockModule v), AddView v]"

definition wi_fir_alloc_actions :: "action list" where
  "wi_fir_alloc_actions =
     [Acquire AppMemory, Acquire RecordGui, Acquire RecordNotification, Acquire RecordStorage,
      Acquire ViewDispatcher, Acquire SceneManager]
     @ wfr_menu_view_alloc @ [AddView WiFirViewMenu]
     @ wfr_list_view_alloc @ [AddView WiFirViewList]
     @ wfr_confirm_view_alloc @ [AddView WiFirViewConfirm]
     @ wfr_status_view_alloc @ [AddView WiFirViewStatus]
     @ stock_alloc WiFirViewTextInput @ stock_alloc WiFirViewVariableItemList @ stock_alloc WiFirViewDialogEx"

definition wi_fir_free :: "action list" where
  "wi_fir_free =
     map RemoveView [WiFirViewMenu, WiFirViewList, WiFirViewConfirm, WiFirViewStatus, WiFirViewTextInput,
       WiFirViewVariableItemList, WiFirViewDialogEx]
     @ wfr_menu_view_free @ wfr_list_view_free @ wfr_confirm_view_free @ wfr_status_view_free
     @ map (Release \<circ> StockModule) [WiFirViewTextInput, WiFirViewVariableItemList, WiFirViewDialogEx]
     @ [Release SceneManager, Release ViewDispatcher, Release RecordStorage, Release RecordGui,
        Release RecordNotification, Release AppMemory]"

section \<open>Accounting\<close>

record account =
  held :: "holding list"
  registered :: "WiFirView list"
  timer_running :: bool

definition nothing_held :: account where
  "nothing_held = \<lparr>held = [], registered = [], timer_running = False\<rparr>"

definition may_release :: "account \<Rightarrow> holding \<Rightarrow> bool" where
  "may_release s h \<longleftrightarrow> h \<in> set (held s) \<and>
     (case h of
        ViewStruct v \<Rightarrow> v \<notin> set (registered s)
      | ViewObject v \<Rightarrow> v \<notin> set (registered s)
      | StockModule v \<Rightarrow> v \<notin> set (registered s)
      | StatusTimer \<Rightarrow> \<not> timer_running s
      | ViewDispatcher \<Rightarrow> registered s = []
      | AppMemory \<Rightarrow> held s = [AppMemory]
      | _ \<Rightarrow> True)"

fun step :: "action \<Rightarrow> account \<Rightarrow> account option" where
  "step (Acquire h) s = (if h \<in> set (held s) then None else Some (s\<lparr>held := h # held s\<rparr>))"
| "step (Release h) s = (if may_release s h then Some (s\<lparr>held := removeAll h (held s)\<rparr>) else None)"
| "step (AddView v) s =
     (if ViewDispatcher \<in> set (held s) \<and> v \<notin> set (registered s) then Some (s\<lparr>registered := v # registered s\<rparr>) else None)"
| "step (RemoveView v) s =
     (if ViewDispatcher \<in> set (held s) \<and> v \<in> set (registered s)
      then Some (s\<lparr>registered := removeAll v (registered s)\<rparr>) else None)"
| "step TimerStart s = (if StatusTimer \<in> set (held s) then Some (s\<lparr>timer_running := True\<rparr>) else None)"
| "step TimerStop s = (if StatusTimer \<in> set (held s) then Some (s\<lparr>timer_running := False\<rparr>) else None)"

fun account_of :: "action list \<Rightarrow> account \<Rightarrow> account option" where
  "account_of [] s = Some s"
| "account_of (a # as) s = (case step a s of None \<Rightarrow> None | Some s' \<Rightarrow> account_of as s')"

lemma account_of_append: "account_of (as @ bs) s = Option.bind (account_of as s) (account_of bs)"
  by (induction as arbitrary: s) (auto split: option.splits)

lemmas view_actions = wfr_menu_view_alloc_def wfr_menu_view_free_def wfr_list_view_alloc_def wfr_list_view_free_def
  wfr_confirm_view_alloc_def wfr_confirm_view_free_def wfr_status_view_alloc_def wfr_status_view_free_def
  wfr_status_view_enter_def wfr_status_view_exit_def stock_alloc_def

text \<open>While the application runs, the dispatcher enters and leaves the status view.\<close>

definition app_running :: "bool \<Rightarrow> account" where
  "app_running t = \<lparr>held = [StockModule WiFirViewDialogEx, StockModule WiFirViewVariableItemList,
       StockModule WiFirViewTextInput, StatusTimer, ViewObject WiFirViewStatus, ViewStruct WiFirViewStatus,
       ViewObject WiFirViewConfirm, ViewStruct WiFirViewConfirm, ViewObject WiFirViewList, ViewStruct WiFirViewList,
       ViewObject WiFirViewMenu, ViewStruct WiFirViewMenu, SceneManager, ViewDispatcher, RecordStorage,
       RecordNotification, RecordGui, AppMemory],
     registered = [WiFirViewDialogEx, WiFirViewVariableItemList, WiFirViewTextInput, WiFirViewStatus,
       WiFirViewConfirm, WiFirViewList, WiFirViewMenu],
     timer_running = t\<rparr>"

lemma alloc_account: "account_of wi_fir_alloc_actions nothing_held = Some (app_running False)"
  by (simp add: wi_fir_alloc_actions_def view_actions nothing_held_def app_running_def)

lemma free_account: "account_of wi_fir_free (app_running t) = Some nothing_held"
  by (simp add: wi_fir_free_def view_actions app_running_def nothing_held_def may_release_def)

lemma run_account:
  "list_all (\<lambda>as. as = wfr_status_view_enter \<or> as = wfr_status_view_exit) run \<Longrightarrow>
     \<exists>t'. account_of (concat run) (app_running t) = Some (app_running t')"
proof (induction run arbitrary: t)
  case (Cons as run)
  have "\<exists>t'. account_of as (app_running t) = Some (app_running t')"
    using Cons.prems by (auto simp: view_actions app_running_def)
  with Cons show ?case by (auto simp: account_of_append)
qed auto

text \<open>
  The application gives back everything it took. Whatever views were entered and left in between, a
  run from \<^verbatim>\<open>wi_fir_alloc\<close> to \<^verbatim>\<open>wi_fir_free\<close> acquires nothing twice, releases only what is held, frees
  no view that is still registered with the dispatcher and no timer that still runs, and ends with
  nothing held, even when it ends on the status view.
\<close>

lemma app_lifecycle:
  assumes "list_all (\<lambda>as. as = wfr_status_view_enter \<or> as = wfr_status_view_exit) run"
  shows "account_of (wi_fir_alloc_actions @ concat run @ wi_fir_free) nothing_held = Some nothing_held"
  using run_account [OF assms, of False] by (auto simp: account_of_append alloc_account free_account)

end
