(* ===== verification/Navigation.thy ===== *)
theory Navigation
  imports Scenes
begin

text \<open>
  The running application: \<^verbatim>\<open>wi_fir_app\<close> and the three callbacks of \<^verbatim>\<open>flipper/wi_fir.c\<close> through which
  the view dispatcher hands custom events, ticks and the Back key to the scene manager, with the
  scenes of theory \<open>Scenes\<close> behind them. The firmware's scene manager is the parameter
  \<open>sm\<close>; \<open>scene_manager_laws\<close> is what the code relies on. The dispatcher's part is the step relation
  \<open>app_reach\<close>: custom events are handled in the order they were posted, everything else comes when it
  likes, but Back is handled only when the events of earlier keys have been.
\<close>

section \<open>The scene manager\<close>

text \<open>
  A scene change answers with the calls the manager makes to the scenes' handlers. \<open>sm_stack\<close>: the
  scenes that were entered and not left, the current one first.
\<close>

datatype scene_call = CallEnter WiFirScene | CallExit WiFirScene

record 'm scene_manager =
  sm_stack :: "'m \<Rightarrow> WiFirScene list"
  sm_receiver :: "'m \<Rightarrow> WiFirScene option"
  scene_manager_next_scene :: "WiFirScene \<Rightarrow> 'm \<Rightarrow> scene_call list \<times> 'm"
  scene_manager_previous_scene :: "'m \<Rightarrow> bool \<times> scene_call list \<times> 'm"
  scene_manager_search_and_switch :: "WiFirScene \<Rightarrow> 'm \<Rightarrow> bool \<times> scene_call list \<times> 'm"
  sm_back_unconsumed :: "'m \<Rightarrow> bool \<times> scene_call list \<times> 'm"

definition leave_current :: "WiFirScene list \<Rightarrow> scene_call list" where
  "leave_current st = (case st of [] \<Rightarrow> [] | s # _ \<Rightarrow> [CallExit s])"

definition enter_current :: "WiFirScene list \<Rightarrow> scene_call list" where
  "enter_current st = (case st of [] \<Rightarrow> [] | s # _ \<Rightarrow> [CallEnter s])"

text \<open>
  Events go to the current scene. The next scene is put on top; the previous one is uncovered by
  leaving the current one, and there is none below the last; searching leaves for the topmost visit of
  a scene that was entered. A Back event that no scene consumed goes to the previous scene.
\<close>

definition scene_manager_laws :: "'m scene_manager \<Rightarrow> bool" where
  "scene_manager_laws sm \<longleftrightarrow>
     (\<forall>m. sm_receiver sm m = (case sm_stack sm m of [] \<Rightarrow> None | s # _ \<Rightarrow> Some s)) \<and>
     (\<forall>s m. fst (scene_manager_next_scene sm s m) = leave_current (sm_stack sm m) @ [CallEnter s]
        \<and> sm_stack sm (snd (scene_manager_next_scene sm s m)) = s # sm_stack sm m) \<and>
     (\<forall>m. fst (scene_manager_previous_scene sm m) = (tl (sm_stack sm m) \<noteq> [])
        \<and> fst (snd (scene_manager_previous_scene sm m)) =
            leave_current (sm_stack sm m) @ enter_current (tl (sm_stack sm m))
        \<and> sm_stack sm (snd (snd (scene_manager_previous_scene sm m))) = tl (sm_stack sm m)) \<and>
     (\<forall>s m. s \<in> set (sm_stack sm m) \<longrightarrow> fst (scene_manager_search_and_switch sm s m)
        \<and> fst (snd (scene_manager_search_and_switch sm s m)) = leave_current (sm_stack sm m) @ [CallEnter s]
        \<and> sm_stack sm (snd (snd (scene_manager_search_and_switch sm s m))) = dropWhile (\<lambda>t. t \<noteq> s) (sm_stack sm m)) \<and>
     (\<forall>m. sm_back_unconsumed sm m = scene_manager_previous_scene sm m)"

section \<open>The callbacks\<close>

text \<open>
  The application runs, with the scene manager's state; or it has left its last scene; or a handler
  has read outside an array; or the tag with these pages has been read and its parser gives no result,
  because it reads outside the pages or never ends. A run is not followed beyond the last two.
\<close>

datatype ('m, 'w) app_run = Running 'm "'w WiFirApp" | Finished "'w WiFirApp" | OutOfRange | TagFault "byte list" nat

fun run_calls ::
  "'w flipper_storage \<Rightarrow> string \<Rightarrow> bool \<Rightarrow> scene_call list \<Rightarrow> 'w WiFirApp \<Rightarrow> 'w WiFirApp option" where
  "run_calls env version ok [] app = Some app"
| "run_calls env version ok (CallExit s # calls) app = run_calls env version ok calls (scene_on_exit ok s app)"
| "run_calls env version ok (CallEnter s # calls) app =
     Option.bind (scene_on_enter env version ok s app) (run_calls env version ok calls)"

definition resume :: "'m \<Rightarrow> 'w WiFirApp option \<Rightarrow> ('m, 'w) app_run" where
  "resume m r = (case r of None \<Rightarrow> OutOfRange | Some app \<Rightarrow> Running m app)"

text \<open>
  A handler asks for a scene change as the last thing it does, so the change is made when the handler
  has returned. Requests to other services change no scene.
\<close>

definition perform ::
  "'m scene_manager \<Rightarrow> 'w flipper_storage \<Rightarrow> string \<Rightarrow> bool \<Rightarrow> request \<Rightarrow> 'm \<Rightarrow> 'w WiFirApp \<Rightarrow> ('m, 'w) app_run" where
  "perform sm env version ok r m app =
     (case r of
        NextScene s \<Rightarrow>
          (case scene_manager_next_scene sm s m of (calls, m') \<Rightarrow> resume m' (run_calls env version ok calls app))
      | PreviousScene \<Rightarrow>
          (case scene_manager_previous_scene sm m of (moved, calls, m') \<Rightarrow>
             resume m' (run_calls env version ok calls app))
      | SearchAndSwitchToPreviousScene s \<Rightarrow>
          (case scene_manager_search_and_switch sm s m of (moved, calls, m') \<Rightarrow>
             resume m' (run_calls env version ok calls app))
      | _ \<Rightarrow> Running m app)"

fun perform_all ::
  "'m scene_manager \<Rightarrow> 'w flipper_storage \<Rightarrow> string \<Rightarrow> bool \<Rightarrow> request list \<Rightarrow> 'm \<Rightarrow> 'w WiFirApp \<Rightarrow> ('m, 'w) app_run" where
  "perform_all sm env version ok [] m app = Running m app"
| "perform_all sm env version ok (r # rs) m app =
     (case perform sm env version ok r m app of
        Running m' app' \<Rightarrow> perform_all sm env version ok rs m' app'
      | stopped \<Rightarrow> stopped)"

definition handle_event ::
  "'m scene_manager \<Rightarrow> 'w flipper_storage \<Rightarrow> string \<Rightarrow> bool \<Rightarrow> SceneManagerEvent \<Rightarrow> 'm \<Rightarrow> 'w WiFirApp
     \<Rightarrow> bool \<times> ('m, 'w) app_run" where
  "handle_event sm env version ok event m app =
     (case sm_receiver sm m of
        None \<Rightarrow> (False, Running m app)
      | Some s \<Rightarrow>
          (case scene_on_event env ok s event app of (consumed, app') \<Rightarrow>
             (consumed, perform_all sm env version ok (drop (length (requests app)) (requests app')) m app')))"

definition wi_fir_custom_event_callback ::
  "'m scene_manager \<Rightarrow> 'w flipper_storage \<Rightarrow> string \<Rightarrow> bool \<Rightarrow> WiFirCustomEvent \<Rightarrow> 'm \<Rightarrow> 'w WiFirApp
     \<Rightarrow> bool \<times> ('m, 'w) app_run" where
  "wi_fir_custom_event_callback sm env version ok ev m app =
     handle_event sm env version ok (SceneManagerEventTypeCustom ev) m app"

definition wi_fir_tick_event_callback ::
  "'m scene_manager \<Rightarrow> 'w flipper_storage \<Rightarrow> string \<Rightarrow> bool \<Rightarrow> 'm \<Rightarrow> 'w WiFirApp \<Rightarrow> ('m, 'w) app_run" where
  "wi_fir_tick_event_callback sm env version ok m app =
     snd (handle_event sm env version ok SceneManagerEventTypeTick m app)"

text \<open>When the callback for Back answers false, the dispatcher stops and \<^verbatim>\<open>view_dispatcher_run\<close> returns.\<close>

definition wi_fir_back_event_callback ::
  "'m scene_manager \<Rightarrow> 'w flipper_storage \<Rightarrow> string \<Rightarrow> bool \<Rightarrow> 'm \<Rightarrow> 'w WiFirApp \<Rightarrow> bool \<times> ('m, 'w) app_run" where
  "wi_fir_back_event_callback sm env version ok m app =
     (case handle_event sm env version ok SceneManagerEventTypeBack m app of
        (True, run) \<Rightarrow> (True, run)
      | (False, Running m' app') \<Rightarrow>
          (case sm_back_unconsumed sm m' of (moved, calls, m'') \<Rightarrow>
             (moved, resume m'' (run_calls env version ok calls app')))
      | (False, run) \<Rightarrow> (False, run))"

definition after_back :: "bool \<times> ('m, 'w) app_run \<Rightarrow> ('m, 'w) app_run" where
  "after_back r = (case r of (False, Running m app) \<Rightarrow> Finished app | (_, run) \<Rightarrow> run)"

text \<open>\<^verbatim>\<open>wi_fir_app\<close> up to \<^verbatim>\<open>view_dispatcher_run\<close>, in a fresh scene manager.\<close>

definition wi_fir_app_start ::
  "'m scene_manager \<Rightarrow> 'w flipper_storage \<Rightarrow> string \<Rightarrow> bool \<Rightarrow> 'm \<Rightarrow> 'w \<Rightarrow> ('m, 'w) app_run" where
  "wi_fir_app_start sm env version ok m w =
     perform sm env version ok (NextScene WiFirSceneMainMenu) m (wi_fir_alloc env w)"

section \<open>The application as it runs\<close>

definition shown_view :: "request list \<Rightarrow> WiFirView option" where
  "shown_view rs = fold (\<lambda>r v. case r of SwitchToView x \<Rightarrow> Some x | _ \<Rightarrow> v) rs None"

text \<open>The events that threads post; all others are posted for keys.\<close>

definition from_thread :: "WiFirCustomEvent \<Rightarrow> bool" where
  "from_thread ev \<longleftrightarrow> ev \<in> {WiFirCustomEventTxFinished, WiFirCustomEventAckSuccess, WiFirCustomEventAckFail,
     WiFirCustomEventAckTimeout, WiFirCustomEventNfcWifiFound, WiFirCustomEventNfcNotWifi, WiFirCustomEventNfcError}"

definition menu_pressed :: "nat option \<Rightarrow> WfrMenuViewModel \<Rightarrow> 'w WiFirApp \<Rightarrow> 'w WiFirApp" where
  "menu_pressed called v app =
     (case called of None \<Rightarrow> app\<lparr>menu := v\<rparr> | Some i \<Rightarrow> wi_fir_scene_main_menu_callback i (app\<lparr>menu := v\<rparr>))"

definition list_pressed :: "nat option \<Rightarrow> WfrListViewModel \<Rightarrow> 'w WiFirApp \<Rightarrow> 'w WiFirApp" where
  "list_pressed called v app =
     (case called of None \<Rightarrow> app\<lparr>list_view := v\<rparr> | Some i \<Rightarrow> wi_fir_scene_saved_callback i (app\<lparr>list_view := v\<rparr>))"

text \<open>
  A key goes to the view that is shown. The stock modules call back only what the current scene has
  installed: the text input edits its buffer and reports that it is done; the variable item list hands
  over an index below the number of values; the dialog reports its left or right button.
\<close>

inductive app_reach ::
  "'m scene_manager \<Rightarrow> 'w flipper_storage \<Rightarrow> string \<Rightarrow> (nat \<Rightarrow> u32) \<Rightarrow> ('m, 'w) app_run \<Rightarrow> bool"
  for sm env version ms where
  start: "sm_stack sm m = [] \<Longrightarrow> app_reach sm env version ms (wi_fir_app_start sm env version ok m w)"
| custom: "app_reach sm env version ms (Running m app) \<Longrightarrow> posted app = ev # rest \<Longrightarrow>
     app_reach sm env version ms (snd (wi_fir_custom_event_callback sm env version ok ev m (app\<lparr>posted := rest\<rparr>)))"
| ticks: "app_reach sm env version ms (Running m app) \<Longrightarrow>
     app_reach sm env version ms (wi_fir_tick_event_callback sm env version ok m app)"
| back_key: "app_reach sm env version ms (Running m app) \<Longrightarrow> list_all from_thread (posted app) \<Longrightarrow>
     app_reach sm env version ms (after_back (wi_fir_back_event_callback sm env version ok m app))"
| menu_key: "app_reach sm env version ms (Running m app) \<Longrightarrow> shown_view (requests app) = Some WiFirViewMenu \<Longrightarrow>
     wfr_menu_view_input e (menu app) = (used, called, v) \<Longrightarrow>
     app_reach sm env version ms (Running m (menu_pressed called v app))"
| list_key: "app_reach sm env version ms (Running m app) \<Longrightarrow> shown_view (requests app) = Some WiFirViewList \<Longrightarrow>
     wfr_list_view_input e (list_view app) = (used, called, l) \<Longrightarrow>
     app_reach sm env version ms (Running m (list_pressed called l app))"
| confirm_key: "app_reach sm env version ms (Running m app) \<Longrightarrow>
     shown_view (requests app) = Some WiFirViewConfirm \<Longrightarrow>
     wfr_confirm_view_input e (confirm app) = (used, Some answer) \<Longrightarrow>
     app_reach sm env version ms (Running m (wi_fir_scene_confirm_callback answer app))"
| dialog_key: "app_reach sm env version ms (Running m app) \<Longrightarrow>
     shown_view (requests app) = Some WiFirViewDialogEx \<Longrightarrow>
     app_reach sm env version ms (Running m (wi_fir_scene_confirm_delete_callback right app))"
| status_key: "app_reach sm env version ms (Running m app) \<Longrightarrow>
     shown_view (requests app) = Some WiFirViewStatus \<Longrightarrow> status_callback app \<Longrightarrow>
     wfr_status_view_input e (status app) = (True, Some k) \<Longrightarrow>
     app_reach sm env version ms (Running m (wi_fir_status_callback k app))"
| text_edit: "app_reach sm env version ms (Running m app) \<Longrightarrow>
     shown_view (requests app) = Some WiFirViewTextInput \<Longrightarrow>
     app_reach sm env version ms (Running m (app\<lparr>text_input_buf := s\<rparr>))"
| text_done: "app_reach sm env version ms (Running m app) \<Longrightarrow>
     shown_view (requests app) = Some WiFirViewTextInput \<Longrightarrow>
     app_reach sm env version ms (Running m (wi_fir_scene_edit_callback app))"
| security_change: "app_reach sm env version ms (Running m app) \<Longrightarrow>
     sm_receiver sm m = Some WiFirSceneEditSecurity \<Longrightarrow> unat index < length security_names \<Longrightarrow>
     wi_fir_scene_edit_security_change_callback index app = Some app' \<Longrightarrow>
     app_reach sm env version ms (Running m app')"
| hidden_change: "app_reach sm env version ms (Running m app) \<Longrightarrow>
     sm_receiver sm m = Some WiFirSceneEditSecurity \<Longrightarrow> unat index < length hidden_names \<Longrightarrow>
     wi_fir_scene_edit_hidden_change_callback index app = Some app' \<Longrightarrow>
     app_reach sm env version ms (Running m app')"
| security_done: "app_reach sm env version ms (Running m app) \<Longrightarrow>
     sm_receiver sm m = Some WiFirSceneEditSecurity \<Longrightarrow>
     app_reach sm env version ms (Running m (wi_fir_scene_edit_security_enter_callback app))"
| protocol_change: "app_reach sm env version ms (Running m app) \<Longrightarrow>
     sm_receiver sm m = Some WiFirSceneSettings \<Longrightarrow> unat index < length protocol_names \<Longrightarrow>
     wi_fir_scene_settings_protocol_change env index app = Some app' \<Longrightarrow>
     app_reach sm env version ms (Running m app')"
| ack_change: "app_reach sm env version ms (Running m app) \<Longrightarrow>
     sm_receiver sm m = Some WiFirSceneSettings \<Longrightarrow> unat index < length ack_names \<Longrightarrow>
     wi_fir_scene_settings_ack_change env index app = Some app' \<Longrightarrow>
     app_reach sm env version ms (Running m app')"
| tx_progress: "app_reach sm env version ms (Running m app) \<Longrightarrow> tx_thread app = Some TxSending \<Longrightarrow>
     app_reach sm env version ms (Running m (snd (wi_fir_tx_progress n tot app)))"
| tx_returned: "app_reach sm env version ms (Running m app) \<Longrightarrow> tx_thread app = Some TxSending \<Longrightarrow>
     app_reach sm env version ms (Running m (wi_fir_tx_worker_returned ok app))"
| tx_posts: "app_reach sm env version ms (Running m app) \<Longrightarrow> tx_thread app = Some TxPosting \<Longrightarrow>
     app_reach sm env version ms (Running m (wi_fir_tx_worker_post app))"
| ir_signal: "app_reach sm env version ms (Running m app) \<Longrightarrow> ir_worker app \<Longrightarrow>
     app_reach sm env version ms (Running m (wi_fir_ir_rx_callback ms t sg app))"
| ack_timeout: "app_reach sm env version ms (Running m app) \<Longrightarrow> ack_timer app = Some TimerArmed \<Longrightarrow>
     app_reach sm env version ms (Running m (wi_fir_ack_timeout_callback (app\<lparr>ack_timer := Some TimerFired\<rparr>)))"
| frame_tick: "app_reach sm env version ms (Running m app) \<Longrightarrow>
     app_reach sm env version ms (Running m (show_status wfr_status_view_tick app))"
| nfc_poll: "app_reach sm env version ms (Running m app) \<Longrightarrow> nfc_polling app \<Longrightarrow>
     wi_fir_nfc_poller_callback fuel pe app = Ret (reply, app') \<Longrightarrow>
     app_reach sm env version ms (Running m app')"
| nfc_fault: "app_reach sm env version ms (Running m app) \<Longrightarrow> nfc_polling app \<Longrightarrow>
     \<forall>fuel. \<not> fine (wi_fir_nfc_poller_callback fuel (MfUltralightPollerEventTypeReadSuccess page n) app) \<Longrightarrow>
     app_reach sm env version ms (TagFault page n)"

end
