(* ===== verification/Navigation_Facts.thy ===== *)
theory Navigation_Facts
  imports Navigation
begin

text \<open>
  What holds in every state the running application can reach: which scenes are entered, which view is
  shown, who is alive, and what the queue of custom events can hold. The invariant is a condition on
  the current scene and one on the queue; each kind of step has its lemma.
\<close>

section \<open>The scene manager's answers\<close>

lemma manager_next:
  assumes "scene_manager_laws sm"
  obtains m' where "scene_manager_next_scene sm s m = (leave_current (sm_stack sm m) @ [CallEnter s], m')"
    "sm_stack sm m' = s # sm_stack sm m"
  by (rule that [of "snd (scene_manager_next_scene sm s m)"]) (use assms in \<open>simp_all add: scene_manager_laws_def prod_eq_iff\<close>)

lemma manager_previous:
  assumes "scene_manager_laws sm"
  obtains m' where "scene_manager_previous_scene sm m = (tl (sm_stack sm m) \<noteq> [],
      leave_current (sm_stack sm m) @ enter_current (tl (sm_stack sm m)), m')"
    "sm_stack sm m' = tl (sm_stack sm m)"
  by (rule that [of "snd (snd (scene_manager_previous_scene sm m))"]) (use assms in \<open>simp_all add: scene_manager_laws_def prod_eq_iff\<close>)

lemma manager_search:
  assumes "scene_manager_laws sm" "s \<in> set (sm_stack sm m)"
  obtains m' where "scene_manager_search_and_switch sm s m = (True, leave_current (sm_stack sm m) @ [CallEnter s], m')"
    "sm_stack sm m' = dropWhile (\<lambda>t. t \<noteq> s) (sm_stack sm m)"
  by (rule that [of "snd (snd (scene_manager_search_and_switch sm s m))"]) (use assms in \<open>simp_all add: scene_manager_laws_def prod_eq_iff\<close>)

lemma manager_receiver:
  "scene_manager_laws sm \<Longrightarrow> sm_receiver sm m = (case sm_stack sm m of [] \<Rightarrow> None | s # _ \<Rightarrow> Some s)"
  unfolding scene_manager_laws_def by blast

lemma manager_back: "scene_manager_laws sm \<Longrightarrow> sm_back_unconsumed sm m = scene_manager_previous_scene sm m"
  unfolding scene_manager_laws_def by blast

section \<open>The queue\<close>

text \<open>\<open>not_behind A B q\<close>: no \<open>B\<close> is queued behind an \<open>A\<close>.\<close>

fun not_behind :: "('e \<Rightarrow> bool) \<Rightarrow> ('e \<Rightarrow> bool) \<Rightarrow> 'e list \<Rightarrow> bool" where
  "not_behind A B [] = True"
| "not_behind A B (e # q) \<longleftrightarrow> (A e \<longrightarrow> (\<forall>x \<in> set q. \<not> B x)) \<and> not_behind A B q"

lemma not_behind_snoc: "not_behind A B (q @ [e]) \<longleftrightarrow> not_behind A B q \<and> (B e \<longrightarrow> (\<forall>x \<in> set q. \<not> A x))"
  by (induction q) auto

lemma not_behind_none: "(\<forall>x \<in> set q. \<not> A x) \<or> (\<forall>x \<in> set q. \<not> B x) \<Longrightarrow> not_behind A B q"
  by (induction q) auto

definition is_send :: "WiFirCustomEvent \<Rightarrow> bool" where
  "is_send ev \<longleftrightarrow> ev = WiFirCustomEventConfirmSend"

definition is_transmit_event :: "WiFirCustomEvent \<Rightarrow> bool" where
  "is_transmit_event ev \<longleftrightarrow> is_tx_event ev \<or> is_ack_event ev \<or> is_key_event ev"

definition is_confirm_event :: "WiFirCustomEvent \<Rightarrow> bool" where
  "is_confirm_event ev \<longleftrightarrow> ev \<in> {WiFirCustomEventConfirmSend, WiFirCustomEventConfirmBack, WiFirCustomEventConfirmDelete,
     WiFirCustomEventDeleteConfirmed, WiFirCustomEventDeleteCancelled}"

text \<open>The events that lead to the confirmation.\<close>

definition is_opening :: "WiFirCustomEvent \<Rightarrow> bool" where
  "is_opening ev \<longleftrightarrow> ev \<in> {WiFirCustomEventSavedSelected, WiFirCustomEventNfcWifiFound, WiFirCustomEventSecurityDone}"

lemmas event_classes = is_send_def is_transmit_event_def is_confirm_event_def is_opening_def is_ack_event_def is_key_event_def

definition queue_inv :: "WiFirScene \<Rightarrow> u16 \<Rightarrow> WiFirCustomEvent list \<Rightarrow> bool" where
  "queue_inv s ticks q \<longleftrightarrow>
     (if s = WiFirSceneTransmit
      then not_behind is_transmit_event is_send q \<and> (ticks > 0 \<longrightarrow> (\<forall>x \<in> set q. \<not> is_send x))
      else not_behind is_send is_transmit_event q) \<and>
     (if s = WiFirSceneConfirm then not_behind is_confirm_event is_opening q
      else not_behind is_opening is_confirm_event q)"

section \<open>The scenes\<close>

definition nav_stacks :: "WiFirScene list set" where
  "nav_stacks = {
     [WiFirSceneMainMenu],
     [WiFirSceneEditSsid, WiFirSceneMainMenu],
     [WiFirSceneEditPassword, WiFirSceneEditSsid, WiFirSceneMainMenu],
     [WiFirSceneEditSecurity, WiFirSceneEditPassword, WiFirSceneEditSsid, WiFirSceneMainMenu],
     [WiFirSceneConfirm, WiFirSceneEditSecurity, WiFirSceneEditPassword, WiFirSceneEditSsid, WiFirSceneMainMenu],
     [WiFirSceneTransmit, WiFirSceneConfirm, WiFirSceneEditSecurity, WiFirSceneEditPassword, WiFirSceneEditSsid, WiFirSceneMainMenu],
     [WiFirSceneScanNfc, WiFirSceneMainMenu],
     [WiFirSceneConfirm, WiFirSceneScanNfc, WiFirSceneMainMenu],
     [WiFirSceneTransmit, WiFirSceneConfirm, WiFirSceneScanNfc, WiFirSceneMainMenu],
     [WiFirSceneSaved, WiFirSceneMainMenu],
     [WiFirSceneConfirm, WiFirSceneSaved, WiFirSceneMainMenu],
     [WiFirSceneTransmit, WiFirSceneConfirm, WiFirSceneSaved, WiFirSceneMainMenu],
     [WiFirSceneSettings, WiFirSceneMainMenu],
     [WiFirSceneAbout, WiFirSceneMainMenu]}"

definition known_security :: "WfrWifiCreds \<Rightarrow> bool" where
  "known_security c \<longleftrightarrow> unat (security c) < 4"

text \<open>No file of the card loads with a security type the application does not know.\<close>

definition loads_known :: "'w flipper_storage \<Rightarrow> bool" where
  "loads_known env \<longleftrightarrow>
     (\<forall>p w c w'. run_state (wfr_storage_load env (Some p) zero_creds) w = ((True, c), w') \<longrightarrow> known_security c)"

text \<open>
  The working set fits its arrays, and so do the names of the saved files; its security type is a known
  one unless a file has brought another.
\<close>

definition basics :: "'w flipper_storage \<Rightarrow> 'w WiFirApp \<Rightarrow> bool" where
  "basics env app \<longleftrightarrow> length (app_ssid app) \<le> WFR_SSID_MAX_LEN \<and> length (app_password app) \<le> WFR_PASS_MAX_LEN
     \<and> list_all saved_ok (saved app)
     \<and> (loads_known env \<longrightarrow> unat (security_type app) < 4 \<and> known_security (nfc_creds app))"

definition quiet :: "'w WiFirApp \<Rightarrow> bool" where
  "quiet app \<longleftrightarrow> idle app \<and> \<not> nfc_polling app"

text \<open>The credentials on the screen were loaded from the file that a deletion would remove.\<close>

definition loaded_from_selected :: "'w flipper_storage \<Rightarrow> 'w WiFirApp \<Rightarrow> bool" where
  "loaded_from_selected env app \<longleftrightarrow>
     (\<exists>w w' c. run_state (wfr_storage_load env (Some (saved_file_path (selected_saved_file app))) zero_creds) w
         = ((True, c), w')
       \<and> app_ssid app = str_trunc WFR_SSID_MAX_LEN (ssid c)
       \<and> app_password app = str_trunc WFR_PASS_MAX_LEN (password c)
       \<and> security_type app = security c \<and> app_hidden app = hidden c)"

definition delete_question :: "string \<Rightarrow> string" where
  "delete_question name = str_trunc 127 (''Remove '' @ [CHR 0x22] @ name @ [CHR 0x22]
     @ [CHR 0x0A] @ ''from saved networks?'')"

definition confirm_inv :: "'w flipper_storage \<Rightarrow> 'w WiFirApp \<Rightarrow> bool" where
  "confirm_inv env app \<longleftrightarrow>
     confirm app = wfr_confirm_view_set_data (app_ssid app) (security_type app) (app_password app \<noteq> [])
       (app_hidden app) (selected_saved_file app \<noteq> [])
     \<and> (selected_saved_file app \<noteq> [] \<longrightarrow> loaded_from_selected env app)
     \<and> (shown_view (requests app) = Some WiFirViewDialogEx \<or> WiFirCustomEventDeleteConfirmed \<in> set (posted app) \<longrightarrow>
          selected_saved_file app \<noteq> [] \<and> confirm_text app = delete_question (app_ssid app))"

definition views_of :: "WiFirScene \<Rightarrow> WiFirView set" where
  "views_of s = (case s of
      WiFirSceneMainMenu \<Rightarrow> {WiFirViewMenu}
    | WiFirSceneEditSsid \<Rightarrow> {WiFirViewTextInput} | WiFirSceneEditPassword \<Rightarrow> {WiFirViewTextInput}
    | WiFirSceneEditSecurity \<Rightarrow> {WiFirViewVariableItemList} | WiFirSceneSettings \<Rightarrow> {WiFirViewVariableItemList}
    | WiFirSceneConfirm \<Rightarrow> {WiFirViewConfirm, WiFirViewDialogEx}
    | WiFirSceneTransmit \<Rightarrow> {WiFirViewStatus} | WiFirSceneScanNfc \<Rightarrow> {WiFirViewStatus}
    | WiFirSceneAbout \<Rightarrow> {WiFirViewStatus}
    | WiFirSceneSaved \<Rightarrow> {WiFirViewList})"

definition scene_cond ::
  "'w flipper_storage \<Rightarrow> (nat \<Rightarrow> u32) \<Rightarrow> WiFirScene \<Rightarrow> 'w WiFirApp \<Rightarrow> bool" where
  "scene_cond env ms s app \<longleftrightarrow>
     (\<exists>v \<in> views_of s. shown_view (requests app) = Some v) \<and>
     (if s = WiFirSceneTransmit then transmit_reach env ms (InScene app) \<and> \<not> nfc_polling app
      else if s = WiFirSceneScanNfc then
        tx_thread app = None \<and> \<not> ir_worker app \<and> ack_timer app = None \<and> \<not> status_callback app
      else quiet app) \<and>
     (s = WiFirSceneConfirm \<longrightarrow> confirm_inv env app) \<and>
     (s = WiFirSceneAbout \<longrightarrow> status_mode (status app) = WfrStatusModeAbout)"

definition security_cond :: "WiFirScene list \<Rightarrow> 'w WiFirApp \<Rightarrow> bool" where
  "security_cond st app \<longleftrightarrow> (WiFirSceneEditSecurity \<in> set st \<longrightarrow> unat (security_type app) < 4)"

definition app_inv :: "'w flipper_storage \<Rightarrow> (nat \<Rightarrow> u32) \<Rightarrow> WiFirScene list \<Rightarrow> 'w WiFirApp \<Rightarrow> bool" where
  "app_inv env ms st app \<longleftrightarrow> st \<in> nav_stacks \<and> basics env app \<and> security_cond st app
     \<and> scene_cond env ms (hd st) app \<and> queue_inv (hd st) (dismiss_ticks app) (posted app)"

fun run_inv :: "'m scene_manager \<Rightarrow> 'w flipper_storage \<Rightarrow> (nat \<Rightarrow> u32) \<Rightarrow> ('m, 'w) app_run \<Rightarrow> bool" where
  "run_inv sm env ms (Running m app) = app_inv env ms (sm_stack sm m) app"
| "run_inv sm env ms (Finished app) = quiet app"
| "run_inv sm env ms OutOfRange = (\<not> loads_known env)"
| "run_inv sm env ms (TagFault page n) = (length page = 4 * n \<and> length page \<le> 65000 \<longrightarrow> \<not> no_ff_pair page)"

section \<open>The security type of a tag\<close>

lemma wsc_field_known:
  "wsc_field mem val attr_id attr_len st = Ret st' \<Longrightarrow> known_security (fst st) \<Longrightarrow> known_security (fst st')"
  by (auto simp: wsc_field_def andthen_Ret known_security_def wfr_const split: if_splits)

lemma wsc_known:
  "parse_wsc_attributes fuel mem data len pos st = Ret st' \<Longrightarrow> known_security (fst st) \<Longrightarrow> known_security (fst st')"
proof (induction fuel arbitrary: data len pos st st')
  case (Suc fuel)
  from Suc.prems(1) consider "st' = st"
    | attr_len st1 where "parse_wsc_attributes fuel mem (data + add32 pos 4) attr_len 0 st = Ret st1"
        "parse_wsc_attributes fuel mem data len (add32 (add32 pos 4) attr_len) st1 = Ret st'"
    | attr_id attr_len st1 where "wsc_field mem (data + add32 pos 4) attr_id attr_len st = Ret st1"
        "parse_wsc_attributes fuel mem data len (add32 (add32 pos 4) attr_len) st1 = Ret st'"
    by (auto simp: andthen_Ret Let_def split: if_splits)
  then show ?case
    using Suc.IH Suc.prems(2) wsc_field_known by cases blast+
qed simp

lemma known_zero [simp]: "known_security zero_creds"
  by (simp add: known_security_def zero_creds_def)

lemma record_known:
  "parse_ndef_record fuel mem data len creds = Ret (ok, creds') \<Longrightarrow> known_security creds \<Longrightarrow> known_security creds'"
  unfolding parse_ndef_record_def Let_def
  by (auto simp: andthen_Ret split: if_splits dest!: wsc_known)

lemma message_known:
  "parse_ndef_message fuel mem data len pos creds = Ret (ok, creds') \<Longrightarrow> known_security creds \<Longrightarrow> known_security creds'"
  by (induction fuel arbitrary: pos creds)
    (auto simp: andthen_Ret Let_def split: if_splits dest!: record_known)

lemma tlvs_known:
  "parse_tlvs fuel mem area area_len pos creds = Ret (ok, creds') \<Longrightarrow> known_security creds \<Longrightarrow> known_security creds'"
  by (induction fuel arbitrary: pos creds)
    (auto simp: andthen_Ret Let_def split: if_splits dest!: message_known)

lemma tag_known:
  assumes "wfr_nfc_parse_wifi_tag fuel (Some mem) n (Some c) = Ret (found, creds)" "known_security c"
  shows "known_security (the creds)"
  using assms by (auto simp: wfr_nfc_parse_wifi_tag_def andthen_Ret split: if_splits dest!: tlvs_known)

section \<open>Entering and leaving a scene\<close>

lemma shown_view_append [simp]:
  "shown_view (rs @ ss) = fold (\<lambda>r v. case r of SwitchToView x \<Rightarrow> Some x | _ \<Rightarrow> v) ss (shown_view rs)"
  by (simp add: shown_view_def)

lemmas app_ops = ask_def post_def show_status_def Let_def

definition enters :: "'w flipper_storage \<Rightarrow> (nat \<Rightarrow> u32) \<Rightarrow> WiFirScene \<Rightarrow> 'w WiFirApp \<Rightarrow> 'w WiFirApp option \<Rightarrow> bool" where
  "enters env ms s app r \<longleftrightarrow> (\<exists>app'. r = Some app' \<and> basics env app' \<and> scene_cond env ms s app'
     \<and> posted app' = posted app \<and> dismiss_ticks app' = 0 \<and> security_type app' = security_type app)"

lemma entersI:
  "basics env app' \<Longrightarrow> scene_cond env ms s app' \<Longrightarrow> posted app' = posted app \<Longrightarrow> dismiss_ticks app' = 0 \<Longrightarrow>
     security_type app' = security_type app \<Longrightarrow> enters env ms s app (Some app')"
  by (simp add: enters_def)

lemmas quiet_conds = basics_def quiet_def idle_def scene_cond_def views_of_def

lemma enter_menu: "basics env app \<Longrightarrow> quiet app \<Longrightarrow> enters env ms WiFirSceneMainMenu app (scene_on_enter env version ok WiFirSceneMainMenu app)"
  by (simp add: scene_tables, rule entersI)
    (simp_all add: quiet_conds wi_fir_scene_main_menu_on_enter_def app_ops)

lemma enter_ssid: "basics env app \<Longrightarrow> quiet app \<Longrightarrow> enters env ms WiFirSceneEditSsid app (scene_on_enter env version ok WiFirSceneEditSsid app)"
  by (simp add: scene_tables, rule entersI)
    (simp_all add: quiet_conds wi_fir_scene_edit_ssid_on_enter_def app_ops)

lemma enter_password: "basics env app \<Longrightarrow> quiet app \<Longrightarrow>
    enters env ms WiFirSceneEditPassword app (scene_on_enter env version ok WiFirSceneEditPassword app)"
  by (simp add: scene_tables, rule entersI)
    (simp_all add: quiet_conds wi_fir_scene_edit_password_on_enter_def app_ops)

lemma enter_security:
  assumes "basics env app" "quiet app" "unat (security_type app) < 4"
  shows "enters env ms WiFirSceneEditSecurity app (scene_on_enter env version ok WiFirSceneEditSecurity app)"
  using assms
  by (cases "app_hidden app")
    (simp add: scene_tables wi_fir_scene_edit_security_on_enter_def array_get_def security_names_def hidden_names_def
      Let_def, rule entersI, simp_all add: quiet_conds ask_def)+

lemma enter_confirm:
  assumes "basics env app" "quiet app" "selected_saved_file app \<noteq> [] \<longrightarrow> loaded_from_selected env app"
    "WiFirCustomEventDeleteConfirmed \<notin> set (posted app)"
  shows "enters env ms WiFirSceneConfirm app (scene_on_enter env version ok WiFirSceneConfirm app)"
  using assms
  by (simp add: scene_tables, intro entersI)
    (simp_all add: quiet_conds wi_fir_scene_confirm_on_enter_def confirm_inv_def loaded_from_selected_def ask_def)

lemma enter_nfc: "basics env app \<Longrightarrow> quiet app \<Longrightarrow> enters env ms WiFirSceneScanNfc app (scene_on_enter env version ok WiFirSceneScanNfc app)"
  by (simp add: scene_tables, rule entersI)
    (simp_all add: quiet_conds wi_fir_scene_scan_nfc_on_enter_def wi_fir_nfc_start_def wi_fir_nfc_stop_def app_ops)

lemma enter_saved:
  assumes "basics env app" "quiet app"
  shows "enters env ms WiFirSceneSaved app (scene_on_enter env version ok WiFirSceneSaved app)"
proof -
  obtain found w where r: "run_state (wfr_storage_list env WFR_SAVED_MAX) (sd app) = (found, w)"
    by (cases "run_state (wfr_storage_list env WFR_SAVED_MAX) (sd app)")
  have "list_all saved_ok found"
    using storage_list_ok [OF r] by simp
  moreover have "\<exists>l. wi_fir_scene_saved_on_enter env app =
      ask (SwitchToView WiFirViewList) ((app\<lparr>saved := found, sd := w\<rparr>)\<lparr>list_view := l\<rparr>)"
    unfolding wi_fir_scene_saved_on_enter_def r Let_def prod.case by (rule exI, rule refl)
  ultimately show ?thesis
    using assms
    by (auto simp: scene_tables quiet_conds ask_def intro!: entersI)
qed

lemma enter_about: "basics env app \<Longrightarrow> quiet app \<Longrightarrow> enters env ms WiFirSceneAbout app (scene_on_enter env version ok WiFirSceneAbout app)"
  by (simp add: scene_tables, rule entersI)
    (simp_all add: quiet_conds wi_fir_scene_about_on_enter_def wfr_status_view_set_about_def set_mode_def app_ops)

lemma enter_settings: "basics env app \<Longrightarrow> quiet app \<Longrightarrow> enters env ms WiFirSceneSettings app (scene_on_enter env version ok WiFirSceneSettings app)"
  by (cases "ir_protocol app"; cases "ack_enabled app")
    (simp add: scene_tables wi_fir_scene_settings_on_enter_def array_get_def protocol_names_def ack_names_def
      uint_of_protocol_def Let_def, rule entersI, simp_all add: quiet_conds ask_def)+

lemma enter_transmit:
  assumes "basics env app" "quiet app" "\<forall>ev \<in> set (posted app). \<not> is_transmit_event ev"
  shows "enters env ms WiFirSceneTransmit app (scene_on_enter env version ok WiFirSceneTransmit app)"
proof -
  have "transmit_reach env ms (InScene (wi_fir_scene_transmit_on_enter ok app))"
    using assms by (intro transmit_reach.enter) (auto simp: quiet_def idle_def is_transmit_event_def)
  then show ?thesis
    using assms
    by (simp add: scene_tables, intro entersI)
      (simp_all add: quiet_conds wi_fir_scene_transmit_on_enter_def wi_fir_start_tx_def wi_fir_stop_tx_def
        wi_fir_stop_ack_listener_def app_ops)
qed

text \<open>What an exit handler needs to leave nothing alive: only two scenes own something.\<close>

definition can_leave :: "WiFirScene \<Rightarrow> 'w WiFirApp \<Rightarrow> bool" where
  "can_leave s app \<longleftrightarrow>
     (s \<noteq> WiFirSceneTransmit \<longrightarrow> tx_thread app = None \<and> \<not> ir_worker app \<and> ack_timer app = None) \<and>
     (s \<noteq> WiFirSceneTransmit \<and> s \<noteq> WiFirSceneScanNfc \<longrightarrow> dismiss_ticks app = 0) \<and>
     (s \<noteq> WiFirSceneScanNfc \<longrightarrow> \<not> nfc_polling app)"

lemma scene_cond_can_leave: "scene_cond env ms s app \<Longrightarrow> can_leave s app"
  by (auto simp: scene_cond_def can_leave_def quiet_def idle_def split: if_splits)

definition same_working :: "'w WiFirApp \<Rightarrow> 'w WiFirApp \<Rightarrow> bool" where
  "same_working a b \<longleftrightarrow> app_ssid a = app_ssid b \<and> app_password a = app_password b \<and> security_type a = security_type b
     \<and> app_hidden a = app_hidden b \<and> selected_saved_file a = selected_saved_file b"

lemma loaded_same_working: "same_working a b \<Longrightarrow> loaded_from_selected env a = loaded_from_selected env b"
  by (simp add: same_working_def loaded_from_selected_def)

lemma stop_fields [simp]:
  "saved (wi_fir_stop_tx ok app) = saved app" "saved (wi_fir_stop_ack_listener app) = saved app"
  "nfc_polling (wi_fir_stop_tx ok app) = nfc_polling app" "nfc_polling (wi_fir_stop_ack_listener app) = nfc_polling app"
  "nfc_creds (wi_fir_stop_tx ok app) = nfc_creds app" "nfc_creds (wi_fir_stop_ack_listener app) = nfc_creds app"
  by (simp_all add: wi_fir_stop_tx_def join_tx_def wi_fir_tx_worker_returned_def wi_fir_tx_worker_post_def
      post_def wi_fir_stop_ack_listener_def Let_def)

lemma leave_transmit:
  assumes "basics env app" "can_leave WiFirSceneTransmit app"
  shows "basics env (scene_on_exit ok WiFirSceneTransmit app)" "quiet (scene_on_exit ok WiFirSceneTransmit app)"
    "posted (scene_on_exit ok WiFirSceneTransmit app) = posted app @ (if tx_thread app = Some TxPosting then [WiFirCustomEventTxFinished] else [])"
  using assms on_exit_idle [of ok app]
  by (simp_all add: scene_tables basics_def quiet_def can_leave_def wi_fir_scene_transmit_on_exit_def Let_def
      ask_def stop_tx_posted)

lemma leave_scene:
  assumes "basics env app" "can_leave s app" "s \<noteq> WiFirSceneTransmit"
  shows "basics env (scene_on_exit ok s app) \<and> quiet (scene_on_exit ok s app)
    \<and> posted (scene_on_exit ok s app) = posted app \<and> same_working (scene_on_exit ok s app) app"
  using assms
  by (cases s)
    (simp_all add: scene_tables basics_def quiet_def can_leave_def idle_def same_working_def ask_def
      wi_fir_scene_edit_on_exit_def wi_fir_scene_variable_items_on_exit_def wi_fir_scene_confirm_on_exit_def
      wi_fir_scene_scan_nfc_on_exit_def wi_fir_nfc_stop_def)

section \<open>Scene changes\<close>

lemma leave_current_Cons [simp]: "leave_current (s # st) = [CallExit s]" "leave_current [] = []"
  by (simp_all add: leave_current_def)

lemma enter_current_Cons [simp]: "enter_current (s # st) = [CallEnter s]" "enter_current [] = []"
  by (simp_all add: enter_current_def)

lemma bind_Some_app: "Option.bind r (run_calls env version ok []) = r"
  by (cases r) simp_all

lemma resumed:
  assumes "enters env ms t app r" "sm_stack sm m' = t # st" "t # st \<in> nav_stacks"
    and "WiFirSceneEditSecurity \<in> set (t # st) \<longrightarrow> unat (security_type app) < 4" "queue_inv t 0 (posted app)"
  shows "run_inv sm env ms (resume m' r)"
  using assms by (auto simp: enters_def resume_def app_inv_def security_cond_def)

lemma perform_next:
  assumes laws: "scene_manager_laws sm" and st: "sm_stack sm m = s # st" and valid: "t # s # st \<in> nav_stacks"
    and en: "enters env ms t (scene_on_exit ok s app) (scene_on_enter env version ok t (scene_on_exit ok s app))"
    and sec: "WiFirSceneEditSecurity \<in> set (t # s # st) \<longrightarrow> unat (security_type (scene_on_exit ok s app)) < 4"
    and q: "queue_inv t 0 (posted (scene_on_exit ok s app))"
  shows "run_inv sm env ms (perform sm env version ok (NextScene t) m app)"
proof -
  obtain m' where m': "scene_manager_next_scene sm t m = (leave_current (sm_stack sm m) @ [CallEnter t], m')"
    "sm_stack sm m' = t # sm_stack sm m"
    using manager_next [OF laws] .
  then show ?thesis
    using resumed [OF en _ valid sec q, of sm m']
    by (simp add: perform_def st bind_Some_app)
qed

lemma previous_scene:
  assumes laws: "scene_manager_laws sm" and st: "sm_stack sm m = s # t # st" and valid: "t # st \<in> nav_stacks"
    and en: "enters env ms t (scene_on_exit ok s app) (scene_on_enter env version ok t (scene_on_exit ok s app))"
    and sec: "WiFirSceneEditSecurity \<in> set (t # st) \<longrightarrow> unat (security_type (scene_on_exit ok s app)) < 4"
    and q: "queue_inv t 0 (posted (scene_on_exit ok s app))"
  obtains calls m' where "scene_manager_previous_scene sm m = (True, calls, m')"
    "run_inv sm env ms (resume m' (run_calls env version ok calls app))"
proof -
  obtain m' where m': "scene_manager_previous_scene sm m = (tl (sm_stack sm m) \<noteq> [],
      leave_current (sm_stack sm m) @ enter_current (tl (sm_stack sm m)), m')"
    "sm_stack sm m' = tl (sm_stack sm m)"
    using manager_previous [OF laws] .
  then show thesis
    using that [of "[CallExit s, CallEnter t]" m'] resumed [OF en _ valid sec q, of sm m']
    by (simp add: st bind_Some_app)
qed

lemma perform_menu:
  assumes laws: "scene_manager_laws sm" and st: "sm_stack sm m \<in> nav_stacks" "sm_stack sm m = WiFirSceneTransmit # st"
    and app: "basics env app" "can_leave WiFirSceneTransmit app"
    and q: "queue_inv WiFirSceneMainMenu 0 (posted (scene_on_exit ok WiFirSceneTransmit app))"
  shows "run_inv sm env ms (perform sm env version ok (SearchAndSwitchToPreviousScene WiFirSceneMainMenu) m app)"
proof -
  have top: "WiFirSceneMainMenu \<in> set (sm_stack sm m)"
    "dropWhile (\<lambda>t. t \<noteq> WiFirSceneMainMenu) (sm_stack sm m) = [WiFirSceneMainMenu]"
    using st(1) by (auto simp: nav_stacks_def)
  obtain m' where m': "scene_manager_search_and_switch sm WiFirSceneMainMenu m =
      (True, leave_current (sm_stack sm m) @ [CallEnter WiFirSceneMainMenu], m')"
    "sm_stack sm m' = dropWhile (\<lambda>t. t \<noteq> WiFirSceneMainMenu) (sm_stack sm m)"
    using manager_search [OF laws top(1)] .
  have en: "enters env ms WiFirSceneMainMenu (scene_on_exit ok WiFirSceneTransmit app)
      (scene_on_enter env version ok WiFirSceneMainMenu (scene_on_exit ok WiFirSceneTransmit app))"
    using leave_transmit [OF app] by (intro enter_menu)
  show ?thesis
    using m' top(2) st(2) resumed [OF en, of sm m' "[]"] q
    by (simp add: perform_def bind_Some_app nav_stacks_def)
qed

lemma enter_any:
  assumes "basics env app" "quiet app" "t = WiFirSceneEditSecurity \<longrightarrow> unat (security_type app) < 4"
    and "t = WiFirSceneConfirm \<longrightarrow> (selected_saved_file app \<noteq> [] \<longrightarrow> loaded_from_selected env app)
      \<and> WiFirCustomEventDeleteConfirmed \<notin> set (posted app)"
    and "t = WiFirSceneTransmit \<longrightarrow> (\<forall>ev \<in> set (posted app). \<not> is_transmit_event ev)"
  shows "enters env ms t app (scene_on_enter env version ok t app)"
  using assms
  by (cases t) (simp_all add: enter_menu enter_ssid enter_password enter_security enter_confirm enter_transmit
      enter_nfc enter_saved enter_about enter_settings)

text \<open>A scene other than Transmit goes on to the scene \<open>t\<close>, or back to \<open>t\<close>.\<close>

definition may_enter :: "'w flipper_storage \<Rightarrow> WiFirScene \<Rightarrow> WiFirScene list \<Rightarrow> 'w WiFirApp \<Rightarrow> bool" where
  "may_enter env t st a \<longleftrightarrow> t # st \<in> nav_stacks
     \<and> (WiFirSceneEditSecurity \<in> set st \<longrightarrow> unat (security_type a) < 4)
     \<and> (t = WiFirSceneConfirm \<longrightarrow> (selected_saved_file a \<noteq> [] \<longrightarrow> loaded_from_selected env a)
          \<and> WiFirCustomEventDeleteConfirmed \<notin> set (posted a))
     \<and> (t = WiFirSceneTransmit \<longrightarrow> (\<forall>ev \<in> set (posted a). \<not> is_transmit_event ev))
     \<and> queue_inv t 0 (posted a)"

lemma left_and_entered:
  assumes "basics env a" "can_leave s a" "s \<noteq> WiFirSceneTransmit" "may_enter env t st a"
    and "t = WiFirSceneEditSecurity \<longrightarrow> unat (security_type a) < 4"
  shows "enters env ms t (scene_on_exit ok s a) (scene_on_enter env version ok t (scene_on_exit ok s a))"
    and "WiFirSceneEditSecurity \<in> set (t # st) \<longrightarrow> unat (security_type (scene_on_exit ok s a)) < 4"
    and "queue_inv t 0 (posted (scene_on_exit ok s a))"
proof -
  have x: "basics env (scene_on_exit ok s a) \<and> quiet (scene_on_exit ok s a) \<and> posted (scene_on_exit ok s a) = posted a
      \<and> same_working (scene_on_exit ok s a) a"
    using leave_scene [OF assms(1-3)] .
  then have fields: "selected_saved_file (scene_on_exit ok s a) = selected_saved_file a"
    "security_type (scene_on_exit ok s a) = security_type a"
    "loaded_from_selected env (scene_on_exit ok s a) = loaded_from_selected env a"
    using loaded_same_working [of "scene_on_exit ok s a" a env] by (simp_all add: same_working_def)
  show "enters env ms t (scene_on_exit ok s a) (scene_on_enter env version ok t (scene_on_exit ok s a))"
    using x assms(4,5) by (intro enter_any) (simp_all add: may_enter_def fields)
  show "WiFirSceneEditSecurity \<in> set (t # st) \<longrightarrow> unat (security_type (scene_on_exit ok s a)) < 4"
    using assms(4,5) by (auto simp: may_enter_def fields)
  show "queue_inv t 0 (posted (scene_on_exit ok s a))"
    using x assms(4) by (simp add: may_enter_def)
qed

lemma go_next:
  assumes laws: "scene_manager_laws sm" and st: "sm_stack sm m = s # st"
    and a: "basics env a" "can_leave s a" "s \<noteq> WiFirSceneTransmit" and t: "may_enter env t (s # st) a"
  shows "run_inv sm env ms (perform sm env version ok (NextScene t) m a)"
proof (cases "t = WiFirSceneEditSecurity \<longrightarrow> unat (security_type a) < 4")
  case True
  show ?thesis
    using left_and_entered [OF a t True] t by (intro perform_next [OF laws st]) (auto simp: may_enter_def)
next
  case False
  then have "security_type (scene_on_exit ok s a) = security_type a" "t = WiFirSceneEditSecurity"
    using leave_scene [OF a] by (simp_all add: same_working_def)
  moreover obtain m' where "scene_manager_next_scene sm t m = (leave_current (sm_stack sm m) @ [CallEnter t], m')"
    using manager_next [OF laws] .
  ultimately have "perform sm env version ok (NextScene t) m a = OutOfRange"
    using edit_security_on_enter_iff [of "scene_on_exit ok s a"] False
    by (simp add: perform_def st resume_def scene_tables)
  then show ?thesis using a(1) False by (auto simp: basics_def)
qed

lemma go_previous:
  assumes laws: "scene_manager_laws sm" and st: "sm_stack sm m = s # t # st"
    and a: "basics env a" "can_leave s a" "s \<noteq> WiFirSceneTransmit" and t: "may_enter env t st a"
    and sec: "t = WiFirSceneEditSecurity \<longrightarrow> unat (security_type a) < 4"
  obtains calls m' where "scene_manager_previous_scene sm m = (True, calls, m')"
    "run_inv sm env ms (resume m' (run_calls env version ok calls a))"
proof -
  have "t # st \<in> nav_stacks" using t by (simp add: may_enter_def)
  then show thesis
    by (rule previous_scene [OF laws st _ left_and_entered [OF a t sec]]) (rule that)
qed

text \<open>What the handler asked for besides the scene change does not matter.\<close>

definition changes_scene :: "request \<Rightarrow> bool" where
  "changes_scene r = (case r of NextScene s \<Rightarrow> True | PreviousScene \<Rightarrow> True
     | SearchAndSwitchToPreviousScene s \<Rightarrow> True | _ \<Rightarrow> False)"

lemma perform_all_same: "list_all (\<lambda>r. \<not> changes_scene r) rs \<Longrightarrow> perform_all sm env version ok rs m app = Running m app"
  by (induction rs) (auto simp: perform_def changes_scene_def split: request.splits)

lemma perform_all_last:
  "list_all (\<lambda>r. \<not> changes_scene r) rs \<Longrightarrow>
     perform_all sm env version ok (rs @ [r]) m app = perform sm env version ok r m app"
proof (induction rs)
  case Nil
  then show ?case by (cases "perform sm env version ok r m app") simp_all
next
  case (Cons r' rs)
  then have "perform sm env version ok r' m app = Running m app"
    by (auto simp: perform_def changes_scene_def split: request.splits)
  then show ?case using Cons by simp
qed

lemma handled_same:
  assumes "scene_manager_laws sm" "sm_stack sm m = s # st" "scene_on_event env ok s event app = (c, a)"
    and "requests a = requests app @ rs" "list_all (\<lambda>r. \<not> changes_scene r) rs"
  shows "handle_event sm env version ok event m app = (c, Running m a)"
  using assms by (simp add: handle_event_def manager_receiver perform_all_same)

lemma handled_change:
  assumes "scene_manager_laws sm" "sm_stack sm m = s # st" "scene_on_event env ok s event app = (c, ask r a)"
    and "requests a = requests app @ rs" "list_all (\<lambda>r. \<not> changes_scene r) rs"
  shows "handle_event sm env version ok event m app = (c, perform sm env version ok r m (ask r a))"
  using assms by (simp add: handle_event_def manager_receiver perform_all_last)

end
