(* ===== verification/Navigation_Events.thy ===== *)
theory Navigation_Events
  imports Navigation_Facts
begin

text \<open>
  The invariant of the running application is kept by every event the dispatcher hands to the current
  scene: custom events scene by scene, ticks, and the Back key.
\<close>

section \<open>Custom events\<close>

lemma queue_inv_rest: "queue_inv s n (ev # rest) \<Longrightarrow> queue_inv s n rest"
  by (simp add: queue_inv_def split: if_splits)

lemma queue_inv_plain:
  "queue_inv s n q \<Longrightarrow> s \<notin> {WiFirSceneTransmit, WiFirSceneConfirm} \<Longrightarrow> t \<notin> {WiFirSceneTransmit, WiFirSceneConfirm} \<Longrightarrow>
     queue_inv t k q"
  by (simp add: queue_inv_def)

lemma loaded_posted [simp]: "loaded_from_selected env (app\<lparr>posted := q\<rparr>) = loaded_from_selected env app"
  by (simp add: loaded_from_selected_def)

lemma quiet_posted [simp]: "quiet (app\<lparr>posted := q\<rparr>) = quiet app"
  by (simp add: quiet_def idle_def)

lemma confirm_inv_rest: "confirm_inv env app \<Longrightarrow> posted app = ev # rest \<Longrightarrow> confirm_inv env (app\<lparr>posted := rest\<rparr>)"
  by (simp add: confirm_inv_def)

lemma transmit_reach_rest:
  "s \<noteq> WiFirSceneTransmit \<Longrightarrow> scene_cond env ms s app \<Longrightarrow> posted app = ev # rest \<Longrightarrow>
     scene_cond env ms s (app\<lparr>posted := rest\<rparr>)"
  using confirm_inv_rest [of env app ev rest] by (simp add: scene_cond_def)

lemma app_inv_rest:
  "app_inv env ms st app \<Longrightarrow> hd st \<noteq> WiFirSceneTransmit \<Longrightarrow> posted app = ev # rest \<Longrightarrow>
     app_inv env ms st (app\<lparr>posted := rest\<rparr>)"
  using transmit_reach_rest [of "hd st" env ms app ev rest] queue_inv_rest [of "hd st" "dismiss_ticks app" ev rest]
  by (simp add: app_inv_def basics_def security_cond_def)

lemma app_invD:
  assumes "app_inv env ms (s # st) app"
  shows "s # st \<in> nav_stacks" "basics env app" "security_cond (s # st) app" "scene_cond env ms s app" "can_leave s app"
    "queue_inv s (dismiss_ticks app) (posted app)"
  using assms scene_cond_can_leave by (auto simp: app_inv_def)

lemma nav_next:
  "WiFirSceneMainMenu # st \<in> nav_stacks \<Longrightarrow> t \<in> {WiFirSceneEditSsid, WiFirSceneScanNfc, WiFirSceneSaved, WiFirSceneSettings, WiFirSceneAbout}
     \<Longrightarrow> t # WiFirSceneMainMenu # st \<in> nav_stacks"
  "WiFirSceneEditSsid # st \<in> nav_stacks \<Longrightarrow> WiFirSceneEditPassword # WiFirSceneEditSsid # st \<in> nav_stacks"
  "WiFirSceneEditPassword # st \<in> nav_stacks \<Longrightarrow> WiFirSceneEditSecurity # WiFirSceneEditPassword # st \<in> nav_stacks"
  "WiFirSceneEditSecurity # st \<in> nav_stacks \<Longrightarrow> WiFirSceneConfirm # WiFirSceneEditSecurity # st \<in> nav_stacks"
  "WiFirSceneScanNfc # st \<in> nav_stacks \<Longrightarrow> WiFirSceneConfirm # WiFirSceneScanNfc # st \<in> nav_stacks"
  "WiFirSceneSaved # st \<in> nav_stacks \<Longrightarrow> WiFirSceneConfirm # WiFirSceneSaved # st \<in> nav_stacks"
  "WiFirSceneConfirm # st \<in> nav_stacks \<Longrightarrow> WiFirSceneTransmit # WiFirSceneConfirm # st \<in> nav_stacks"
  by (auto simp: nav_stacks_def)

lemma nav_security: "s # st \<in> nav_stacks \<Longrightarrow> s \<notin> {WiFirSceneEditSecurity, WiFirSceneConfirm, WiFirSceneTransmit} \<Longrightarrow>
    WiFirSceneEditSecurity \<notin> set (s # st)"
  by (auto simp: nav_stacks_def)

lemma ask_keeps [simp]:
  "basics env (ask r app) = basics env app" "can_leave s (ask r app) = can_leave s app"
  "may_enter env t st (ask r app) = may_enter env t st app"
  by (simp_all add: basics_def can_leave_def may_enter_def loaded_from_selected_def ask_def)

lemma goes_on:
  assumes "scene_manager_laws sm" "sm_stack sm m = s # st" "s \<noteq> WiFirSceneTransmit"
    and "scene_on_event env ok s event app = (c, ask (NextScene t) b)"
    and "requests b = requests app @ rs" "list_all (\<lambda>r. \<not> changes_scene r) rs"
    and "basics env b" "can_leave s b" "may_enter env t (s # st) b"
  shows "run_inv sm env ms (snd (handle_event sm env version ok event m app))"
  using assms(7-9) handled_change [OF assms(1,2,4-6)] go_next [OF assms(1,2) _ _ assms(3), where a = "ask (NextScene t) b"]
  by simp

lemma goes_back:
  assumes "scene_manager_laws sm" "sm_stack sm m = s # t # st" "s \<noteq> WiFirSceneTransmit"
    and "scene_on_event env ok s event app = (c, ask PreviousScene b)"
    and "requests b = requests app @ rs" "list_all (\<lambda>r. \<not> changes_scene r) rs"
    and "basics env b" "can_leave s b" "may_enter env t st b" "t = WiFirSceneEditSecurity \<longrightarrow> unat (security_type b) < 4"
  shows "run_inv sm env ms (snd (handle_event sm env version ok event m app))"
proof -
  obtain calls m' where "scene_manager_previous_scene sm m = (True, calls, m')"
    "run_inv sm env ms (resume m' (run_calls env version ok calls (ask PreviousScene b)))"
    by (rule go_previous [OF assms(1,2) _ _ assms(3), where a = "ask PreviousScene b" and env = env]) (use assms(7-10) in simp_all)
  then show ?thesis
    using handled_change [OF assms(1,2,4-6)] by (simp add: perform_def)
qed

lemma stays:
  assumes "scene_manager_laws sm" "sm_stack sm m = s # st" "scene_on_event env ok s event app = (c, b)"
    and "requests b = requests app @ rs" "list_all (\<lambda>r. \<not> changes_scene r) rs" "app_inv env ms (s # st) b"
  shows "run_inv sm env ms (snd (handle_event sm env version ok event m app))"
  using handled_same [OF assms(1-5)] assms(2,6) by simp

lemma ignores:
  assumes "scene_manager_laws sm" "sm_stack sm m = s # st" "scene_on_event env ok s event app = (c, app)"
    and "app_inv env ms (s # st) app"
  shows "run_inv sm env ms (snd (handle_event sm env version ok event m app))"
  using stays [OF assms(1-3), of "[]"] assms(4) by simp

lemma may_enter_plain:
  assumes "t # st \<in> nav_stacks" "WiFirSceneEditSecurity \<in> set st \<longrightarrow> unat (security_type a) < 4" "queue_inv t 0 (posted a)"
    "t \<notin> {WiFirSceneTransmit, WiFirSceneConfirm}"
  shows "may_enter env t st a"
  using assms by (simp add: may_enter_def)

lemma menu_events:
  obtains "scene_on_event env ok WiFirSceneMainMenu (SceneManagerEventTypeCustom ev) app = (False, app)"
  | t i where "t \<in> {WiFirSceneEditSsid, WiFirSceneScanNfc, WiFirSceneSaved, WiFirSceneSettings, WiFirSceneAbout}"
    "scene_on_event env ok WiFirSceneMainMenu (SceneManagerEventTypeCustom ev) app
       = (True, ask (NextScene t) (set_scene_state WiFirSceneMainMenu i app))"
  using that(1) that(2) [of WiFirSceneEditSsid 0] that(2) [of WiFirSceneScanNfc 1] that(2) [of WiFirSceneSaved 2]
    that(2) [of WiFirSceneSettings 3] that(2) [of WiFirSceneAbout 4]
  by (cases ev) (simp_all add: scene_tables wi_fir_scene_main_menu_on_event_def go_from_menu_def)

lemma step_menu:
  assumes laws: "scene_manager_laws sm" and inv: "app_inv env ms (sm_stack sm m) app"
    and st: "sm_stack sm m = WiFirSceneMainMenu # st" and q: "posted app = ev # rest"
  shows "run_inv sm env ms (snd (handle_event sm env version ok (SceneManagerEventTypeCustom ev) m (app\<lparr>posted := rest\<rparr>)))"
proof -
  note inv' = app_invD [OF inv [unfolded st]]
  show ?thesis
  proof (rule menu_events [of env ok ev "app\<lparr>posted := rest\<rparr>"])
    assume e: "scene_on_event env ok WiFirSceneMainMenu (SceneManagerEventTypeCustom ev) (app\<lparr>posted := rest\<rparr>)
      = (False, app\<lparr>posted := rest\<rparr>)"
    show ?thesis
      using app_inv_rest [OF inv _ q] st by (intro ignores [OF laws st e]) simp_all
  next
    fix t i
    assume t: "t \<in> {WiFirSceneEditSsid, WiFirSceneScanNfc, WiFirSceneSaved, WiFirSceneSettings, WiFirSceneAbout}"
      and e: "scene_on_event env ok WiFirSceneMainMenu (SceneManagerEventTypeCustom ev) (app\<lparr>posted := rest\<rparr>)
        = (True, ask (NextScene t) (set_scene_state WiFirSceneMainMenu i (app\<lparr>posted := rest\<rparr>)))"
    have "queue_inv t 0 rest"
      using queue_inv_plain [OF queue_inv_rest] inv'(6) t q by auto
    then show ?thesis
      using nav_next(1) [OF inv'(1) t] nav_security [OF inv'(1)] inv'(2,5) t
      by (intro goes_on [OF laws st _ e, of "[]"] may_enter_plain)
        (auto simp: basics_def can_leave_def set_scene_state_def)
  qed
qed

lemma edit_events:
  "scene_on_event env ok WiFirSceneEditSsid (SceneManagerEventTypeCustom ev) app =
     (if ev = WiFirCustomEventTextInputDone
      then (True, ask (NextScene WiFirSceneEditPassword) (app\<lparr>app_ssid := str_trunc WFR_SSID_MAX_LEN (text_input_buf app)\<rparr>))
      else (False, app))"
  "scene_on_event env ok WiFirSceneEditPassword (SceneManagerEventTypeCustom ev) app =
     (if ev = WiFirCustomEventTextInputDone
      then (True, ask (NextScene WiFirSceneEditSecurity) (app\<lparr>app_password := str_trunc WFR_PASS_MAX_LEN (text_input_buf app)\<rparr>))
      else (False, app))"
  "scene_on_event env ok WiFirSceneEditSecurity (SceneManagerEventTypeCustom ev) app =
     (if ev = WiFirCustomEventSecurityDone
      then (True, ask (NextScene WiFirSceneConfirm) (app\<lparr>selected_saved_file := []\<rparr>))
      else (False, app))"
  by (simp_all add: scene_tables wi_fir_scene_edit_ssid_on_event_def wi_fir_scene_edit_password_on_event_def
      wi_fir_scene_edit_security_on_event_def)

lemma step_ssid:
  assumes laws: "scene_manager_laws sm" and inv: "app_inv env ms (sm_stack sm m) app"
    and st: "sm_stack sm m = WiFirSceneEditSsid # st" and q: "posted app = ev # rest"
  shows "run_inv sm env ms (snd (handle_event sm env version ok (SceneManagerEventTypeCustom ev) m (app\<lparr>posted := rest\<rparr>)))"
proof (cases "ev = WiFirCustomEventTextInputDone")
  case True
  note inv' = app_invD [OF inv [unfolded st]]
  have "queue_inv WiFirSceneEditPassword 0 rest"
    using queue_inv_plain [OF queue_inv_rest] inv'(6) q by auto
  then show ?thesis
    using nav_next(2) [OF inv'(1)] nav_security [OF inv'(1)] inv'(2,5) True
    by (intro goes_on [OF laws st, of env ok _ _ True WiFirSceneEditPassword
          "app\<lparr>posted := rest, app_ssid := str_trunc WFR_SSID_MAX_LEN (text_input_buf app)\<rparr>" "[]"] may_enter_plain)
      (auto simp: edit_events basics_def can_leave_def)
next
  case False
  then show ?thesis
    using app_inv_rest [OF inv _ q] st by (intro ignores [OF laws st]) (auto simp: edit_events)
qed

lemma step_password:
  assumes laws: "scene_manager_laws sm" and inv: "app_inv env ms (sm_stack sm m) app"
    and st: "sm_stack sm m = WiFirSceneEditPassword # st" and q: "posted app = ev # rest"
  shows "run_inv sm env ms (snd (handle_event sm env version ok (SceneManagerEventTypeCustom ev) m (app\<lparr>posted := rest\<rparr>)))"
proof (cases "ev = WiFirCustomEventTextInputDone")
  case True
  note inv' = app_invD [OF inv [unfolded st]]
  have "queue_inv WiFirSceneEditSecurity 0 rest"
    using queue_inv_plain [OF queue_inv_rest] inv'(6) q by auto
  then show ?thesis
    using nav_next(3) [OF inv'(1)] nav_security [OF inv'(1)] inv'(2,5) True
    by (intro goes_on [OF laws st, of env ok _ _ True WiFirSceneEditSecurity
          "app\<lparr>posted := rest, app_password := str_trunc WFR_PASS_MAX_LEN (text_input_buf app)\<rparr>" "[]"] may_enter_plain)
      (auto simp: edit_events basics_def can_leave_def)
next
  case False
  then show ?thesis
    using app_inv_rest [OF inv _ q] st by (intro ignores [OF laws st]) (auto simp: edit_events)
qed

lemma opening_queue:
  assumes "queue_inv s n (ev # rest)" "s \<notin> {WiFirSceneTransmit, WiFirSceneConfirm}" "is_opening ev"
  shows "queue_inv WiFirSceneConfirm k rest" "WiFirCustomEventDeleteConfirmed \<notin> set rest"
proof -
  have none: "\<forall>x \<in> set rest. \<not> is_confirm_event x" and send: "not_behind is_send is_transmit_event rest"
    using assms by (simp_all add: queue_inv_def)
  show "queue_inv WiFirSceneConfirm k rest"
    using send not_behind_none [of rest is_confirm_event is_opening] none by (simp add: queue_inv_def)
  show "WiFirCustomEventDeleteConfirmed \<notin> set rest"
    using none by (auto simp: is_confirm_event_def)
qed

lemma may_enter_confirm:
  assumes "WiFirSceneConfirm # s # st \<in> nav_stacks" "security_cond (s # st) a"
    and "selected_saved_file a \<noteq> [] \<longrightarrow> loaded_from_selected env a"
    and "queue_inv WiFirSceneConfirm 0 (posted a)" "WiFirCustomEventDeleteConfirmed \<notin> set (posted a)"
  shows "may_enter env WiFirSceneConfirm (s # st) a"
  using assms by (simp add: may_enter_def security_cond_def)

lemma step_security:
  assumes laws: "scene_manager_laws sm" and inv: "app_inv env ms (sm_stack sm m) app"
    and st: "sm_stack sm m = WiFirSceneEditSecurity # st" and q: "posted app = ev # rest"
  shows "run_inv sm env ms (snd (handle_event sm env version ok (SceneManagerEventTypeCustom ev) m (app\<lparr>posted := rest\<rparr>)))"
proof (cases "ev = WiFirCustomEventSecurityDone")
  case True
  note inv' = app_invD [OF inv [unfolded st]]
  have "queue_inv WiFirSceneConfirm 0 rest" "WiFirCustomEventDeleteConfirmed \<notin> set rest"
    using opening_queue [OF inv'(6) [unfolded q]] True by (simp_all add: is_opening_def)
  then show ?thesis
    using nav_next(4) [OF inv'(1)] inv'(2,3,5) True
    by (intro goes_on [OF laws st, of env ok _ _ True WiFirSceneConfirm
          "app\<lparr>posted := rest, selected_saved_file := []\<rparr>" "[]"] may_enter_confirm)
      (simp_all add: edit_events basics_def can_leave_def security_cond_def)
next
  case False
  then show ?thesis
    using app_inv_rest [OF inv _ q] st by (intro ignores [OF laws st]) (auto simp: edit_events)
qed

lemma step_saved:
  assumes laws: "scene_manager_laws sm" and inv: "app_inv env ms (sm_stack sm m) app"
    and st: "sm_stack sm m = WiFirSceneSaved # st" and q: "posted app = ev # rest"
  shows "run_inv sm env ms (snd (handle_event sm env version ok (SceneManagerEventTypeCustom ev) m (app\<lparr>posted := rest\<rparr>)))"
proof (cases "ev = WiFirCustomEventSavedSelected \<and> scene_state app WiFirSceneSaved < length (saved app)")
  case False
  then show ?thesis
    using app_inv_rest [OF inv _ q] st
    by (intro ignores [OF laws st]) (auto simp: scene_tables wi_fir_scene_saved_on_event_def)
next
  case True
  note inv' = app_invD [OF inv [unfolded st]]
  let ?a = "app\<lparr>posted := rest\<rparr>"
  let ?file = "saved_file (saved app ! scene_state app WiFirSceneSaved)"
  have trunc: "str_trunc (WFR_FILENAME_MAX - 1) ?file = ?file"
    using True inv'(2) by (auto simp: basics_def list_all_length saved_ok_def WFR_FILENAME_MAX_def)
  obtain found c w where r: "run_state (wfr_storage_load env (Some (saved_file_path ?file)) zero_creds) (sd app)
      = ((found, c), w)"
    by (metis surj_pair)
  show ?thesis
  proof (cases found)
    case False
    have "app_inv env ms (WiFirSceneSaved # st) (?a\<lparr>sd := w\<rparr>)"
      using app_inv_rest [OF inv _ q] st
      by (simp add: app_inv_def basics_def security_cond_def scene_cond_def quiet_def idle_def queue_inv_def)
    then show ?thesis
      using True False r
      by (intro stays [OF laws st, of env ok _ _ False "?a\<lparr>sd := w\<rparr>" "[]"])
        (simp_all add: scene_tables wi_fir_scene_saved_on_event_def Let_def)
  next
    case found: True
    let ?b = "(take_creds c (?a\<lparr>sd := w\<rparr>))\<lparr>selected_saved_file := ?file\<rparr>"
    have e: "scene_on_event env ok WiFirSceneSaved (SceneManagerEventTypeCustom ev) ?a = (True, ask (NextScene WiFirSceneConfirm) ?b)"
      using True found r saved_selected [of ?a env c w] by (simp add: scene_tables trunc [simplified])
    have "loaded_from_selected env ?b"
      using r found by (auto simp: loaded_from_selected_def take_creds_def)
    moreover have "loads_known env \<longrightarrow> unat (security c) < 4"
      using r found unfolding loads_known_def known_security_def by metis
    moreover have "queue_inv WiFirSceneConfirm 0 rest" "WiFirCustomEventDeleteConfirmed \<notin> set rest"
      using opening_queue [OF inv'(6) [unfolded q]] True by (simp_all add: is_opening_def)
    ultimately show ?thesis
      using nav_next(6) [OF inv'(1)] nav_security [OF inv'(1)] inv'(2,5)
      by (intro goes_on [OF laws st _ e, of "[]"] may_enter_confirm)
        (simp_all add: basics_def can_leave_def security_cond_def take_creds_def)
  qed
qed

lemma nfc_events:
  "scene_on_event env ok WiFirSceneScanNfc (SceneManagerEventTypeCustom WiFirCustomEventNfcWifiFound) app =
     (True, ask (NextScene WiFirSceneConfirm)
        ((ask (Notify ''success'') (take_creds (nfc_creds app) app))\<lparr>selected_saved_file := []\<rparr>))"
  "ev \<noteq> WiFirCustomEventNfcWifiFound \<Longrightarrow>
     (\<exists>a b c. scene_on_event env ok WiFirSceneScanNfc (SceneManagerEventTypeCustom ev) app =
       (True, wi_fir_nfc_show_error a b c app))
     \<or> scene_on_event env ok WiFirSceneScanNfc (SceneManagerEventTypeCustom ev) app = (False, app)"
  by (auto simp: scene_tables wi_fir_scene_scan_nfc_on_event_def Let_def)

lemma nfc_error_stays:
  assumes "app_inv env ms (WiFirSceneScanNfc # st) app"
  shows "app_inv env ms (WiFirSceneScanNfc # st) (wi_fir_nfc_show_error a b c app)"
    and "requests (wi_fir_nfc_show_error a b c app) = requests app @ [Notify ''blink_stop'', Notify ''error'']"
proof -
  show "app_inv env ms (WiFirSceneScanNfc # st) (wi_fir_nfc_show_error a b c app)"
    using assms
    by (simp add: app_inv_def basics_def security_cond_def scene_cond_def wi_fir_nfc_show_error_def wi_fir_nfc_stop_def
        app_ops queue_inv_def)
  show "requests (wi_fir_nfc_show_error a b c app) = requests app @ [Notify ''blink_stop'', Notify ''error'']"
    by (simp add: wi_fir_nfc_show_error_def wi_fir_nfc_stop_def app_ops)
qed

lemma step_nfc:
  assumes laws: "scene_manager_laws sm" and inv: "app_inv env ms (sm_stack sm m) app"
    and st: "sm_stack sm m = WiFirSceneScanNfc # st" and q: "posted app = ev # rest"
  shows "run_inv sm env ms (snd (handle_event sm env version ok (SceneManagerEventTypeCustom ev) m (app\<lparr>posted := rest\<rparr>)))"
proof (cases "ev = WiFirCustomEventNfcWifiFound")
  case True
  note inv' = app_invD [OF inv [unfolded st]]
  have "queue_inv WiFirSceneConfirm 0 rest" "WiFirCustomEventDeleteConfirmed \<notin> set rest"
    using opening_queue [OF inv'(6) [unfolded q]] True by (simp_all add: is_opening_def)
  then show ?thesis
    unfolding True
    using nav_next(5) [OF inv'(1)] nav_security [OF inv'(1)] inv'(2,5)
    by (intro goes_on [OF laws st _ nfc_events(1), where rs = "[Notify ''success'']"] may_enter_confirm)
      (simp_all add: basics_def can_leave_def security_cond_def take_creds_def ask_def changes_scene_def known_security_def)
next
  case False
  have a: "app_inv env ms (WiFirSceneScanNfc # st) (app\<lparr>posted := rest\<rparr>)"
    using app_inv_rest [OF inv _ q] st by simp
  from nfc_events(2) [OF False, of env ok "app\<lparr>posted := rest\<rparr>"] show ?thesis
  proof (elim disjE exE)
    fix x y z
    assume "scene_on_event env ok WiFirSceneScanNfc (SceneManagerEventTypeCustom ev) (app\<lparr>posted := rest\<rparr>) =
       (True, wi_fir_nfc_show_error x y z (app\<lparr>posted := rest\<rparr>))"
    then show ?thesis
      by (rule stays [OF laws st _ nfc_error_stays(2) [OF a] _ nfc_error_stays(1) [OF a]])
        (simp add: changes_scene_def)
  next
    assume "scene_on_event env ok WiFirSceneScanNfc (SceneManagerEventTypeCustom ev) (app\<lparr>posted := rest\<rparr>) =
       (False, app\<lparr>posted := rest\<rparr>)"
    then show ?thesis by (rule ignores [OF laws st _ a])
  qed
qed

lemma confirm_stack:
  assumes "WiFirSceneConfirm # st \<in> nav_stacks"
  obtains t st' where "st = t # st'" "t # st' \<in> nav_stacks" "t \<in> {WiFirSceneEditSecurity, WiFirSceneScanNfc, WiFirSceneSaved}"
  using assms by (auto simp: nav_stacks_def)

lemma confirm_events:
  "scene_on_event env ok WiFirSceneConfirm (SceneManagerEventTypeCustom WiFirCustomEventConfirmSend) app
     = (True, ask (NextScene WiFirSceneTransmit) app)"
  "scene_on_event env ok WiFirSceneConfirm (SceneManagerEventTypeCustom WiFirCustomEventConfirmBack) app
     = (True, ask PreviousScene app)"
  "scene_on_event env ok WiFirSceneConfirm (SceneManagerEventTypeCustom WiFirCustomEventConfirmDelete) app
     = (True, if selected_saved_file app \<noteq> [] then wi_fir_scene_confirm_show_delete_dialog app else app)"
  "scene_on_event env ok WiFirSceneConfirm (SceneManagerEventTypeCustom WiFirCustomEventDeleteConfirmed) app
     = (True, ask PreviousScene (app\<lparr>sd := snd (run_state (wfr_storage_delete env (selected_saved_file app)) (sd app)),
          selected_saved_file := []\<rparr>))"
  "scene_on_event env ok WiFirSceneConfirm (SceneManagerEventTypeCustom WiFirCustomEventDeleteCancelled) app
     = (True, ask (SwitchToView WiFirViewConfirm) app)"
  "\<not> is_confirm_event ev \<Longrightarrow> scene_on_event env ok WiFirSceneConfirm (SceneManagerEventTypeCustom ev) app = (False, app)"
  by (simp_all add: scene_tables wi_fir_scene_confirm_on_event_def is_confirm_event_def Let_def)

text \<open>Behind an event of the confirmation nothing is queued that leads to it.\<close>

lemma confirmed_queue:
  assumes "queue_inv WiFirSceneConfirm n (ev # rest)" "is_confirm_event ev"
  shows "t \<notin> {WiFirSceneTransmit, WiFirSceneConfirm} \<Longrightarrow> queue_inv t k rest"
    and "is_send ev \<Longrightarrow> queue_inv WiFirSceneTransmit 0 rest"
    and "is_send ev \<Longrightarrow> \<forall>x \<in> set rest. \<not> is_transmit_event x"
  using assms not_behind_none [of rest is_opening is_confirm_event] not_behind_none [of rest is_transmit_event is_send]
  by (simp_all add: queue_inv_def)

lemma goes_back_from_confirm:
  assumes laws: "scene_manager_laws sm" and st: "sm_stack sm m = WiFirSceneConfirm # st"
    and inv: "app_inv env ms (WiFirSceneConfirm # st) app" and q: "posted app = ev # rest" "is_confirm_event ev"
    and e: "scene_on_event env ok WiFirSceneConfirm (SceneManagerEventTypeCustom ev) (app\<lparr>posted := rest\<rparr>)
      = (c, ask PreviousScene b)"
    and b: "requests b = requests app" "basics env b" "can_leave WiFirSceneConfirm b" "security_type b = security_type app"
      "posted b = rest"
  shows "run_inv sm env ms (snd (handle_event sm env version ok (SceneManagerEventTypeCustom ev) m (app\<lparr>posted := rest\<rparr>)))"
proof -
  note inv' = app_invD [OF inv]
  obtain t st' where t: "st = t # st'" "t # st' \<in> nav_stacks"
    "t \<in> {WiFirSceneEditSecurity, WiFirSceneScanNfc, WiFirSceneSaved}"
    using confirm_stack [OF inv'(1)] .
  have sec: "WiFirSceneEditSecurity \<in> set (t # st') \<longrightarrow> unat (security_type b) < 4"
    using inv'(3) b(4) by (simp add: security_cond_def t(1))
  have "queue_inv t 0 rest"
    using confirmed_queue(1) [OF inv'(6) [unfolded q(1)] q(2)] t(3) by auto
  then have "may_enter env t st' b"
    using t sec b(5) by (intro may_enter_plain) auto
  then show ?thesis
    using b sec by (intro goes_back [OF laws st [unfolded t(1)] _ e, where rs = "[]"]) simp_all
qed

lemma dialog_stays:
  assumes "app_inv env ms (WiFirSceneConfirm # st) app" "selected_saved_file app \<noteq> []"
  shows "app_inv env ms (WiFirSceneConfirm # st) (wi_fir_scene_confirm_show_delete_dialog app)"
    and "requests (wi_fir_scene_confirm_show_delete_dialog app) =
      requests app @ [ResetModule WiFirViewDialogEx, SwitchToView WiFirViewDialogEx]"
  using assms
  by (simp_all add: app_inv_def basics_def security_cond_def scene_cond_def confirm_inv_def quiet_def idle_def
      loaded_from_selected_def wi_fir_scene_confirm_show_delete_dialog_def delete_question_def views_of_def
      queue_inv_def app_ops)

lemma view_confirm_stays:
  assumes "app_inv env ms (WiFirSceneConfirm # st) app"
  shows "app_inv env ms (WiFirSceneConfirm # st) (ask (SwitchToView WiFirViewConfirm) app)"
  using assms
  by (simp add: app_inv_def basics_def security_cond_def scene_cond_def confirm_inv_def quiet_def idle_def
      loaded_from_selected_def views_of_def queue_inv_def ask_def)

lemma step_confirm:
  assumes laws: "scene_manager_laws sm" and inv: "app_inv env ms (sm_stack sm m) app"
    and st: "sm_stack sm m = WiFirSceneConfirm # st" and q: "posted app = ev # rest"
  shows "run_inv sm env ms (snd (handle_event sm env version ok (SceneManagerEventTypeCustom ev) m (app\<lparr>posted := rest\<rparr>)))"
proof -
  let ?a = "app\<lparr>posted := rest\<rparr>"
  have inv0: "app_inv env ms (WiFirSceneConfirm # st) app" using inv st by simp
  note inv' = app_invD [OF inv0]
  have a: "app_inv env ms (WiFirSceneConfirm # st) ?a"
    using app_inv_rest [OF inv0 _ q] by simp
  consider "\<not> is_confirm_event ev" | "ev = WiFirCustomEventConfirmSend" | "ev = WiFirCustomEventConfirmBack"
    | "ev = WiFirCustomEventConfirmDelete" | "ev = WiFirCustomEventDeleteConfirmed" | "ev = WiFirCustomEventDeleteCancelled"
    by (auto simp: is_confirm_event_def)
  then show ?thesis
  proof cases
    case 1
    then show ?thesis by (intro ignores [OF laws st confirm_events(6) a])
  next
    case 2
    note cq = confirmed_queue(2,3) [OF inv'(6) [unfolded q]]
    have "may_enter env WiFirSceneTransmit (WiFirSceneConfirm # st) ?a"
      using nav_next(7) [OF inv'(1)] inv'(3) cq 2 by (simp add: may_enter_def security_cond_def is_send_def is_confirm_event_def)
    then show ?thesis
      unfolding 2 using inv'(2,5)
      by (intro goes_on [OF laws st _ confirm_events(1), where rs = "[]"]) (simp_all add: basics_def can_leave_def)
  next
    case 3
    show ?thesis
      using inv'(2,5) 3
      by (intro goes_back_from_confirm [OF laws st inv0 q, where b = ?a])
        (simp_all add: confirm_events is_confirm_event_def basics_def can_leave_def)
  next
    case 4
    show ?thesis
    proof (cases "selected_saved_file app = []")
      case True
      then show ?thesis
        using a unfolding 4 by (intro ignores [OF laws st]) (auto simp: confirm_events)
    next
      case False
      then show ?thesis
        unfolding 4
        by (intro stays [OF laws st confirm_events(3), where rs = "[ResetModule WiFirViewDialogEx, SwitchToView WiFirViewDialogEx]"])
          (simp_all add: dialog_stays [OF a] changes_scene_def)
    qed
  next
    case 5
    show ?thesis
      using inv'(2,5) 5
      by (intro goes_back_from_confirm [OF laws st inv0 q, where b = "?a\<lparr>sd := snd (run_state
            (wfr_storage_delete env (selected_saved_file ?a)) (sd ?a)), selected_saved_file := []\<rparr>"])
        (simp_all add: confirm_events is_confirm_event_def basics_def can_leave_def)
  next
    case 6
    show ?thesis
      unfolding 6
      by (intro stays [OF laws st confirm_events(5), where rs = "[SwitchToView WiFirViewConfirm]"])
        (simp_all add: view_confirm_stays [OF a] changes_scene_def)
  qed
qed

text \<open>
  What an event of the transmit scene leaves alone, other than those that leave the scene: the view, the
  working set, and the queue but for the end of a transmission that was joined.
\<close>

definition transmit_frame :: "'w WiFirApp \<Rightarrow> 'w WiFirApp \<Rightarrow> bool" where
  "transmit_frame a b \<longleftrightarrow>
     (\<exists>rs. requests b = requests a @ rs \<and> list_all (\<lambda>r. \<not> changes_scene r \<and> (\<forall>v. r = SwitchToView v \<longrightarrow> v = WiFirViewStatus)) rs)
     \<and> (posted b = posted a \<or> posted b = posted a @ [WiFirCustomEventTxFinished])
     \<and> (\<forall>env. basics env b = basics env a) \<and> nfc_polling b = nfc_polling a \<and> security_type b = security_type a"

lemma transmit_frameI:
  "requests b = requests a @ rs \<Longrightarrow>
   list_all (\<lambda>r. \<not> changes_scene r \<and> (\<forall>v. r = SwitchToView v \<longrightarrow> v = WiFirViewStatus)) rs \<Longrightarrow>
   posted b = posted a \<or> posted b = posted a @ [WiFirCustomEventTxFinished] \<Longrightarrow>
   (\<And>env. basics env b = basics env a) \<Longrightarrow> nfc_polling b = nfc_polling a \<Longrightarrow> security_type b = security_type a \<Longrightarrow> transmit_frame a b"
  by (auto simp: transmit_frame_def)

lemma transmit_frame_refl [simp]: "transmit_frame a a"
  by (rule transmit_frameI [where rs = "[]"]) simp_all

lemma changes_scene_simps [simp]:
  "\<not> changes_scene (Notify s)" "\<not> changes_scene (SwitchToView v)"
  by (simp_all add: changes_scene_def)

lemmas frame_ops = basics_def ask_def show_status_def Let_def stop_tx_posted

lemma frame_start_tx: "transmit_frame a (wi_fir_start_tx ok a)"
  by (rule transmit_frameI [where rs = "[Notify ''blink_stop'', SwitchToView WiFirViewStatus, Notify ''blink_start_magenta'']"])
    (simp_all add: wi_fir_start_tx_def frame_ops)

lemma frame_failure: "transmit_frame a b \<Longrightarrow> transmit_frame a (wi_fir_show_failure bd t l1 l2 r b)"
  by (auto simp: transmit_frame_def wi_fir_show_failure_def basics_def show_status_def)

lemma frame_listener: "transmit_frame a b \<Longrightarrow> transmit_frame a (wi_fir_start_ack_listener b)"
proof -
  assume f: "transmit_frame a b"
  then obtain rs where "requests b = requests a @ rs"
    "list_all (\<lambda>r. \<not> changes_scene r \<and> (\<forall>v. r = SwitchToView v \<longrightarrow> v = WiFirViewStatus)) rs"
    by (auto simp: transmit_frame_def)
  then show ?thesis
    using f
    by (intro transmit_frameI [where rs = "rs @ [Notify ''blink_start_cyan'']"])
      (auto simp: transmit_frame_def wi_fir_start_ack_listener_def frame_ops)
qed

lemma frame_finished: "transmit_frame a (wi_fir_on_tx_finished env ok a)"
proof -
  let ?b = "ask (Notify ''blink_stop'') (wi_fir_stop_tx ok a)"
  let ?c = "ask (Notify ''success'') (?b\<lparr>sd := snd (run_state (wfr_storage_save env (Some (tx_creds ?b))) (sd ?b))\<rparr>)"
  have b: "transmit_frame a (ask (Notify ''error'') ?b)"
    by (rule transmit_frameI [where rs = "[Notify ''blink_stop'', Notify ''error'']"]) (simp_all add: frame_ops)
  have c: "transmit_frame a ?c"
    by (rule transmit_frameI [where rs = "[Notify ''blink_stop'', Notify ''success'']"]) (simp_all add: frame_ops)
  have sent: "transmit_frame a ((show_status f ?c)\<lparr>dismiss_ticks := n\<rparr>)" for f n
    by (rule transmit_frameI [where rs = "[Notify ''blink_stop'', Notify ''success'']"]) (simp_all add: frame_ops)
  show ?thesis
    using frame_failure [OF b] frame_listener [OF c] sent
    by (simp add: wi_fir_on_tx_finished_def Let_def)
qed

lemma frame_custom:
  assumes "ev \<noteq> WiFirCustomEventStatusLeft" "ev \<noteq> WiFirCustomEventStatusOk"
  shows "transmit_frame a (snd (transmit_on_custom env ok ev a))"
proof -
  let ?s = "wi_fir_stop_ack_listener a"
  have "transmit_frame a (ask (Notify x) ?s)" "transmit_frame a (ask (Notify y) (ask (Notify x) ?s))" for x y
    by (rule transmit_frameI [where rs = "[Notify x]"] transmit_frameI [where rs = "[Notify x, Notify y]"], simp_all add: frame_ops)+
  moreover have "transmit_frame a ((show_status f ((ask (Notify y) (ask (Notify x) ?s))\<lparr>retry_allowed := r\<rparr>))\<lparr>dismiss_ticks := n\<rparr>)" for f x y r n
    by (rule transmit_frameI [where rs = "[Notify x, Notify y]"]) (simp_all add: frame_ops)
  ultimately show ?thesis
    using assms by (simp add: transmit_on_custom_def frame_finished frame_failure frame_start_tx Let_def)
qed

lemma transmit_events:
  "scene_on_event env ok WiFirSceneTransmit event = wi_fir_scene_transmit_on_event env ok event"
  by (simp add: scene_tables fun_eq_iff)

text \<open>Leaving for the menu: nothing that was queued for a confirmation is left.\<close>

lemma leaves_transmit:
  assumes laws: "scene_manager_laws sm" and st: "sm_stack sm m = WiFirSceneTransmit # st"
    and valid: "WiFirSceneTransmit # st \<in> nav_stacks"
    and e: "scene_on_event env ok WiFirSceneTransmit event app = (c, wi_fir_dismiss b)"
    and b: "requests b = requests app" "basics env b" "\<not> nfc_polling b"
    and q: "\<forall>x \<in> set (posted b). \<not> is_send x" "not_behind is_opening is_confirm_event (posted b)"
  shows "run_inv sm env ms (snd (handle_event sm env version ok event m app))"
proof -
  let ?b = "ask (SearchAndSwitchToPreviousScene WiFirSceneMainMenu) b"
  have leave: "basics env ?b" "can_leave WiFirSceneTransmit ?b"
    using b by (simp_all add: can_leave_def)
  have "queue_inv WiFirSceneMainMenu 0 (posted (scene_on_exit ok WiFirSceneTransmit ?b))"
    using q not_behind_none [of "posted b" is_send is_transmit_event]
    by (auto simp: leave_transmit(3) [OF leave] queue_inv_def not_behind_snoc event_classes)
  then show ?thesis
    using perform_menu [OF laws _ st leave] st valid e
      handled_change [OF laws st, of env ok event app c _ b "[]" version] b(1)
    by (simp add: wi_fir_dismiss_def)
qed

text \<open>Staying: the scene's own steps.\<close>

lemma stays_in_transmit:
  assumes laws: "scene_manager_laws sm" and st: "sm_stack sm m = WiFirSceneTransmit # st"
    and inv: "app_inv env ms (WiFirSceneTransmit # st) app"
    and e: "scene_on_event env ok WiFirSceneTransmit event a = (c, b)" "transmit_frame a b"
    and a: "requests a = requests app" "basics env a" "\<not> nfc_polling a" "security_type a = security_type app"
    and reach: "transmit_reach env ms (handled env ok event a)"
    and q: "queue_inv WiFirSceneTransmit (dismiss_ticks b) (posted b)"
  shows "run_inv sm env ms (snd (handle_event sm env version ok event m a))"
proof -
  note inv' = app_invD [OF inv]
  obtain rs where rs: "requests b = requests a @ rs"
    "list_all (\<lambda>r. \<not> changes_scene r \<and> (\<forall>v. r = SwitchToView v \<longrightarrow> v = WiFirViewStatus)) rs"
    using e(2) by (auto simp: transmit_frame_def)
  have "SearchAndSwitchToPreviousScene WiFirSceneMainMenu \<notin> set rs"
    using rs(2) by (induction rs) (auto simp: changes_scene_def)
  then have "handled env ok event a = InScene b"
    using e(1) rs(1) by (simp add: handled_def transmit_events)
  then have reach': "transmit_reach env ms (InScene b)"
    using reach by simp
  have "fold (\<lambda>r v. case r of SwitchToView x \<Rightarrow> Some x | _ \<Rightarrow> v) rs (Some WiFirViewStatus) = Some WiFirViewStatus"
    using rs(2) by (induction rs) (auto split: request.splits)
  moreover have "shown_view (requests a) = Some WiFirViewStatus"
    using inv'(4) by (simp add: scene_cond_def views_of_def a)
  ultimately have "shown_view (requests b) = Some WiFirViewStatus"
    by (simp add: rs(1))
  then have "app_inv env ms (WiFirSceneTransmit # st) b"
    using inv'(1,3) e(2) reach' q a
    by (simp add: app_inv_def scene_cond_def views_of_def transmit_frame_def security_cond_def)
  then show ?thesis
    using rs by (intro stays [OF laws st e(1) rs(1)]) (auto simp: list_all_iff)
qed

lemma transmit_queue:
  assumes "queue_inv WiFirSceneTransmit n (ev # rest)" "is_transmit_event ev"
  shows "\<forall>x \<in> set rest. \<not> is_send x" "not_behind is_opening is_confirm_event rest"
    and "q = rest \<or> q = rest @ [WiFirCustomEventTxFinished] \<Longrightarrow> queue_inv WiFirSceneTransmit k q"
proof -
  show none: "\<forall>x \<in> set rest. \<not> is_send x" and opn: "not_behind is_opening is_confirm_event rest"
    using assms by (auto simp: queue_inv_def)
  assume "q = rest \<or> q = rest @ [WiFirCustomEventTxFinished]"
  then show "queue_inv WiFirSceneTransmit k q"
    using none opn not_behind_none [of rest is_transmit_event is_send]
    by (auto simp: queue_inv_def not_behind_snoc event_classes)
qed

lemma step_transmit:
  assumes laws: "scene_manager_laws sm" and inv: "app_inv env ms (sm_stack sm m) app"
    and st: "sm_stack sm m = WiFirSceneTransmit # st" and q: "posted app = ev # rest"
  shows "run_inv sm env ms (snd (handle_event sm env version ok (SceneManagerEventTypeCustom ev) m (app\<lparr>posted := rest\<rparr>)))"
proof -
  let ?a = "app\<lparr>posted := rest\<rparr>"
  have inv0: "app_inv env ms (WiFirSceneTransmit # st) app" using inv st by simp
  note inv' = app_invD [OF inv0]
  have a: "basics env ?a" "\<not> nfc_polling ?a"
    using inv'(2,4) by (simp_all add: basics_def scene_cond_def)
  have reach: "transmit_reach env ms (handled env ok (SceneManagerEventTypeCustom ev) ?a)"
    using inv'(4) q by (intro transmit_reach.deliver) (simp_all add: scene_cond_def)
  obtain c b where e: "transmit_on_custom env ok ev ?a = (c, b)"
    by (cases "transmit_on_custom env ok ev ?a")
  then have e': "scene_on_event env ok WiFirSceneTransmit (SceneManagerEventTypeCustom ev) ?a = (c, b)"
    by (simp add: transmit_events wi_fir_scene_transmit_on_event_def)
  consider "ev = WiFirCustomEventStatusLeft \<or> ev = WiFirCustomEventStatusOk"
    | "is_transmit_event ev" "ev \<noteq> WiFirCustomEventStatusLeft" "ev \<noteq> WiFirCustomEventStatusOk"
    | "\<not> is_transmit_event ev"
    by blast
  then show ?thesis
  proof cases
    case 1
    have "is_transmit_event ev"
      using 1 by (auto simp: is_transmit_event_def is_key_event_def)
    moreover have "b = wi_fir_dismiss ?a"
      using 1 e by (auto simp: transmit_on_custom_def)
    ultimately show ?thesis
      using transmit_queue(1,2) [OF inv'(6) [unfolded q]] a e' inv'(1)
      by (intro leaves_transmit [OF laws st, where b = ?a]) simp_all
  next
    case 2
    have f: "transmit_frame ?a b"
      using frame_custom [OF 2(2,3), of ?a env ok] e by simp
    then have "posted b = rest \<or> posted b = rest @ [WiFirCustomEventTxFinished]"
      by (simp add: transmit_frame_def)
    then have "queue_inv WiFirSceneTransmit (dismiss_ticks b) (posted b)"
      by (rule transmit_queue(3) [OF inv'(6) [unfolded q] 2(1)])
    then show ?thesis
      using a by (intro stays_in_transmit [OF laws st inv0 e' f _ _ _ _ reach]) simp_all
  next
    case 3
    have "b = ?a"
      using 3 e by (auto simp: transmit_on_custom_def event_classes)
    moreover have "queue_inv WiFirSceneTransmit (dismiss_ticks ?a) (posted ?a)"
      using queue_inv_rest [OF inv'(6) [unfolded q]] by simp
    ultimately show ?thesis
      using a e' by (intro stays_in_transmit [OF laws st inv0 _ transmit_frame_refl _ _ _ _ reach]) simp_all
  qed
qed

lemma step_custom:
  assumes "scene_manager_laws sm" "app_inv env ms (sm_stack sm m) app" "posted app = ev # rest"
  shows "run_inv sm env ms (snd (wi_fir_custom_event_callback sm env version ok ev m (app\<lparr>posted := rest\<rparr>)))"
proof -
  have "sm_stack sm m \<noteq> []"
    using assms(2) by (auto simp: app_inv_def nav_stacks_def)
  then obtain s st where st: "sm_stack sm m = s # st"
    by (cases "sm_stack sm m") auto
  have none: "scene_on_event env ok s event a = (False, a)" if "s = WiFirSceneSettings \<or> s = WiFirSceneAbout" for event a
    using that by (auto simp: scene_tables no_event_def)
  note steps = step_menu [OF assms(1,2) _ assms(3)] step_ssid [OF assms(1,2) _ assms(3)]
    step_password [OF assms(1,2) _ assms(3)] step_security [OF assms(1,2) _ assms(3)]
    step_confirm [OF assms(1,2) _ assms(3)] step_transmit [OF assms(1,2) _ assms(3)]
    step_nfc [OF assms(1,2) _ assms(3)] step_saved [OF assms(1,2) _ assms(3)]
  show ?thesis
  proof (cases "s = WiFirSceneSettings \<or> s = WiFirSceneAbout")
    case True
    then show ?thesis
      unfolding wi_fir_custom_event_callback_def
      using app_inv_rest [OF assms(2) _ assms(3)] st by (intro ignores [OF assms(1) st none]) auto
  next
    case False
    then show ?thesis
      unfolding wi_fir_custom_event_callback_def
      using st False
      by (cases s) (auto intro: steps)
  qed
qed

section \<open>Ticks and the Back key\<close>

lemma top_scene:
  assumes "app_inv env ms (sm_stack sm m) app"
  obtains s st where "sm_stack sm m = s # st" "app_inv env ms (s # st) app"
  using assms by (cases "sm_stack sm m") (auto simp: app_inv_def nav_stacks_def)

lemma quiet_events:
  assumes "s \<noteq> WiFirSceneTransmit" "s \<noteq> WiFirSceneScanNfc" "event \<in> {SceneManagerEventTypeTick, SceneManagerEventTypeBack}"
  shows "scene_on_event env ok s event app = (False, app)"
  using assms
  by (cases s)
    (auto simp: scene_tables no_event_def wi_fir_scene_main_menu_on_event_def wi_fir_scene_edit_ssid_on_event_def
      wi_fir_scene_edit_password_on_event_def wi_fir_scene_edit_security_on_event_def
      wi_fir_scene_confirm_on_event_def wi_fir_scene_saved_on_event_def)

lemma nfc_restarts:
  assumes "app_inv env ms (WiFirSceneScanNfc # st) app"
  shows "app_inv env ms (WiFirSceneScanNfc # st) (wi_fir_nfc_start (app\<lparr>dismiss_ticks := n\<rparr>))"
    and "requests (wi_fir_nfc_start (app\<lparr>dismiss_ticks := n\<rparr>)) = requests app @ [Notify ''blink_start_cyan'']"
  using assms
  by (simp_all add: app_inv_def basics_def security_cond_def scene_cond_def wi_fir_nfc_start_def wi_fir_nfc_stop_def
      app_ops queue_inv_def)

lemma nfc_ticks:
  assumes "app_inv env ms (WiFirSceneScanNfc # st) app"
  shows "app_inv env ms (WiFirSceneScanNfc # st) (app\<lparr>dismiss_ticks := n\<rparr>)"
  using assms by (simp add: app_inv_def basics_def security_cond_def scene_cond_def queue_inv_def)

lemma step_tick:
  assumes laws: "scene_manager_laws sm" and inv: "app_inv env ms (sm_stack sm m) app"
  shows "run_inv sm env ms (wi_fir_tick_event_callback sm env version ok m app)"
proof -
  obtain s st where st: "sm_stack sm m = s # st" and inv0: "app_inv env ms (s # st) app"
    using top_scene [OF inv] .
  note inv' = app_invD [OF inv0]
  consider "s \<noteq> WiFirSceneTransmit \<and> s \<noteq> WiFirSceneScanNfc" | "s = WiFirSceneScanNfc" | "s = WiFirSceneTransmit" by blast
  then show ?thesis
    unfolding wi_fir_tick_event_callback_def
  proof cases
    case 1
    then show "run_inv sm env ms (snd (handle_event sm env version ok SceneManagerEventTypeTick m app))"
      by (intro ignores [OF laws st quiet_events inv0]) auto
  next
    case 2
    have e: "scene_on_event env ok s SceneManagerEventTypeTick app = (True,
        if dismiss_ticks app > 0 then
          if dismiss_ticks app - 1 = 0 then wi_fir_nfc_start (app\<lparr>dismiss_ticks := dismiss_ticks app - 1\<rparr>)
          else app\<lparr>dismiss_ticks := dismiss_ticks app - 1\<rparr>
        else app)"
      by (simp add: 2 scene_tables wi_fir_scene_scan_nfc_on_event_def Let_def)
    have "requests (snd (scene_on_event env ok s SceneManagerEventTypeTick app)) = requests app @
        (if dismiss_ticks app > 0 \<and> dismiss_ticks app - 1 = 0 then [Notify ''blink_start_cyan''] else [])"
      using nfc_restarts(2) [OF inv0 [unfolded 2]] by (simp add: e)
    moreover have "app_inv env ms (s # st) (snd (scene_on_event env ok s SceneManagerEventTypeTick app))"
      unfolding e using nfc_restarts(1) [OF inv0 [unfolded 2]] nfc_ticks [OF inv0 [unfolded 2]] inv0 by (simp add: 2)
    ultimately show "run_inv sm env ms (snd (handle_event sm env version ok SceneManagerEventTypeTick m app))"
      by (intro stays [OF laws st, of env ok _ app True]) (auto simp: e)
  next
    case 3
    have app: "basics env app" "\<not> nfc_polling app"
      using inv'(2,4) by (simp_all add: scene_cond_def 3)
    have reach: "transmit_reach env ms (handled env ok SceneManagerEventTypeTick app)"
      using inv'(4) by (intro transmit_reach.tick) (simp add: scene_cond_def 3)
    have st': "sm_stack sm m = WiFirSceneTransmit # st" using st 3 by simp
    have inv1: "app_inv env ms (WiFirSceneTransmit # st) app" using inv0 3 by simp
    have e: "scene_on_event env ok WiFirSceneTransmit SceneManagerEventTypeTick app = (True,
        if dismiss_ticks app > 0 then
          if dismiss_ticks app - 1 = 0 then wi_fir_dismiss (app\<lparr>dismiss_ticks := dismiss_ticks app - 1\<rparr>)
          else app\<lparr>dismiss_ticks := dismiss_ticks app - 1\<rparr>
        else app)"
      by (simp add: transmit_events wi_fir_scene_transmit_on_event_def Let_def)
    show "run_inv sm env ms (snd (handle_event sm env version ok SceneManagerEventTypeTick m app))"
    proof (cases "dismiss_ticks app > 0 \<and> dismiss_ticks app - 1 = 0")
      case True
      then show ?thesis
        using e app inv'(1,6) 3
        by (intro leaves_transmit [OF laws st', where b = "app\<lparr>dismiss_ticks := dismiss_ticks app - 1\<rparr>"])
          (simp_all add: basics_def queue_inv_def)
    next
      case False
      let ?b = "if dismiss_ticks app > 0 then app\<lparr>dismiss_ticks := dismiss_ticks app - 1\<rparr> else app"
      have "transmit_frame app ?b"
        by (rule transmit_frameI [where rs = "[]"]) (simp_all add: basics_def)
      moreover have "queue_inv WiFirSceneTransmit (dismiss_ticks ?b) (posted ?b)"
        using inv'(6) 3 by (simp add: queue_inv_def)
      ultimately show ?thesis
        using False e app by (intro stays_in_transmit [OF laws st' inv1, where b = ?b, OF _ _ _ _ _ _ reach]) auto
    qed
  qed
qed

lemma thread_queue:
  assumes "list_all from_thread q"
  shows "\<forall>x \<in> set q. \<not> is_send x" "\<forall>x \<in> set q. \<not> is_confirm_event x"
  using assms by (auto simp: list_all_iff from_thread_def event_classes)

lemma previous_stack:
  assumes "s # st \<in> nav_stacks" "s \<noteq> WiFirSceneTransmit"
  obtains "s = WiFirSceneMainMenu" "st = []"
  | t st' where "st = t # st'" "t # st' \<in> nav_stacks" "t \<notin> {WiFirSceneTransmit, WiFirSceneConfirm}"
  using assms by (auto simp: nav_stacks_def)

lemma queue_inv_back:
  assumes "queue_inv s n q" "s \<noteq> WiFirSceneTransmit" "t \<notin> {WiFirSceneTransmit, WiFirSceneConfirm}" "list_all from_thread q"
  shows "queue_inv t k q"
  using assms(1-3) not_behind_none [of q is_opening is_confirm_event] thread_queue [OF assms(4)]
  by (auto simp: queue_inv_def)

lemma step_back:
  assumes laws: "scene_manager_laws sm" and inv: "app_inv env ms (sm_stack sm m) app"
    and q: "list_all from_thread (posted app)"
  shows "run_inv sm env ms (after_back (wi_fir_back_event_callback sm env version ok m app))"
proof -
  obtain s st where st: "sm_stack sm m = s # st" and inv0: "app_inv env ms (s # st) app"
    using top_scene [OF inv] .
  note inv' = app_invD [OF inv0]
  consider "s \<noteq> WiFirSceneTransmit \<and> s \<noteq> WiFirSceneScanNfc" | "s = WiFirSceneScanNfc" | "s = WiFirSceneTransmit" by blast
  then show ?thesis
  proof cases
    case 1
    then have "scene_on_event env ok s SceneManagerEventTypeBack app = (False, app)"
      by (intro quiet_events) auto
    then have h: "handle_event sm env version ok SceneManagerEventTypeBack m app = (False, Running m app)"
      by (rule handled_same [OF laws st, where rs = "[]"]) simp_all
    show ?thesis
    proof (rule previous_stack [OF inv'(1)])
      show "s \<noteq> WiFirSceneTransmit" using 1 by simp
    next
      assume s: "s = WiFirSceneMainMenu" "st = []"
      obtain m' where "scene_manager_previous_scene sm m = (tl (sm_stack sm m) \<noteq> [],
          leave_current (sm_stack sm m) @ enter_current (tl (sm_stack sm m)), m')"
        using manager_previous [OF laws] .
      moreover have "quiet app"
        using inv'(4) s by (simp add: scene_cond_def)
      ultimately show ?thesis
        using s by (simp add: wi_fir_back_event_callback_def after_back_def h manager_back [OF laws] st resume_def scene_tables)
    next
      fix t st'
      assume t: "st = t # st'" "t # st' \<in> nav_stacks" "t \<notin> {WiFirSceneTransmit, WiFirSceneConfirm}"
      have "WiFirSceneEditSecurity \<in> set (t # st') \<longrightarrow> unat (security_type app) < 4"
        using inv'(3) by (simp add: security_cond_def t(1))
      moreover have "queue_inv t 0 (posted app)"
        using 1 t(3) q by (intro queue_inv_back [OF inv'(6)]) auto
      ultimately have "may_enter env t st' app" "t = WiFirSceneEditSecurity \<longrightarrow> unat (security_type app) < 4"
        using t by (auto intro!: may_enter_plain)
      moreover have "s \<noteq> WiFirSceneTransmit" using 1 by simp
      ultimately obtain calls m' where "scene_manager_previous_scene sm m = (True, calls, m')"
        "run_inv sm env ms (resume m' (run_calls env version ok calls app))"
        using go_previous [OF laws st [unfolded t(1)] inv'(2,5)] by blast
      then show ?thesis
        by (cases "resume m' (run_calls env version ok calls app)")
          (simp_all add: wi_fir_back_event_callback_def after_back_def h manager_back [OF laws])
    qed
  next
    case 2
    have e: "scene_on_event env ok s SceneManagerEventTypeBack app = (True, ask PreviousScene app)"
      by (simp add: 2 scene_tables wi_fir_scene_scan_nfc_on_event_def)
    obtain t st' where t: "st = t # st'" "t # st' \<in> nav_stacks" "t \<notin> {WiFirSceneTransmit, WiFirSceneConfirm}"
      using previous_stack [OF inv'(1)] 2 by auto
    have sec: "WiFirSceneEditSecurity \<in> set (t # st') \<longrightarrow> unat (security_type app) < 4"
      using inv'(3) by (simp add: security_cond_def t(1))
    have "queue_inv t 0 (posted app)"
      using 2 t(3) q by (intro queue_inv_back [OF inv'(6)]) auto
    then have "run_inv sm env ms (snd (handle_event sm env version ok SceneManagerEventTypeBack m app))"
      using t sec inv'(2,5) 2
      by (intro goes_back [OF laws st [unfolded t(1)] _ e, where rs = "[]"] may_enter_plain) auto
    moreover have "fst (handle_event sm env version ok SceneManagerEventTypeBack m app)"
      using handled_change [OF laws st e, where rs = "[]"] by simp
    ultimately show ?thesis
      by (cases "handle_event sm env version ok SceneManagerEventTypeBack m app")
        (simp add: wi_fir_back_event_callback_def after_back_def)
  next
    case 3
    have e: "scene_on_event env ok WiFirSceneTransmit SceneManagerEventTypeBack app = (True, wi_fir_dismiss app)"
      by (simp add: transmit_events wi_fir_scene_transmit_on_event_def)
    have st': "sm_stack sm m = WiFirSceneTransmit # st" using st 3 by simp
    have "run_inv sm env ms (snd (handle_event sm env version ok SceneManagerEventTypeBack m app))"
      using thread_queue [OF q] inv'(1,2,4,6) 3
      by (intro leaves_transmit [OF laws st' _ e]) (simp_all add: scene_cond_def queue_inv_def)
    moreover have "fst (handle_event sm env version ok SceneManagerEventTypeBack m app)"
      using handled_change [OF laws st' e [unfolded wi_fir_dismiss_def], where rs = "[]"] by simp
    ultimately show ?thesis
      by (cases "handle_event sm env version ok SceneManagerEventTypeBack m app")
        (simp add: wi_fir_back_event_callback_def after_back_def)
  qed
qed

section \<open>Entering the confirmation\<close>

text \<open>
  What a scene's handler can ask for: nothing that changes the scene; or, as its last request, another
  scene. Only three events lead to the confirmation.
\<close>

definition stays_put :: "'w WiFirApp \<Rightarrow> 'w WiFirApp \<Rightarrow> bool" where
  "stays_put a b \<longleftrightarrow> (\<exists>rs. requests b = requests a @ rs \<and> list_all (\<lambda>r. \<not> changes_scene r) rs)"

lemma stays_put_simps [simp]:
  "stays_put a a" "requests b = requests a \<Longrightarrow> stays_put a b"
  "requests b = requests a @ [Notify n] \<Longrightarrow> stays_put a b"
  "requests b = requests a @ [Notify n, Notify n'] \<Longrightarrow> stays_put a b"
  by (auto simp: stays_put_def)

lemma stays_put_frame: "transmit_frame a b \<Longrightarrow> stays_put a b"
  by (auto simp: transmit_frame_def stays_put_def list_all_iff)

definition outcome :: "WiFirScene \<Rightarrow> SceneManagerEvent \<Rightarrow> 'w WiFirApp \<Rightarrow> 'w WiFirApp \<Rightarrow> bool" where
  "outcome s event a b \<longleftrightarrow> stays_put a b
     \<or> (\<exists>t b0. b = ask (NextScene t) b0 \<and> stays_put a b0 \<and> posted b0 = posted a \<and> s \<noteq> WiFirSceneTransmit
          \<and> (t = WiFirSceneConfirm \<longrightarrow> (\<exists>ev. event = SceneManagerEventTypeCustom ev \<and> is_opening ev)))
     \<or> (\<exists>b0. b = ask (SearchAndSwitchToPreviousScene WiFirSceneMainMenu) b0 \<and> stays_put a b0)
     \<or> b = ask PreviousScene a \<and> s \<notin> {WiFirSceneTransmit, WiFirSceneConfirm}"

lemma outcomeI:
  "stays_put a b \<Longrightarrow> outcome s event a b"
  "stays_put a b0 \<Longrightarrow> posted b0 = posted a \<Longrightarrow> s \<noteq> WiFirSceneTransmit \<Longrightarrow> t \<noteq> WiFirSceneConfirm \<Longrightarrow>
     outcome s event a (ask (NextScene t) b0)"
  "stays_put a b0 \<Longrightarrow> posted b0 = posted a \<Longrightarrow> s \<noteq> WiFirSceneTransmit \<Longrightarrow> is_opening ev \<Longrightarrow>
     outcome s (SceneManagerEventTypeCustom ev) a (ask (NextScene t) b0)"
  "stays_put a b0 \<Longrightarrow> outcome s event a (ask (SearchAndSwitchToPreviousScene WiFirSceneMainMenu) b0)"
  "s \<notin> {WiFirSceneTransmit, WiFirSceneConfirm} \<Longrightarrow> outcome s event a (ask PreviousScene a)"
  unfolding outcome_def by blast+

lemma outcome_dismiss: "requests b = requests a \<Longrightarrow> outcome s event a (wi_fir_dismiss b)"
  unfolding wi_fir_dismiss_def by (rule outcomeI(4)) simp

lemma outcome_custom:
  assumes "s \<noteq> WiFirSceneConfirm"
  shows "outcome s (SceneManagerEventTypeCustom ev) a (snd (scene_on_event env ok s (SceneManagerEventTypeCustom ev) a))"
proof (cases s)
  case WiFirSceneMainMenu
  show ?thesis
    unfolding WiFirSceneMainMenu
    by (rule menu_events [of env ok ev a])
      (simp add: outcomeI(1), simp only: snd_conv, rule outcomeI(2), auto simp: set_scene_state_def)
next
  case WiFirSceneSaved
  then show ?thesis
    by (auto simp: scene_tables wi_fir_scene_saved_on_event_def Let_def take_creds_def is_opening_def
        intro: outcomeI split: prod.splits)
next
  case WiFirSceneScanNfc
  have e: "outcome s (SceneManagerEventTypeCustom ev) a (wi_fir_nfc_show_error x y z a)" for x y z
    by (rule outcomeI(1)) (simp add: wi_fir_nfc_show_error_def wi_fir_nfc_stop_def app_ops)
  show ?thesis
  proof (cases "ev = WiFirCustomEventNfcWifiFound")
    case True
    then show ?thesis
      unfolding WiFirSceneScanNfc True nfc_events(1) snd_conv
      by (intro outcomeI(3)) (simp_all add: take_creds_def ask_def is_opening_def)
  next
    case False
    then show ?thesis
      using nfc_events(2) [OF False, of env ok a] e WiFirSceneScanNfc by (auto intro: outcomeI(1))
  qed
next
  case WiFirSceneTransmit
  have "stays_put a (snd (transmit_on_custom env ok ev a))" if "ev \<noteq> WiFirCustomEventStatusLeft" "ev \<noteq> WiFirCustomEventStatusOk"
    using frame_custom [OF that] by (rule stays_put_frame)
  moreover have "snd (transmit_on_custom env ok ev a) = wi_fir_dismiss a"
    if "ev = WiFirCustomEventStatusLeft \<or> ev = WiFirCustomEventStatusOk"
    using that by (auto simp: transmit_on_custom_def)
  ultimately show ?thesis
    unfolding WiFirSceneTransmit transmit_events
    by (cases "ev = WiFirCustomEventStatusLeft \<or> ev = WiFirCustomEventStatusOk")
      (auto simp: wi_fir_scene_transmit_on_event_def wi_fir_dismiss_def intro: outcomeI)
qed (use assms in \<open>auto simp: scene_tables no_event_def is_opening_def wi_fir_scene_edit_ssid_on_event_def
    wi_fir_scene_edit_password_on_event_def wi_fir_scene_edit_security_on_event_def intro: outcomeI\<close>)

lemma outcome_other:
  assumes "event \<in> {SceneManagerEventTypeTick, SceneManagerEventTypeBack}"
  shows "outcome s event a (snd (scene_on_event env ok s event a))"
proof -
  consider "s \<noteq> WiFirSceneTransmit \<and> s \<noteq> WiFirSceneScanNfc" | "s = WiFirSceneScanNfc" | "s = WiFirSceneTransmit" by blast
  then show ?thesis
  proof cases
    case 1
    then have "scene_on_event env ok s event a = (False, a)"
      using assms by (intro quiet_events) auto
    then show ?thesis by (simp add: outcomeI)
  next
    case 2
    have "outcome s SceneManagerEventTypeTick a (snd (scene_on_event env ok s SceneManagerEventTypeTick a))"
      by (rule outcomeI(1))
        (simp add: 2 scene_tables wi_fir_scene_scan_nfc_on_event_def Let_def wi_fir_nfc_start_def wi_fir_nfc_stop_def app_ops)
    moreover have "outcome s SceneManagerEventTypeBack a (snd (scene_on_event env ok s SceneManagerEventTypeBack a))"
      by (simp add: 2 scene_tables wi_fir_scene_scan_nfc_on_event_def outcomeI(5))
    ultimately show ?thesis using assms by auto
  next
    case 3
    then show ?thesis
      using assms
      by (auto simp: transmit_events wi_fir_scene_transmit_on_event_def Let_def outcome_dismiss outcomeI(1))
  qed
qed

lemma exit_posted: "s \<noteq> WiFirSceneTransmit \<Longrightarrow> posted (scene_on_exit ok s a) = posted a"
  by (cases s)
    (simp_all add: scene_tables ask_def wi_fir_scene_edit_on_exit_def wi_fir_scene_variable_items_on_exit_def
      wi_fir_scene_confirm_on_exit_def wi_fir_scene_scan_nfc_on_exit_def wi_fir_nfc_stop_def)

lemma enter_confirm_posted:
  "scene_on_enter env version ok WiFirSceneConfirm a = Some b \<Longrightarrow> posted b = posted a"
  by (auto simp: scene_tables wi_fir_scene_confirm_on_enter_def ask_def)

lemma resume_Running: "resume m r = Running m' a \<longleftrightarrow> m' = m \<and> r = Some a"
  by (auto simp: resume_def split: option.splits)

text \<open>An event that ends on the confirmation is one of the three, and it leaves the rest of the queue as it is.\<close>

lemma enters_confirm:
  assumes laws: "scene_manager_laws sm" and st: "sm_stack sm m = s # st" "s # st \<in> nav_stacks" "s \<noteq> WiFirSceneConfirm"
    and out: "outcome s event a (snd (scene_on_event env ok s event a))"
    and run: "snd (handle_event sm env version ok event m a) = Running m' b"
    and top: "sm_stack sm m' = WiFirSceneConfirm # st'"
  shows "posted b = posted a \<and> (\<exists>ev. event = SceneManagerEventTypeCustom ev \<and> is_opening ev)"
proof -
  obtain c x where e: "scene_on_event env ok s event a = (c, x)"
    by (cases "scene_on_event env ok s event a")
  from out [unfolded e snd_conv outcome_def] show ?thesis
  proof (elim disjE exE conjE)
    assume "stays_put a x"
    then have "m' = m"
      using handled_same [OF laws st(1) e] run by (auto simp: stays_put_def)
    with st(1,3) top show ?thesis by simp
  next
    fix t b0
    assume x: "x = ask (NextScene t) b0" "stays_put a b0" "posted b0 = posted a" "s \<noteq> WiFirSceneTransmit"
      and ev: "t = WiFirSceneConfirm \<longrightarrow> (\<exists>ev. event = SceneManagerEventTypeCustom ev \<and> is_opening ev)"
    obtain m1 where m1: "scene_manager_next_scene sm t m = (leave_current (sm_stack sm m) @ [CallEnter t], m1)"
      "sm_stack sm m1 = t # sm_stack sm m"
      using manager_next [OF laws] .
    have "perform sm env version ok (NextScene t) m x = Running m' b"
      using handled_change [OF laws st(1) e [unfolded x(1)]] run x(1,2) by (auto simp: stays_put_def)
    then have r: "m' = m1" "scene_on_enter env version ok t (scene_on_exit ok s x) = Some b"
      by (simp_all add: perform_def m1 st(1) resume_Running bind_Some_app)
    then have "t = WiFirSceneConfirm"
      using m1(2) top by simp
    then show ?thesis
      using ev enter_confirm_posted [OF r(2) [unfolded \<open>t = WiFirSceneConfirm\<close>]] exit_posted [OF x(4), of ok x] x(1,3)
      by (simp add: ask_def)
  next
    fix b0
    assume x: "x = ask (SearchAndSwitchToPreviousScene WiFirSceneMainMenu) b0" "stays_put a b0"
    have menu: "WiFirSceneMainMenu \<in> set (sm_stack sm m)" "dropWhile (\<lambda>t. t \<noteq> WiFirSceneMainMenu) (sm_stack sm m) = [WiFirSceneMainMenu]"
      using st(1,2) by (auto simp: nav_stacks_def)
    obtain m1 where m1: "scene_manager_search_and_switch sm WiFirSceneMainMenu m =
        (True, leave_current (sm_stack sm m) @ [CallEnter WiFirSceneMainMenu], m1)"
      "sm_stack sm m1 = dropWhile (\<lambda>t. t \<noteq> WiFirSceneMainMenu) (sm_stack sm m)"
      using manager_search [OF laws menu(1)] .
    have "perform sm env version ok (SearchAndSwitchToPreviousScene WiFirSceneMainMenu) m x = Running m' b"
      using handled_change [OF laws st(1) e [unfolded x(1)]] run x by (auto simp: stays_put_def)
    then have "m' = m1"
      by (simp add: perform_def m1 resume_Running)
    then show ?thesis
      using m1(2) menu(2) top by simp
  next
    assume x: "x = ask PreviousScene a" "s \<notin> {WiFirSceneTransmit, WiFirSceneConfirm}"
    obtain m1 where m1: "scene_manager_previous_scene sm m = (tl (sm_stack sm m) \<noteq> [],
        leave_current (sm_stack sm m) @ enter_current (tl (sm_stack sm m)), m1)"
      "sm_stack sm m1 = tl (sm_stack sm m)"
      using manager_previous [OF laws] .
    have "perform sm env version ok PreviousScene m x = Running m' b"
      using handled_change [OF laws st(1) e [unfolded x(1)], where rs = "[]"] run x(1) by simp
    then have "m' = m1"
      by (simp add: perform_def m1 resume_Running)
    then have "st = WiFirSceneConfirm # st'"
      using m1(2) st(1) top by simp
    then show ?thesis
      using previous_stack [OF st(2)] x(2) by auto
  qed
qed

end
