(* ===== verification/Navigation_Reach.thy ===== *)
theory Navigation_Reach
  imports Navigation_Events
begin

text \<open>
  The invariant of the running application is kept by keys, by the threads and by the callbacks of the
  stock modules, so it holds in every reachable state; and what follows for the user: nothing outlives
  its scene, what is deleted and what is sent is what the screen showed, and Back leads out.
\<close>

section \<open>Keys and threads\<close>

lemma scene_of_view:
  assumes "app_inv env ms (s # st) app" "shown_view (requests app) = Some v"
  shows "v \<in> views_of s"
  using assms by (auto simp: app_inv_def scene_cond_def)

lemma views_cases:
  "WiFirViewMenu \<in> views_of s \<longleftrightarrow> s = WiFirSceneMainMenu" "WiFirViewList \<in> views_of s \<longleftrightarrow> s = WiFirSceneSaved"
  "WiFirViewConfirm \<in> views_of s \<longleftrightarrow> s = WiFirSceneConfirm" "WiFirViewDialogEx \<in> views_of s \<longleftrightarrow> s = WiFirSceneConfirm"
  "WiFirViewTextInput \<in> views_of s \<longleftrightarrow> s = WiFirSceneEditSsid \<or> s = WiFirSceneEditPassword"
  "WiFirViewStatus \<in> views_of s \<longleftrightarrow> s = WiFirSceneTransmit \<or> s = WiFirSceneScanNfc \<or> s = WiFirSceneAbout"
  by (cases s; simp add: views_of_def)+

text \<open>A step that only touches fields the invariant does not read, and posts an event of no class or an opening one.\<close>

definition plain_step :: "'w WiFirApp \<Rightarrow> 'w WiFirApp \<Rightarrow> bool" where
  "plain_step a b \<longleftrightarrow> (\<forall>env. basics env a \<longrightarrow> basics env b) \<and> security_type b = security_type a
     \<and> shown_view (requests b) = shown_view (requests a) \<and> quiet b = quiet a \<and> tx_thread b = tx_thread a
     \<and> ir_worker b = ir_worker a \<and> ack_timer b = ack_timer a \<and> status_callback b = status_callback a
     \<and> status_mode (status b) = status_mode (status a)
     \<and> (posted b = posted a \<or> (\<exists>ev. posted b = posted a @ [ev] \<and> \<not> is_transmit_event ev \<and> \<not> is_confirm_event ev))"

lemma plain_step_inv:
  assumes "app_inv env ms (s # st) a" "s \<noteq> WiFirSceneTransmit" "s \<noteq> WiFirSceneConfirm" "plain_step a b"
  shows "app_inv env ms (s # st) b"
proof -
  have "queue_inv s (dismiss_ticks b) (posted b)"
    using assms by (auto simp: plain_step_def app_inv_def queue_inv_def not_behind_snoc)
  then show ?thesis
    using assms by (simp add: plain_step_def app_inv_def security_cond_def scene_cond_def)
qed

lemmas plain_defs = plain_step_def basics_def quiet_def idle_def is_transmit_event_def is_ack_event_def is_key_event_def
  is_confirm_event_def

lemma plain_menu: "plain_step a (menu_pressed called v a)"
proof (cases called)
  case None
  then show ?thesis by (simp add: menu_pressed_def plain_defs)
next
  case (Some i)
  show ?thesis
  proof (cases "i < length main_menu_events")
    case True
    then have "\<not> is_transmit_event (main_menu_events ! i) \<and> \<not> is_confirm_event (main_menu_events ! i)"
      by (auto simp: main_menu_events_def event_classes less_Suc_eq)
    then show ?thesis
      using True Some
      by (simp add: menu_pressed_def wi_fir_scene_main_menu_callback_def post_def plain_step_def basics_def quiet_def idle_def)
  next
    case False
    then show ?thesis
      using Some by (simp add: menu_pressed_def wi_fir_scene_main_menu_callback_def plain_defs)
  qed
qed

lemma plain_list: "plain_step a (list_pressed called l a)"
  by (cases called)
    (simp_all add: list_pressed_def wi_fir_scene_saved_callback_def set_scene_state_def post_def plain_defs)

lemma plain_text: "plain_step a (a\<lparr>text_input_buf := t\<rparr>)" "plain_step a (wi_fir_scene_edit_callback a)"
  by (simp_all add: wi_fir_scene_edit_callback_def post_def plain_defs)

lemma plain_hidden: "wi_fir_scene_edit_hidden_change_callback index a = Some b \<Longrightarrow> plain_step a b"
  by (auto simp: wi_fir_scene_edit_hidden_change_callback_def ask_def plain_defs split: option.splits)

lemma plain_security_done: "plain_step a (wi_fir_scene_edit_security_enter_callback a)"
  by (simp add: wi_fir_scene_edit_security_enter_callback_def post_def plain_defs)

lemma plain_settings:
  "wi_fir_scene_settings_protocol_change env index a = Some b \<Longrightarrow> plain_step a b"
  "wi_fir_scene_settings_ack_change env index a = Some b \<Longrightarrow> plain_step a b"
  by (auto simp: wi_fir_scene_settings_protocol_change_def wi_fir_scene_settings_ack_change_def
      wi_fir_scene_settings_save_def ask_def Let_def plain_defs split: option.splits)

lemma plain_frame: "plain_step a (show_status wfr_status_view_tick a)"
  by (simp add: show_status_def wfr_status_view_tick_def plain_defs)

lemma nfc_poller_result:
  assumes "wi_fir_nfc_poller_callback fuel pe a = Ret (reply, b)"
  obtains "b = a"
  | c ev where "ev = WiFirCustomEventNfcWifiFound \<or> ev = WiFirCustomEventNfcNotWifi" "b = post ev (a\<lparr>nfc_creds := c\<rparr>)"
      "known_security (nfc_creds a) \<longrightarrow> known_security c"
proof (cases pe)
  case (MfUltralightPollerEventTypeReadSuccess page n)
  then obtain found creds where r: "wfr_nfc_parse_wifi_tag fuel (Some page) n (Some (nfc_creds a)) = Ret (found, creds)"
    "post (if found then WiFirCustomEventNfcWifiFound else WiFirCustomEventNfcNotWifi) (a\<lparr>nfc_creds := the creds\<rparr>) = b"
    using assms by (auto simp: wi_fir_nfc_poller_callback_def andthen_Ret Let_def)
  show thesis
    using r(2) tag_known [OF r(1)]
    by (intro that(2) [of "if found then WiFirCustomEventNfcWifiFound else WiFirCustomEventNfcNotWifi" "the creds"])
      (simp_all split: if_splits)
qed (use assms that(1) in \<open>simp_all add: wi_fir_nfc_poller_callback_def\<close>)

lemma plain_nfc:
  assumes "wi_fir_nfc_poller_callback fuel pe a = Ret (reply, b)"
  shows "plain_step a b"
  using assms
proof (rule nfc_poller_result)
  assume "b = a"
  then show ?thesis by (simp add: plain_step_def)
next
  fix c ev
  assume ev: "ev = WiFirCustomEventNfcWifiFound \<or> ev = WiFirCustomEventNfcNotWifi" and b: "b = post ev (a\<lparr>nfc_creds := c\<rparr>)"
    and c: "known_security (nfc_creds a) \<longrightarrow> known_security c"
  show ?thesis
    unfolding b using ev c by (elim disjE) (simp_all add: post_def plain_defs)
qed

lemma security_change_inv:
  assumes "app_inv env ms (WiFirSceneEditSecurity # st) a" "wi_fir_scene_edit_security_change_callback index a = Some b"
  shows "app_inv env ms (WiFirSceneEditSecurity # st) b"
proof -
  have index: "unat index < 4" and b: "\<exists>t. b = ask t (a\<lparr>security_type := index\<rparr>) \<and> \<not> (\<exists>v. t = SwitchToView v)"
    using assms(2) by (auto simp: wi_fir_scene_edit_security_change_callback_def array_get_def security_names_def
        split: option.splits if_splits)
  then obtain t where t: "b = ask t (a\<lparr>security_type := index\<rparr>)" "\<forall>v. t \<noteq> SwitchToView v"
    by auto
  have "shown_view (requests b) = shown_view (requests a)"
    using t by (cases t) simp_all
  then show ?thesis
    using assms(1) index t(1)
    by (simp add: app_inv_def basics_def security_cond_def scene_cond_def quiet_def idle_def queue_inv_def)
qed

text \<open>The confirmation's keys, and the steps of the transmit scene.\<close>

lemma confirm_post_inv:
  assumes "app_inv env ms (WiFirSceneConfirm # st) a" "is_confirm_event ev"
    and "ev = WiFirCustomEventDeleteConfirmed \<longrightarrow> shown_view (requests a) = Some WiFirViewDialogEx"
  shows "app_inv env ms (WiFirSceneConfirm # st) (post ev a)"
proof -
  have "\<not> is_transmit_event ev" "\<not> is_opening ev"
    using assms(2) by (auto simp: event_classes)
  then have "queue_inv WiFirSceneConfirm (dismiss_ticks (post ev a)) (posted (post ev a))"
    using assms(1) by (simp add: app_inv_def queue_inv_def not_behind_snoc)
  moreover have "loaded_from_selected env (post ev a) = loaded_from_selected env a"
    by (simp add: post_def)
  ultimately show ?thesis
    using assms
    by (auto simp: app_inv_def basics_def security_cond_def scene_cond_def confirm_inv_def quiet_def idle_def post_def)
qed

lemma transmit_step_inv:
  assumes inv: "app_inv env ms (WiFirSceneTransmit # st) a" and reach: "transmit_reach env ms (InScene b)"
    and b: "basics env b = basics env a" "security_type b = security_type a" "nfc_polling b = nfc_polling a"
      "requests b = requests a" "dismiss_ticks b = dismiss_ticks a"
      "posted b = posted a \<or> (\<exists>ev. posted b = posted a @ [ev] \<and> is_transmit_event ev)"
  shows "app_inv env ms (WiFirSceneTransmit # st) b"
proof -
  have "queue_inv WiFirSceneTransmit (dismiss_ticks b) (posted b)"
    using inv b(5,6) by (auto simp: app_inv_def queue_inv_def not_behind_snoc event_classes)
  then show ?thesis
    using inv reach b by (simp add: app_inv_def security_cond_def scene_cond_def)
qed

lemma in_transmit:
  assumes "app_inv env ms (s # st) a" "tx_thread a \<noteq> None \<or> ir_worker a \<or> ack_timer a \<noteq> None"
  shows "s = WiFirSceneTransmit" "transmit_reach env ms (InScene a)"
  using assms by (auto simp: app_inv_def scene_cond_def quiet_def idle_def split: if_splits)

lemma in_nfc:
  assumes "app_inv env ms (s # st) a" "nfc_polling a"
  shows "s = WiFirSceneScanNfc"
  using assms by (auto simp: app_inv_def scene_cond_def quiet_def split: if_splits)

section \<open>Every reachable state\<close>

lemma start_inv:
  assumes "scene_manager_laws sm" "sm_stack sm m = []"
  shows "run_inv sm env ms (wi_fir_app_start sm env version ok m w)"
proof -
  let ?a = "wi_fir_alloc env w"
  have a: "basics env ?a" "quiet ?a" "posted ?a = []"
    by (simp_all add: wi_fir_alloc_def zero_app_def basics_def quiet_def idle_def Let_def WFR_SEC_WPA_def split: prod.splits)
  obtain m' where m': "scene_manager_next_scene sm WiFirSceneMainMenu m =
      (leave_current (sm_stack sm m) @ [CallEnter WiFirSceneMainMenu], m')" "sm_stack sm m' = WiFirSceneMainMenu # sm_stack sm m"
    using manager_next [OF assms(1)] .
  show ?thesis
    using resumed [OF enter_menu [OF a(1,2)], of sm m' "[]"] m' a(3) assms(2)
    by (simp add: wi_fir_app_start_def perform_def bind_Some_app nav_stacks_def queue_inv_def)
qed

lemma plain_run:
  assumes "app_inv env ms (sm_stack sm m) a" "plain_step a b"
    and "hd (sm_stack sm m) \<noteq> WiFirSceneTransmit" "hd (sm_stack sm m) \<noteq> WiFirSceneConfirm"
  shows "run_inv sm env ms (Running m b)"
proof -
  obtain s st where st: "sm_stack sm m = s # st" and inv: "app_inv env ms (s # st) a"
    using top_scene [OF assms(1)] .
  show ?thesis
    using plain_step_inv [OF inv _ _ assms(2)] assms(3,4) st by simp
qed

lemma view_scene:
  assumes "app_inv env ms (sm_stack sm m) a" "shown_view (requests a) = Some v"
  shows "v \<in> views_of (hd (sm_stack sm m))"
proof -
  obtain s st where "sm_stack sm m = s # st" "app_inv env ms (s # st) a"
    using top_scene [OF assms(1)] .
  then show ?thesis using scene_of_view assms(2) by fastforce
qed

lemma receiver_scene:
  assumes "scene_manager_laws sm" "app_inv env ms (sm_stack sm m) a" "sm_receiver sm m = Some s"
  shows "hd (sm_stack sm m) = s" "\<exists>st. sm_stack sm m = s # st"
  using assms(3) by (auto simp: manager_receiver [OF assms(1)] split: list.splits)

lemma thread_run:
  assumes inv: "app_inv env ms (sm_stack sm m) a" "tx_thread a \<noteq> None \<or> ir_worker a \<or> ack_timer a \<noteq> None"
    and reach: "transmit_reach env ms (InScene a) \<Longrightarrow> transmit_reach env ms (InScene b)"
    and b: "basics env b = basics env a" "security_type b = security_type a" "nfc_polling b = nfc_polling a"
      "requests b = requests a" "dismiss_ticks b = dismiss_ticks a"
      "posted b = posted a \<or> (\<exists>ev. posted b = posted a @ [ev] \<and> is_transmit_event ev)"
  shows "run_inv sm env ms (Running m b)"
proof -
  obtain s st where st: "sm_stack sm m = s # st" and inv0: "app_inv env ms (s # st) a"
    using top_scene [OF inv(1)] .
  then show ?thesis
    using transmit_step_inv [OF _ reach b] in_transmit [OF inv0 inv(2)] by simp
qed

lemma frame_run:
  assumes inv: "app_inv env ms (sm_stack sm m) a"
  shows "run_inv sm env ms (Running m (show_status wfr_status_view_tick a))"
proof -
  obtain s st where st: "sm_stack sm m = s # st" and inv0: "app_inv env ms (s # st) a"
    using top_scene [OF inv] .
  let ?b = "show_status wfr_status_view_tick a"
  consider "s = WiFirSceneTransmit" | "s = WiFirSceneConfirm" | "s \<noteq> WiFirSceneTransmit" "s \<noteq> WiFirSceneConfirm" by blast
  then show ?thesis
  proof cases
    case 1
    have "transmit_reach env ms (InScene ?b)"
      using inv0 1 by (intro transmit_reach.frame) (simp add: app_inv_def scene_cond_def)
    then show ?thesis
      using inv0 1 st transmit_step_inv [of env ms st a ?b] by (simp add: basics_def show_status_def)
  next
    case 2
    then show ?thesis
      using inv0 st
      by (simp add: app_inv_def basics_def security_cond_def scene_cond_def confirm_inv_def loaded_from_selected_def
          quiet_def idle_def queue_inv_def show_status_def)
  next
    case 3
    then show ?thesis using plain_run [OF inv plain_frame] st by simp
  qed
qed

lemma confirm_run:
  assumes inv: "app_inv env ms (sm_stack sm m) a" "shown_view (requests a) = Some v"
    and v: "v = WiFirViewConfirm \<or> v = WiFirViewDialogEx" "is_confirm_event ev"
    and d: "ev = WiFirCustomEventDeleteConfirmed \<longrightarrow> v = WiFirViewDialogEx"
  shows "run_inv sm env ms (Running m (post ev a))"
proof -
  obtain s st where st: "sm_stack sm m = s # st" and inv0: "app_inv env ms (s # st) a"
    using top_scene [OF inv(1)] .
  have s: "s = WiFirSceneConfirm"
    using scene_of_view [OF inv0 inv(2)] v(1) by (auto simp: views_cases)
  then show ?thesis
    using confirm_post_inv [OF inv0 [unfolded s] v(2)] d inv(2) st by simp
qed

lemma status_run:
  assumes inv: "app_inv env ms (sm_stack sm m) a" "shown_view (requests a) = Some WiFirViewStatus" "status_callback a"
    and key: "wfr_status_view_input e (status a) = (True, Some k)"
  shows "run_inv sm env ms (Running m (wi_fir_status_callback k a))"
proof -
  obtain s st where st: "sm_stack sm m = s # st" and inv0: "app_inv env ms (s # st) a"
    using top_scene [OF inv(1)] .
  have "s = WiFirSceneTransmit \<or> s = WiFirSceneScanNfc \<or> s = WiFirSceneAbout"
    using scene_of_view [OF inv0 inv(2)] by (simp add: views_cases)
  then have s: "s = WiFirSceneTransmit"
    using inv0 inv(3) status_input_modes(1) [OF key]
    by (auto simp: app_inv_def scene_cond_def)
  have "transmit_reach env ms (InScene (wi_fir_status_callback k a))"
    using inv0 s key by (intro transmit_reach.key) (simp_all add: app_inv_def scene_cond_def)
  then show ?thesis
    using transmit_step_inv [OF inv0 [unfolded s], of "wi_fir_status_callback k a"] st s
    by (simp add: wi_fir_status_callback_def basics_def post_def event_classes)
qed

lemma reach_inv:
  assumes laws: "scene_manager_laws sm" and reach: "app_reach sm env version ms r"
  shows "run_inv sm env ms r"
  using reach
proof (induction rule: app_reach.induct)
  case (start m ok w)
  then show ?case by (rule start_inv [OF laws])
next
  case (custom m app ev rest ok)
  then show ?case using step_custom [OF laws] by simp
next
  case (ticks m app ok)
  then show ?case using step_tick [OF laws] by simp
next
  case (back_key m app ok)
  then show ?case using step_back [OF laws] by simp
next
  case (menu_key m app e used called v)
  then have inv: "app_inv env ms (sm_stack sm m) app" by simp
  show ?case
    using view_scene [OF inv menu_key.hyps(2)] by (intro plain_run [OF inv plain_menu]) (auto simp: views_cases)
next
  case (list_key m app e used called l)
  then have inv: "app_inv env ms (sm_stack sm m) app" by simp
  show ?case
    using view_scene [OF inv list_key.hyps(2)] by (intro plain_run [OF inv plain_list]) (auto simp: views_cases)
next
  case (confirm_key m app e used answer)
  then have inv: "app_inv env ms (sm_stack sm m) app" by simp
  show ?case
    using confirm_run [OF inv confirm_key.hyps(2)]
    by (cases answer) (simp_all add: wi_fir_scene_confirm_callback_def is_confirm_event_def)
next
  case (dialog_key m app right)
  then have inv: "app_inv env ms (sm_stack sm m) app" by simp
  show ?case
    using confirm_run [OF inv dialog_key.hyps(2)]
    by (simp add: wi_fir_scene_confirm_delete_callback_def is_confirm_event_def)
next
  case (status_key m app e k)
  then show ?case by (intro status_run) simp_all
next
  case (text_edit m app s)
  then have inv: "app_inv env ms (sm_stack sm m) app" by simp
  show ?case
    using view_scene [OF inv text_edit.hyps(2)] by (intro plain_run [OF inv plain_text(1)]) (auto simp: views_cases)
next
  case (text_done m app)
  then have inv: "app_inv env ms (sm_stack sm m) app" by simp
  show ?case
    using view_scene [OF inv text_done.hyps(2)] by (intro plain_run [OF inv plain_text(2)]) (auto simp: views_cases)
next
  case (security_change m app index app')
  then have inv: "app_inv env ms (sm_stack sm m) app" by simp
  obtain st where "sm_stack sm m = WiFirSceneEditSecurity # st"
    using receiver_scene(2) [OF laws inv security_change.hyps(2)] by blast
  then show ?case
    using security_change_inv [OF _ security_change.hyps(4)] inv by simp
next
  case (hidden_change m app index app')
  then have inv: "app_inv env ms (sm_stack sm m) app" by simp
  show ?case
    using receiver_scene(1) [OF laws inv hidden_change.hyps(2)] by (intro plain_run [OF inv plain_hidden [OF hidden_change.hyps(4)]]) simp_all
next
  case (security_done m app)
  then have inv: "app_inv env ms (sm_stack sm m) app" by simp
  show ?case
    using receiver_scene(1) [OF laws inv security_done.hyps(2)] by (intro plain_run [OF inv plain_security_done]) simp_all
next
  case (protocol_change m app index app')
  then have inv: "app_inv env ms (sm_stack sm m) app" by simp
  show ?case
    using receiver_scene(1) [OF laws inv protocol_change.hyps(2)] by (intro plain_run [OF inv plain_settings(1) [OF protocol_change.hyps(4)]]) simp_all
next
  case (ack_change m app index app')
  then have inv: "app_inv env ms (sm_stack sm m) app" by simp
  show ?case
    using receiver_scene(1) [OF laws inv ack_change.hyps(2)] by (intro plain_run [OF inv plain_settings(2) [OF ack_change.hyps(4)]]) simp_all
next
  case (tx_progress m app n tot)
  then show ?case
    by (intro thread_run [where a = app] transmit_reach.progress)
      (simp_all add: wi_fir_tx_progress_def show_status_def basics_def)
next
  case (tx_returned m app ok)
  then show ?case
    by (intro thread_run [where a = app] transmit_reach.returned)
      (simp_all add: wi_fir_tx_worker_returned_def basics_def Let_def)
next
  case (tx_posts m app)
  then show ?case
    by (intro thread_run [where a = app] transmit_reach.posts)
      (simp_all add: wi_fir_tx_worker_post_def basics_def post_def event_classes)
next
  case (ir_signal m app t sg)
  have "basics env (wi_fir_ir_rx_callback ms t sg app) = basics env app
    \<and> security_type (wi_fir_ir_rx_callback ms t sg app) = security_type app
    \<and> nfc_polling (wi_fir_ir_rx_callback ms t sg app) = nfc_polling app
    \<and> requests (wi_fir_ir_rx_callback ms t sg app) = requests app
    \<and> dismiss_ticks (wi_fir_ir_rx_callback ms t sg app) = dismiss_ticks app"
    by (simp add: wi_fir_ir_rx_callback_def Let_def basics_def split: option.splits prod.splits)
  then show ?case
    using ir_signal rx_callback_posted [of ms t sg app]
    by (intro thread_run [where a = app] transmit_reach.signal) (auto simp: event_classes)
next
  case (ack_timeout m app)
  then show ?case
    by (intro thread_run [where a = app] transmit_reach.timer)
      (simp_all add: wi_fir_ack_timeout_callback_def basics_def post_def event_classes)
next
  case (frame_tick m app)
  then show ?case using frame_run [of env ms sm m app] by simp
next
  case (nfc_poll m app fuel pe reply app')
  then have inv: "app_inv env ms (sm_stack sm m) app" by simp
  obtain s st where st: "sm_stack sm m = s # st" and inv0: "app_inv env ms (s # st) app"
    using top_scene [OF inv] .
  show ?case
    using in_nfc [OF inv0 nfc_poll.hyps(2)] st by (intro plain_run [OF inv plain_nfc [OF nfc_poll.hyps(3)]]) simp_all
next
  case (nfc_fault m app page n)
  have "fine (wi_fir_nfc_poller_callback (length page) (MfUltralightPollerEventTypeReadSuccess page n) app)"
    if "length page = 4 * n" "length page \<le> 65000" "no_ff_pair page"
    using tag_fine [OF that order_refl, of "nfc_creds app"]
    by (auto simp: wi_fir_nfc_poller_callback_def fine_def Let_def)
  then show ?case
    using nfc_fault.hyps(3) by auto
qed

end
