(* ===== verification/Running_App.thy ===== *)
theory Running_App
  imports Navigation_Reach
begin

text \<open>
  The properties of the running application: nothing outlives its scene, what is deleted and what is
  sent is what the screen showed, and Back leads out of every state. They rest on the invariant of
  theory \<open>Navigation_Reach\<close>; a concrete scene manager and storage show that their hypotheses can hold.
\<close>

section \<open>Back leads out\<close>

lemma entered_posted:
  "enters env ms t app r \<Longrightarrow> \<exists>app'. r = Some app' \<and> posted app' = posted app"
  by (auto simp: enters_def)

definition descends :: "'m scene_manager \<Rightarrow> 'm \<Rightarrow> ('m, 'w) app_run \<Rightarrow> bool" where
  "descends sm m r = (case r of
      Running m' app' \<Rightarrow> length (sm_stack sm m') < length (sm_stack sm m) \<and> list_all from_thread (posted app')
    | Finished app' \<Rightarrow> True
    | _ \<Rightarrow> False)"

lemma descends_resume:
  assumes "enters env ms t x r" "list_all from_thread (posted x)" "length (sm_stack sm m') < length (sm_stack sm m)"
  shows "descends sm m (resume m' r)"
  using assms by (auto simp: descends_def resume_def enters_def)

lemma previous_descends:
  assumes laws: "scene_manager_laws sm" and st: "sm_stack sm m = s # t # st'"
    and a: "basics env a" "can_leave s a" "s \<noteq> WiFirSceneTransmit" and t: "may_enter env t st' a"
    and sec: "t = WiFirSceneEditSecurity \<longrightarrow> unat (security_type a) < 4" and q: "list_all from_thread (posted a)"
  shows "\<exists>calls m'. scene_manager_previous_scene sm m = (True, calls, m')
    \<and> descends sm m (resume m' (run_calls env version ok calls a))"
proof -
  obtain m' where m': "scene_manager_previous_scene sm m = (tl (sm_stack sm m) \<noteq> [],
      leave_current (sm_stack sm m) @ enter_current (tl (sm_stack sm m)), m')"
    "sm_stack sm m' = tl (sm_stack sm m)"
    using manager_previous [OF laws] .
  have "list_all from_thread (posted (scene_on_exit ok s a))"
    using leave_scene [OF a] q by simp
  then have "descends sm m (resume m' (scene_on_enter env version ok t (scene_on_exit ok s a)))"
    using st m'(2) by (intro descends_resume [OF left_and_entered(1) [OF a t sec]]) simp_all
  then show ?thesis
    using m'(1) by (simp add: st bind_Some_app)
qed

lemma transmit_descends:
  assumes laws: "scene_manager_laws sm" and st: "sm_stack sm m = WiFirSceneTransmit # st" "sm_stack sm m \<in> nav_stacks"
    and app: "basics env app" "\<not> nfc_polling app" and q: "list_all from_thread (posted app)"
  shows "descends sm m (perform sm env version ok (SearchAndSwitchToPreviousScene WiFirSceneMainMenu) m app)"
proof -
  have top: "WiFirSceneMainMenu \<in> set (sm_stack sm m)"
    "dropWhile (\<lambda>t. t \<noteq> WiFirSceneMainMenu) (sm_stack sm m) = [WiFirSceneMainMenu]" "1 < length (sm_stack sm m)"
    using st by (auto simp: nav_stacks_def)
  obtain m' where m': "scene_manager_search_and_switch sm WiFirSceneMainMenu m =
      (True, leave_current (sm_stack sm m) @ [CallEnter WiFirSceneMainMenu], m')"
    "sm_stack sm m' = dropWhile (\<lambda>t. t \<noteq> WiFirSceneMainMenu) (sm_stack sm m)"
    using manager_search [OF laws top(1)] .
  have leave: "can_leave WiFirSceneTransmit app" using app(2) by (simp add: can_leave_def)
  have "list_all from_thread (posted (scene_on_exit ok WiFirSceneTransmit app))"
    using q leave_transmit(3) [OF app(1) leave] by (simp add: from_thread_def)
  then have "descends sm m (resume m' (scene_on_enter env version ok WiFirSceneMainMenu (scene_on_exit ok WiFirSceneTransmit app)))"
    using leave_transmit(1,2) [OF app(1) leave] m'(2) top(2,3) by (intro descends_resume [OF enter_menu]) simp_all
  then show ?thesis
    using m'(1) st(1) by (simp add: perform_def bind_Some_app)
qed

lemma back_descends:
  assumes laws: "scene_manager_laws sm" and inv: "app_inv env ms (sm_stack sm m) app"
    and q: "list_all from_thread (posted app)"
  shows "descends sm m (after_back (wi_fir_back_event_callback sm env version ok m app))"
proof -
  obtain s st where st: "sm_stack sm m = s # st" and inv0: "app_inv env ms (s # st) app"
    using top_scene [OF inv] .
  note inv' = app_invD [OF inv0]
  have below: "may_enter env t st' a" "t = WiFirSceneEditSecurity \<longrightarrow> unat (security_type app) < 4"
    if "st = t # st'" "t # st' \<in> nav_stacks" "t \<notin> {WiFirSceneTransmit, WiFirSceneConfirm}" "s \<noteq> WiFirSceneTransmit"
      "posted a = posted app" "security_type a = security_type app" for t st' a
    using that inv'(3) queue_inv_back [OF inv'(6) that(4) that(3) q]
    by (auto simp: security_cond_def intro!: may_enter_plain)
  consider "s \<noteq> WiFirSceneTransmit \<and> s \<noteq> WiFirSceneScanNfc" | "s = WiFirSceneScanNfc" | "s = WiFirSceneTransmit" by blast
  then show ?thesis
  proof cases
    case 1
    then have s: "s \<noteq> WiFirSceneTransmit" by simp
    have "scene_on_event env ok s SceneManagerEventTypeBack app = (False, app)"
      using 1 by (intro quiet_events) auto
    then have h: "handle_event sm env version ok SceneManagerEventTypeBack m app = (False, Running m app)"
      by (rule handled_same [OF laws st, where rs = "[]"]) simp_all
    show ?thesis
    proof (rule previous_stack [OF inv'(1) s])
      assume main: "s = WiFirSceneMainMenu" "st = []"
      obtain m' where "scene_manager_previous_scene sm m = (tl (sm_stack sm m) \<noteq> [],
          leave_current (sm_stack sm m) @ enter_current (tl (sm_stack sm m)), m')"
        using manager_previous [OF laws] .
      then show ?thesis
        using main by (simp add: wi_fir_back_event_callback_def after_back_def h manager_back [OF laws] st resume_def
            scene_tables descends_def)
    next
      fix t st'
      assume t: "st = t # st'" "t # st' \<in> nav_stacks" "t \<notin> {WiFirSceneTransmit, WiFirSceneConfirm}"
      obtain calls m' where "scene_manager_previous_scene sm m = (True, calls, m')"
        "descends sm m (resume m' (run_calls env version ok calls app))"
        using previous_descends [OF laws st [unfolded t(1)] inv'(2,5) s below(1) [OF t s refl refl] below(2) [OF t s refl refl] q]
          by blast
      then show ?thesis
        by (cases "resume m' (run_calls env version ok calls app)")
          (simp_all add: wi_fir_back_event_callback_def after_back_def h manager_back [OF laws])
    qed
  next
    case 2
    have s: "s \<noteq> WiFirSceneTransmit" using 2 by simp
    have e: "scene_on_event env ok s SceneManagerEventTypeBack app = (True, ask PreviousScene app)"
      by (simp add: 2 scene_tables wi_fir_scene_scan_nfc_on_event_def)
    obtain t st' where t: "st = t # st'" "t # st' \<in> nav_stacks" "t \<notin> {WiFirSceneTransmit, WiFirSceneConfirm}"
      using previous_stack [OF inv'(1) s] 2 by auto
    have "security_type (ask PreviousScene app) = security_type app" "posted (ask PreviousScene app) = posted app"
      by simp_all
    then obtain calls m' where "scene_manager_previous_scene sm m = (True, calls, m')"
      "descends sm m (resume m' (run_calls env version ok calls (ask PreviousScene app)))"
      using previous_descends [OF laws st [unfolded t(1)], where a = "ask PreviousScene app" and env = env and version = version and ok = ok]
        below [OF t s, of "ask PreviousScene app"] inv'(2,5) s q by auto
    then show ?thesis
      using handled_change [OF laws st e, where rs = "[]"]
      by (simp add: wi_fir_back_event_callback_def after_back_def perform_def)
  next
    case 3
    have e: "scene_on_event env ok WiFirSceneTransmit SceneManagerEventTypeBack app = (True, wi_fir_dismiss app)"
      by (simp add: transmit_events wi_fir_scene_transmit_on_event_def)
    have st': "sm_stack sm m = WiFirSceneTransmit # st" using st 3 by simp
    have "descends sm m (perform sm env version ok (SearchAndSwitchToPreviousScene WiFirSceneMainMenu) m
        (ask (SearchAndSwitchToPreviousScene WiFirSceneMainMenu) app))"
      using inv'(1,2,4) 3 st q by (intro transmit_descends [OF laws st']) (simp_all add: scene_cond_def ask_def basics_def)
    then show ?thesis
      using handled_change [OF laws st' e [unfolded wi_fir_dismiss_def], where rs = "[]"]
      by (simp add: wi_fir_back_event_callback_def after_back_def)
  qed
qed

text \<open>Pressing Back \<open>n\<close> times.\<close>

fun press_back ::
  "'m scene_manager \<Rightarrow> 'w flipper_storage \<Rightarrow> string \<Rightarrow> bool \<Rightarrow> nat \<Rightarrow> ('m, 'w) app_run \<Rightarrow> ('m, 'w) app_run" where
  "press_back sm env version ok (Suc n) (Running m app) =
     press_back sm env version ok n (after_back (wi_fir_back_event_callback sm env version ok m app))"
| "press_back sm env version ok n run = run"

lemma press_back_Finished [simp]: "press_back sm env version ok n (Finished app) = Finished app"
  by (cases n) simp_all

lemma back_finishes:
  assumes "scene_manager_laws sm" "app_inv env ms (sm_stack sm m) app" "list_all from_thread (posted app)"
    and "length (sm_stack sm m) \<le> n"
  shows "\<exists>app'. press_back sm env version ok n (Running m app) = Finished app' \<and> quiet app'"
  using assms(2-4)
proof (induction n arbitrary: m app)
  case 0
  then show ?case by (simp add: app_inv_def nav_stacks_def)
next
  case (Suc n)
  let ?r = "after_back (wi_fir_back_event_callback sm env version ok m app)"
  have "descends sm m ?r" "run_inv sm env ms ?r"
    using back_descends [OF assms(1) Suc.prems(1,2)] step_back [OF assms(1) Suc.prems(1,2)] by blast+
  then show ?case
    using Suc.IH Suc.prems(3) by (cases ?r) (auto simp: descends_def)
qed

lemma stack_depth: "st \<in> nav_stacks \<Longrightarrow> length st \<le> 6"
  by (auto simp: nav_stacks_def)

section \<open>A run of the application\<close>

text \<open>A scene manager that keeps the laws, and a card with one saved network, on which nothing changes.\<close>

definition stack_manager :: "WiFirScene list scene_manager" where
  "stack_manager = \<lparr>
     sm_stack = (\<lambda>m. m),
     sm_receiver = (\<lambda>m. case m of [] \<Rightarrow> None | s # _ \<Rightarrow> Some s),
     scene_manager_next_scene = (\<lambda>s m. (leave_current m @ [CallEnter s], s # m)),
     scene_manager_previous_scene = (\<lambda>m. (tl m \<noteq> [], leave_current m @ enter_current (tl m), tl m)),
     scene_manager_search_and_switch = (\<lambda>s m. (True, leave_current m @ [CallEnter s], dropWhile (\<lambda>t. t \<noteq> s) m)),
     sm_back_unconsumed = (\<lambda>m. (tl m \<noteq> [], leave_current m @ enter_current (tl m), tl m))\<rparr>"

lemma stack_manager_sel [simp]:
  "sm_stack stack_manager m = m" "sm_receiver stack_manager m = (case m of [] \<Rightarrow> None | s # _ \<Rightarrow> Some s)"
  "scene_manager_next_scene stack_manager s m = (leave_current m @ [CallEnter s], s # m)"
  by (simp_all add: stack_manager_def)

lemma stack_manager_laws: "scene_manager_laws stack_manager"
  by (simp add: scene_manager_laws_def stack_manager_def)

definition demo_storage :: "unit flipper_storage" where
  "demo_storage = \<lparr>
     simply_mkdir = (\<lambda>d. State_Monad.return ()),
     simply_remove = (\<lambda>p. State_Monad.return True),
     ff_open_always = (\<lambda>p. State_Monad.return True),
     ff_open_existing = (\<lambda>p. State_Monad.return True),
     ff_write_header = (\<lambda>t v. State_Monad.return True),
     ff_write_string = (\<lambda>k s. State_Monad.return True),
     ff_write_uint32 = (\<lambda>k n. State_Monad.return True),
     ff_read_header = State_Monad.return (Some (WFR_FILE_TYPE, WFR_FILE_VERSION)),
     ff_read_string = (\<lambda>k. State_Monad.return (Some ''home'')),
     ff_read_uint32 = (\<lambda>k. State_Monad.return (Some 1)),
     ff_free = State_Monad.return (),
     dir_open = (\<lambda>d. State_Monad.return (Some [(False, ''h.wfir'')])),
     dir_close = State_Monad.return ()\<rparr>"

definition demo_creds :: WfrWifiCreds where
  "demo_creds = \<lparr>ssid = ''home'', password = ''home'', security = 1, hidden = True\<rparr>"

lemma demo_load: "run_state (wfr_storage_load demo_storage (Some p) zero_creds) () = ((True, demo_creds), ())"
  by (simp add: wfr_storage_load_def read_creds_def run_bind demo_storage_def demo_creds_def zero_creds_def
      WFR_FILE_TYPE_def WFR_FILE_VERSION_def wfr_const Let_def)

lemma demo_list: "run_state (wfr_storage_list demo_storage WFR_SAVED_MAX) () =
    ([\<lparr>saved_ssid = ''home'', saved_file = ''h.wfir'', saved_security = 1\<rparr>], ())"
proof -
  have "run_state (dir_open demo_storage WFR_SAVE_DIR) () = (Some [(False, ''h.wfir'')], ())"
    "run_state (dir_close demo_storage) () = ((), ())"
    by (simp_all add: demo_storage_def)
  then show ?thesis
    by (simp add: wfr_storage_list_def run_bind demo_load has_save_ext_def WFR_SAVE_EXT_def WFR_SAVED_MAX_def
        demo_creds_def wfr_const WFR_FILENAME_MAX_def)
qed

lemma demo_settings: "run_state (wfr_storage_load_settings demo_storage a p) () = ((False, a, p), ())"
  by (simp add: wfr_storage_load_settings_def read_settings_def run_bind demo_storage_def
      WFR_FILE_TYPE_def WFR_SETTINGS_TYPE_def)

text \<open>The main menu; two steps down; the list of saved networks; its only network; the confirmation.\<close>

lemma posted_same: "posted a = q \<Longrightarrow> a\<lparr>posted := q\<rparr> = a" for a :: "'w WiFirApp"
  by (cases a) simp

definition demo_at_menu :: "unit WiFirApp" where
  "demo_at_menu = wi_fir_scene_main_menu_on_enter (wi_fir_alloc demo_storage ())"

definition demo_at_saved :: "unit WiFirApp" where
  "demo_at_saved = wi_fir_scene_saved_on_enter demo_storage (ask (NextScene WiFirSceneSaved)
     (set_scene_state WiFirSceneMainMenu 2 (demo_at_menu\<lparr>menu := (menu demo_at_menu)\<lparr>menu_selected := 2\<rparr>, posted := []\<rparr>)))"

definition demo_at_confirm :: "unit WiFirApp" where
  "demo_at_confirm = wi_fir_scene_confirm_on_enter (ask (NextScene WiFirSceneConfirm)
     ((take_creds demo_creds (set_scene_state WiFirSceneSaved 0 demo_at_saved))\<lparr>selected_saved_file := ''h.wfir''\<rparr>))"

lemma demo_alloc_fields:
  "posted (wi_fir_alloc demo_storage ()) = []" "scene_state (wi_fir_alloc demo_storage ()) s = 0"
  by (simp_all add: wi_fir_alloc_def zero_app_def Let_def split: prod.splits)

lemma menu_on_enter_items:
  assumes "scene_state app WiFirSceneMainMenu = 0"
  shows "length (menu_items (menu (wi_fir_scene_main_menu_on_enter app))) = 5"
    "menu_selected (menu (wi_fir_scene_main_menu_on_enter app)) = 0"
  using assms
  by (simp_all add: wi_fir_scene_main_menu_on_enter_def wfr_menu_view_reset_def wfr_menu_view_add_item_def
      wfr_menu_view_set_selected_def WFR_MENU_VIEW_MAX_ITEMS_def ask_def Let_def)

lemma demo_menu_fields:
  "posted demo_at_menu = []" "shown_view (requests demo_at_menu) = Some WiFirViewMenu"
  "length (menu_items (menu demo_at_menu)) = 5" "menu_selected (menu demo_at_menu) = 0" "sd demo_at_menu = ()"
  using menu_on_enter_items [OF demo_alloc_fields(2)]
  by (simp_all add: demo_at_menu_def demo_alloc_fields wi_fir_scene_main_menu_on_enter_def Let_def)

lemma demo_saved_fields:
  "posted demo_at_saved = []" "shown_view (requests demo_at_saved) = Some WiFirViewList" "sd demo_at_saved = ()"
  "saved demo_at_saved = [\<lparr>saved_ssid = ''home'', saved_file = ''h.wfir'', saved_security = 1\<rparr>]"
  "list_count (list_view demo_at_saved) = 1" "list_selected (list_view demo_at_saved) = 0"
  by (simp_all add: demo_at_saved_def wi_fir_scene_saved_on_enter_def demo_menu_fields demo_list set_scene_state_def
      wfr_list_view_reset_def wfr_list_view_add_item_def wfr_list_view_set_selected_def WFR_LIST_VIEW_MAX_ITEMS_def
      ROWS_VISIBLE_def app_ops)

lemma demo_confirm_fields:
  "posted demo_at_confirm = []" "shown_view (requests demo_at_confirm) = Some WiFirViewConfirm"
  "selected_saved_file demo_at_confirm = ''h.wfir''" "app_ssid demo_at_confirm = ''home''"
  "confirm demo_at_confirm = \<lparr>conf_ssid = ''home'', conf_security = 1, conf_has_password = True, conf_hidden = True,
     conf_show_delete = True\<rparr>"
  by (simp_all add: demo_at_confirm_def wi_fir_scene_confirm_on_enter_def take_creds_def demo_creds_def
      demo_saved_fields set_scene_state_def wfr_confirm_view_set_data_def wfr_const ask_def)

lemma demo_reach_menu: "app_reach stack_manager demo_storage v ms (Running [WiFirSceneMainMenu] demo_at_menu)"
proof -
  have "wi_fir_app_start stack_manager demo_storage v True [] () = Running [WiFirSceneMainMenu] demo_at_menu"
    by (simp add: wi_fir_app_start_def perform_def resume_def scene_tables demo_at_menu_def)
  then show ?thesis
    using app_reach.start [of stack_manager "[]" demo_storage v ms True "()"] by simp
qed

lemma demo_reach_saved: "app_reach stack_manager demo_storage v ms (Running [WiFirSceneSaved, WiFirSceneMainMenu] demo_at_saved)"
proof -
  let ?R = "\<lambda>a. app_reach stack_manager demo_storage v ms (Running [WiFirSceneMainMenu] a)"
  let ?sel = "\<lambda>n. demo_at_menu\<lparr>menu := (menu demo_at_menu)\<lparr>menu_selected := n\<rparr>\<rparr>"
  have down: "?R (?sel (n + 1))" if "?R (?sel n)" "n < 2" for n
  proof -
    have "wfr_menu_view_input \<lparr>input_key = InputKeyDown, input_type = InputTypeShort\<rparr> (menu (?sel n))
        = (True, None, (menu demo_at_menu)\<lparr>menu_selected := n + 1\<rparr>)"
      using that(2) by (cases n) (auto simp: wfr_menu_view_input_def menu_move_def cycle_def demo_menu_fields u8_def)
    from app_reach.menu_key [OF that(1) _ this] show ?thesis
      by (simp add: menu_pressed_def demo_menu_fields)
  qed
  have "(menu demo_at_menu)\<lparr>menu_selected := 0\<rparr> = menu demo_at_menu"
    using demo_menu_fields(4) by (cases "menu demo_at_menu") simp
  then have "?sel 0 = demo_at_menu"
    by (cases demo_at_menu) simp
  then have "?R (?sel 0)"
    using demo_reach_menu [of v ms] by simp
  then have two: "?R (?sel 2)"
    using down [of 0] down [of 1] by (simp add: numeral_2_eq_2)
  have "wfr_menu_view_input \<lparr>input_key = InputKeyOk, input_type = InputTypeShort\<rparr> (menu (?sel 2))
      = (True, Some 2, menu (?sel 2))"
    by (simp add: wfr_menu_view_input_def)
  from app_reach.menu_key [OF two _ this]
  have "?R (post WiFirCustomEventMainMenuSaved (?sel 2))"
    by (simp add: menu_pressed_def demo_menu_fields wi_fir_scene_main_menu_callback_def main_menu_events_def)
  from app_reach.custom [OF this, of WiFirCustomEventMainMenuSaved "[]" True] show ?thesis
    by (simp add: demo_menu_fields wi_fir_custom_event_callback_def handle_event_def
        scene_tables wi_fir_scene_main_menu_on_event_def go_from_menu_def set_scene_state_def
        perform_def resume_def demo_at_saved_def app_ops)
qed

definition demo_selected :: "unit WiFirApp" where
  "demo_selected = set_scene_state WiFirSceneSaved 0 demo_at_saved"

lemma demo_opening:
  "app_reach stack_manager demo_storage v ms (Running [WiFirSceneSaved, WiFirSceneMainMenu]
     (post WiFirCustomEventSavedSelected demo_selected))"
  "wi_fir_custom_event_callback stack_manager demo_storage v True WiFirCustomEventSavedSelected
     [WiFirSceneSaved, WiFirSceneMainMenu] ((post WiFirCustomEventSavedSelected demo_selected)\<lparr>posted := []\<rparr>)
     = (True, Running [WiFirSceneConfirm, WiFirSceneSaved, WiFirSceneMainMenu] demo_at_confirm)"
  "posted demo_selected = []"
proof -
  let ?a = "set_scene_state WiFirSceneSaved 0 demo_at_saved"
  have fields: "posted ?a = []" "sd ?a = ()" "scene_state ?a WiFirSceneSaved = 0"
    "saved ?a = [\<lparr>saved_ssid = ''home'', saved_file = ''h.wfir'', saved_security = 1\<rparr>]"
    by (simp_all add: set_scene_state_def demo_saved_fields)
  have "wfr_list_view_input \<lparr>input_key = InputKeyOk, input_type = InputTypeShort\<rparr> (list_view demo_at_saved)
      = (True, Some 0, list_view demo_at_saved)"
    by (simp add: wfr_list_view_input_def demo_saved_fields)
  from app_reach.list_key [OF demo_reach_saved demo_saved_fields(2) this]
  show "app_reach stack_manager demo_storage v ms (Running [WiFirSceneSaved, WiFirSceneMainMenu]
      (post WiFirCustomEventSavedSelected demo_selected))"
    by (cases demo_at_saved) (simp add: list_pressed_def wi_fir_scene_saved_callback_def set_scene_state_def demo_selected_def)
  have "scene_on_event demo_storage True WiFirSceneSaved (SceneManagerEventTypeCustom WiFirCustomEventSavedSelected) ?a
      = (True, ask (NextScene WiFirSceneConfirm) ((take_creds demo_creds ?a)\<lparr>selected_saved_file := ''h.wfir''\<rparr>))"
    using saved_selected [of ?a demo_storage demo_creds "()"] fields demo_load
    by (cases ?a) (simp add: scene_tables WFR_FILENAME_MAX_def)
  then have "wi_fir_custom_event_callback stack_manager demo_storage v True
      WiFirCustomEventSavedSelected [WiFirSceneSaved, WiFirSceneMainMenu] ?a
      = (True, Running [WiFirSceneConfirm, WiFirSceneSaved, WiFirSceneMainMenu] demo_at_confirm)"
    using handled_change [OF stack_manager_laws, of "[WiFirSceneSaved, WiFirSceneMainMenu]" WiFirSceneSaved "[WiFirSceneMainMenu]"
        demo_storage True "SceneManagerEventTypeCustom WiFirCustomEventSavedSelected" ?a True _ _ "[]" v]
    by (simp add: wi_fir_custom_event_callback_def perform_def resume_def demo_at_confirm_def scene_tables take_creds_def)
  then show "wi_fir_custom_event_callback stack_manager demo_storage v True WiFirCustomEventSavedSelected
     [WiFirSceneSaved, WiFirSceneMainMenu] ((post WiFirCustomEventSavedSelected demo_selected)\<lparr>posted := []\<rparr>)
     = (True, Running [WiFirSceneConfirm, WiFirSceneSaved, WiFirSceneMainMenu] demo_at_confirm)"
    using posted_same [OF fields(1)] by (simp add: post_def demo_selected_def)
  show "posted demo_selected = []"
    using fields(1) by (simp add: demo_selected_def)
qed

lemma demo_reach_confirm:
  "app_reach stack_manager demo_storage v ms (Running [WiFirSceneConfirm, WiFirSceneSaved, WiFirSceneMainMenu] demo_at_confirm)"
  using app_reach.custom [OF demo_opening(1), of WiFirCustomEventSavedSelected "[]" v ms True]
  by (simp add: demo_opening(2,3))

lemma demo_key:
  assumes "wfr_confirm_view_input \<lparr>input_key = k, input_type = InputTypeShort\<rparr> (confirm demo_at_confirm) = (True, Some answer)"
  shows "app_reach stack_manager demo_storage v ms (Running [WiFirSceneConfirm, WiFirSceneSaved, WiFirSceneMainMenu]
    (wi_fir_scene_confirm_callback answer demo_at_confirm))"
  by (rule app_reach.confirm_key [OF demo_reach_confirm demo_confirm_fields(2) assms])

lemma demo_reach_send:
  "app_reach stack_manager demo_storage v ms (Running [WiFirSceneConfirm, WiFirSceneSaved, WiFirSceneMainMenu]
     (post WiFirCustomEventConfirmSend demo_at_confirm))"
  using demo_key [of InputKeyRight WfrConfirmResultSend]
  by (simp add: wfr_confirm_view_input_def wi_fir_scene_confirm_callback_def)

definition demo_at_dialog :: "unit WiFirApp" where
  "demo_at_dialog = wi_fir_scene_confirm_show_delete_dialog demo_at_confirm"

lemma demo_reach_delete:
  "app_reach stack_manager demo_storage v ms (Running [WiFirSceneConfirm, WiFirSceneSaved, WiFirSceneMainMenu]
     (post WiFirCustomEventDeleteConfirmed demo_at_dialog))"
proof -
  let ?st = "[WiFirSceneConfirm, WiFirSceneSaved, WiFirSceneMainMenu]"
  have "app_reach stack_manager demo_storage v ms (Running ?st (post WiFirCustomEventConfirmDelete demo_at_confirm))"
    using demo_key [of InputKeyOk WfrConfirmResultDelete]
    by (simp add: wfr_confirm_view_input_def wi_fir_scene_confirm_callback_def demo_confirm_fields)
  from app_reach.custom [OF this, of WiFirCustomEventConfirmDelete "[]" True]
  have r: "app_reach stack_manager demo_storage v ms (snd (wi_fir_custom_event_callback stack_manager demo_storage v True
      WiFirCustomEventConfirmDelete ?st demo_at_confirm))"
    by (simp add: post_def posted_same demo_confirm_fields)
  have e: "scene_on_event demo_storage True WiFirSceneConfirm (SceneManagerEventTypeCustom WiFirCustomEventConfirmDelete) demo_at_confirm
      = (True, demo_at_dialog)"
    by (simp add: confirm_events demo_confirm_fields demo_at_dialog_def)
  have rq: "requests demo_at_dialog = requests demo_at_confirm @ [ResetModule WiFirViewDialogEx, SwitchToView WiFirViewDialogEx]"
    by (simp add: demo_at_dialog_def wi_fir_scene_confirm_show_delete_dialog_def app_ops)
  have "snd (wi_fir_custom_event_callback stack_manager demo_storage v True
      WiFirCustomEventConfirmDelete ?st demo_at_confirm) = Running ?st demo_at_dialog"
    unfolding wi_fir_custom_event_callback_def
    by (subst handled_same [OF stack_manager_laws stack_manager_sel(1) e rq]) (simp_all add: changes_scene_def)
  then have "app_reach stack_manager demo_storage v ms (Running ?st demo_at_dialog)"
    using r by simp
  from app_reach.dialog_key [OF this, of True] show ?thesis
    by (simp add: wi_fir_scene_confirm_delete_callback_def rq)
qed

section \<open>The properties\<close>

text \<open>
  C10: nothing the application starts outlives its scene. In every state the running application can
  reach, with keys, ticks, threads and firmware callbacks in any order: the scenes entered are one of the
  fourteen paths from the main menu; the transmit thread, the infrared worker and the timer exist only on
  the transmit scene, whose state is then one that \<open>transmit_reach\<close> describes; NFC is polled only on the
  NFC scene; a dismissal is pending only on those two. When the application has left its last scene
  and frees its memory, no thread, worker, timer or poller that uses it is left.
\<close>

theorem nothing_outlives_its_scene:
  assumes "scene_manager_laws sm" and "app_reach sm env version ms r"
  shows "case r of
      Running m app \<Rightarrow>
        sm_stack sm m \<in> nav_stacks
        \<and> (tx_thread app \<noteq> None \<or> ir_worker app \<or> ack_timer app \<noteq> None \<longrightarrow> hd (sm_stack sm m) = WiFirSceneTransmit)
        \<and> (hd (sm_stack sm m) = WiFirSceneTransmit \<longrightarrow> transmit_reach env ms (InScene app))
        \<and> (nfc_polling app \<longrightarrow> hd (sm_stack sm m) = WiFirSceneScanNfc)
        \<and> (dismiss_ticks app > 0 \<longrightarrow> hd (sm_stack sm m) \<in> {WiFirSceneTransmit, WiFirSceneScanNfc})
    | Finished app \<Rightarrow> tx_thread app = None \<and> \<not> ir_worker app \<and> ack_timer app = None \<and> \<not> nfc_polling app
    | _ \<Rightarrow> True"
  using reach_inv [OF assms]
  by (cases r) (auto simp: app_inv_def scene_cond_def quiet_def idle_def split: if_splits)

theorem nothing_outlives_its_scene_witness:
  "case Running [WiFirSceneConfirm, WiFirSceneSaved, WiFirSceneMainMenu] demo_at_confirm of
      Running m app \<Rightarrow>
        sm_stack stack_manager m \<in> nav_stacks
        \<and> (tx_thread app \<noteq> None \<or> ir_worker app \<or> ack_timer app \<noteq> None \<longrightarrow> hd (sm_stack stack_manager m) = WiFirSceneTransmit)
        \<and> (hd (sm_stack stack_manager m) = WiFirSceneTransmit \<longrightarrow> transmit_reach demo_storage of_nat (InScene app))
        \<and> (nfc_polling app \<longrightarrow> hd (sm_stack stack_manager m) = WiFirSceneScanNfc)
        \<and> (dismiss_ticks app > 0 \<longrightarrow> hd (sm_stack stack_manager m) \<in> {WiFirSceneTransmit, WiFirSceneScanNfc})
    | Finished app \<Rightarrow> tx_thread app = None \<and> \<not> ir_worker app \<and> ack_timer app = None \<and> \<not> nfc_polling app
    | _ \<Rightarrow> True"
  by (rule nothing_outlives_its_scene [OF stack_manager_laws demo_reach_confirm [of "''1''"]])

text \<open>
  C13: Back leads out. From every reachable state with no key event pending, pressing Back at most six
  times ends the application, with nothing it started left alive, and without a read outside an array.
\<close>

theorem back_leads_out:
  assumes "scene_manager_laws sm" and "app_reach sm env version ms (Running m app)"
    and "list_all from_thread (posted app)"
  shows "\<exists>app'. press_back sm env version ok 6 (Running m app) = Finished app'
    \<and> tx_thread app' = None \<and> \<not> ir_worker app' \<and> ack_timer app' = None \<and> \<not> nfc_polling app'"
proof -
  have inv: "app_inv env ms (sm_stack sm m) app"
    using reach_inv [OF assms(1,2)] by simp
  then have "length (sm_stack sm m) \<le> 6"
    by (intro stack_depth) (simp add: app_inv_def)
  then show ?thesis
    using back_finishes [OF assms(1) inv assms(3), of 6 version ok] by (auto simp: quiet_def idle_def)
qed

theorem back_leads_out_witness:
  "\<exists>app'. press_back stack_manager demo_storage ''1'' True 6
       (Running [WiFirSceneConfirm, WiFirSceneSaved, WiFirSceneMainMenu] demo_at_confirm) = Finished app'
    \<and> tx_thread app' = None \<and> \<not> ir_worker app' \<and> ack_timer app' = None \<and> \<not> nfc_polling app'"
  by (rule back_leads_out [OF stack_manager_laws demo_reach_confirm [of _ of_nat]]) (simp add: demo_confirm_fields)

lemma confirm_reached:
  assumes "scene_manager_laws sm" "app_reach sm env version ms (Running m app)" "sm_stack sm m = WiFirSceneConfirm # st"
  shows "confirm_inv env app" "basics env app" "WiFirSceneConfirm # st \<in> nav_stacks" "can_leave WiFirSceneConfirm app"
    "queue_inv WiFirSceneConfirm (dismiss_ticks app) (posted app)"
  using reach_inv [OF assms(1,2)] assms(3) app_invD [of env ms WiFirSceneConfirm st app]
  by (simp_all add: scene_cond_def)

text \<open>
  C11: only the network that was asked about is deleted. In every reachable state on the confirmation
  scene whose next event is the confirmed deletion, a saved file is selected, the dialog has asked about
  the SSID on the screen, that SSID with its password, security type and hidden flag was loaded from the
  selected file, and handling the event removes exactly that file and forgets the selection; no deletion
  left over from another network's dialog can arrive here.
\<close>

theorem deletes_what_was_asked:
  assumes "scene_manager_laws sm" and "app_reach sm env version ms (Running m app)"
    and "sm_stack sm m = WiFirSceneConfirm # st" and "posted app = WiFirCustomEventDeleteConfirmed # rest"
  shows "selected_saved_file app \<noteq> []
    \<and> confirm_text app = delete_question (conf_ssid (confirm app)) \<and> conf_ssid (confirm app) = app_ssid app
    \<and> (\<exists>w w' c. run_state (wfr_storage_load env (Some (saved_file_path (selected_saved_file app))) zero_creds) w = ((True, c), w')
         \<and> app_ssid app = str_trunc WFR_SSID_MAX_LEN (ssid c) \<and> app_password app = str_trunc WFR_PASS_MAX_LEN (password c)
         \<and> security_type app = security c \<and> app_hidden app = hidden c)
    \<and> (\<exists>left. scene_on_event env ok WiFirSceneConfirm (SceneManagerEventTypeCustom WiFirCustomEventDeleteConfirmed) app = (True, left)
         \<and> sd left = snd (run_state (simply_remove env (saved_file_path (selected_saved_file app))) (sd app))
         \<and> selected_saved_file left = [])"
proof -
  have "confirm_inv env app" "basics env app"
    using confirm_reached [OF assms(1-3)] by simp_all
  then show ?thesis
    using assms(4)
    by (auto simp: confirm_inv_def basics_def loaded_from_selected_def wfr_confirm_view_set_data_def confirm_events
        wfr_storage_delete_def)
qed

theorem deletes_what_was_asked_witness:
  "let app = post WiFirCustomEventDeleteConfirmed demo_at_dialog; env = demo_storage in
     selected_saved_file app \<noteq> []
    \<and> confirm_text app = delete_question (conf_ssid (confirm app)) \<and> conf_ssid (confirm app) = app_ssid app
    \<and> (\<exists>w w' c. run_state (wfr_storage_load env (Some (saved_file_path (selected_saved_file app))) zero_creds) w = ((True, c), w')
         \<and> app_ssid app = str_trunc WFR_SSID_MAX_LEN (ssid c) \<and> app_password app = str_trunc WFR_PASS_MAX_LEN (password c)
         \<and> security_type app = security c \<and> app_hidden app = hidden c)
    \<and> (\<exists>left. scene_on_event env True WiFirSceneConfirm (SceneManagerEventTypeCustom WiFirCustomEventDeleteConfirmed) app = (True, left)
         \<and> sd left = snd (run_state (simply_remove env (saved_file_path (selected_saved_file app))) (sd app))
         \<and> selected_saved_file left = [])"
  unfolding Let_def
  by (rule deletes_what_was_asked [OF stack_manager_laws demo_reach_delete [of "''1''" of_nat]])
    (simp_all add: demo_at_dialog_def wi_fir_scene_confirm_show_delete_dialog_def demo_confirm_fields app_ops)

lemma confirmed_send:
  assumes "scene_manager_laws sm" and "app_reach sm env version ms (Running m app)"
    and "sm_stack sm m = WiFirSceneConfirm # st" and "posted app = WiFirCustomEventConfirmSend # rest"
  obtains m' sending where
    "wi_fir_custom_event_callback sm env version ok WiFirCustomEventConfirmSend m (app\<lparr>posted := rest\<rparr>) = (True, Running m' sending)"
    "sm_stack sm m' = WiFirSceneTransmit # WiFirSceneConfirm # st" "tx_thread sending = Some TxSending"
    "tx_creds sending = \<lparr>ssid = conf_ssid (confirm app), password = app_password app,
       security = conf_security (confirm app), hidden = conf_hidden (confirm app)\<rparr>"
    "app_password app \<noteq> [] \<longleftrightarrow> conf_has_password (confirm app)" "conf_ssid (confirm app) = app_ssid app"
    "length (app_ssid app) \<le> WFR_SSID_MAX_LEN" "length (app_password app) \<le> WFR_PASS_MAX_LEN"
proof -
  note c = confirm_reached [OF assms(1-3)]
  let ?a = "ask (NextScene WiFirSceneTransmit) (app\<lparr>posted := rest\<rparr>)"
  let ?x = "scene_on_exit ok WiFirSceneConfirm ?a"
  obtain m' where m': "scene_manager_next_scene sm WiFirSceneTransmit m =
      (leave_current (sm_stack sm m) @ [CallEnter WiFirSceneTransmit], m')"
    "sm_stack sm m' = WiFirSceneTransmit # sm_stack sm m"
    using manager_next [OF assms(1)] .
  have "handle_event sm env version ok (SceneManagerEventTypeCustom WiFirCustomEventConfirmSend) m (app\<lparr>posted := rest\<rparr>)
      = (True, perform sm env version ok (NextScene WiFirSceneTransmit) m ?a)"
    by (rule handled_change [OF assms(1,3) confirm_events(1), where rs = "[]"]) simp_all
  then have "wi_fir_custom_event_callback sm env version ok WiFirCustomEventConfirmSend m (app\<lparr>posted := rest\<rparr>)
      = (True, Running m' (wi_fir_scene_transmit_on_enter ok ?x))"
    using m' assms(3) by (simp add: wi_fir_custom_event_callback_def perform_def resume_def scene_tables)
  moreover have "tx_thread (wi_fir_scene_transmit_on_enter ok ?x) = Some TxSending"
    by (simp add: wi_fir_scene_transmit_on_enter_def)
  ultimately show thesis
    using m' assms(3) c(1,2)
    by (intro that [of m' "wi_fir_scene_transmit_on_enter ok ?x"])
      (simp_all add: enter_tx_creds confirm_inv_def basics_def wfr_confirm_view_set_data_def scene_tables
        wi_fir_scene_confirm_on_exit_def ask_def)
qed

text \<open>
  A callback of the dispatcher, as the reachable states take it: the steps that can change the scene.
\<close>

definition dispatched ::
  "'m scene_manager \<Rightarrow> 'w flipper_storage \<Rightarrow> string \<Rightarrow> bool \<Rightarrow> 'm \<Rightarrow> 'w WiFirApp \<Rightarrow> ('m, 'w) app_run \<Rightarrow> bool" where
  "dispatched sm env version ok m app run \<longleftrightarrow>
     (\<exists>ev rest. posted app = ev # rest
        \<and> run = snd (wi_fir_custom_event_callback sm env version ok ev m (app\<lparr>posted := rest\<rparr>)))
     \<or> run = wi_fir_tick_event_callback sm env version ok m app
     \<or> list_all from_thread (posted app) \<and> run = after_back (wi_fir_back_event_callback sm env version ok m app)"

lemma back_never_confirms:
  assumes laws: "scene_manager_laws sm" and st: "sm_stack sm m = s # st" "s # st \<in> nav_stacks" "s \<noteq> WiFirSceneConfirm"
    and run: "after_back (wi_fir_back_event_callback sm env version ok m a) = Running m' b"
    and top: "sm_stack sm m' = WiFirSceneConfirm # st'"
  shows False
proof -
  let ?h = "handle_event sm env version ok SceneManagerEventTypeBack m a"
  have no: "snd ?h \<noteq> Running m' b"
    using enters_confirm [OF laws st outcome_other _ top, where event = SceneManagerEventTypeBack and version = version and b = b] by auto
  show False
  proof (cases "s \<noteq> WiFirSceneTransmit \<and> s \<noteq> WiFirSceneScanNfc")
    case True
    have "scene_on_event env ok s SceneManagerEventTypeBack a = (False, a)"
      using True by (intro quiet_events) auto
    then have h: "?h = (False, Running m a)"
      by (rule handled_same [OF laws st(1), where rs = "[]"]) simp_all
    obtain m1 where m1: "scene_manager_previous_scene sm m = (tl (sm_stack sm m) \<noteq> [],
        leave_current (sm_stack sm m) @ enter_current (tl (sm_stack sm m)), m1)" "sm_stack sm m1 = tl (sm_stack sm m)"
      using manager_previous [OF laws] .
    have "m' = m1"
      using run
      by (cases "resume m1 (run_calls env version ok (leave_current (s # st) @ enter_current st) a)")
        (auto simp: wi_fir_back_event_callback_def after_back_def h manager_back [OF laws] m1(1) st(1) resume_def
          split: option.splits if_splits bool.splits)
    then have "st = WiFirSceneConfirm # st'"
      using m1(2) st(1) top by simp
    then show False
      using previous_stack [OF st(2)] True by auto
  next
    case False
    have "fst (scene_on_event env ok s SceneManagerEventTypeBack a)"
      using False by (auto simp: transmit_events wi_fir_scene_transmit_on_event_def scene_tables wi_fir_scene_scan_nfc_on_event_def)
    then have "fst ?h"
      by (cases "scene_on_event env ok s SceneManagerEventTypeBack a") (simp add: handle_event_def manager_receiver [OF laws] st(1))
    then show False
      using no run by (cases ?h) (auto simp: wi_fir_back_event_callback_def after_back_def)
  qed
qed

lemma fresh_confirmation:
  assumes "scene_manager_laws sm" and "app_reach sm env version ms (Running m a)"
    and "hd (sm_stack sm m) \<noteq> WiFirSceneConfirm" and "dispatched sm env version ok m a (Running m' b)"
    and "sm_stack sm m' = WiFirSceneConfirm # st'"
  shows "\<forall>x \<in> set (posted b). \<not> is_confirm_event x"
proof -
  have "app_inv env ms (sm_stack sm m) a"
    using reach_inv [OF assms(1,2)] by simp
  then obtain s st where st: "sm_stack sm m = s # st" and inv: "app_inv env ms (s # st) a"
    by (rule top_scene)
  note inv' = app_invD [OF inv]
  have s: "s \<noteq> WiFirSceneConfirm" using assms(3) st by simp
  from assms(4) show ?thesis
    unfolding dispatched_def
  proof (elim disjE exE conjE)
    fix ev rest
    assume q: "posted a = ev # rest"
      and r: "Running m' b = snd (wi_fir_custom_event_callback sm env version ok ev m (a\<lparr>posted := rest\<rparr>))"
    have "posted b = rest" "is_opening ev"
      using enters_confirm [OF assms(1) st inv'(1) s outcome_custom [OF s] r [symmetric, unfolded wi_fir_custom_event_callback_def] assms(5)]
      by simp_all
    then show ?thesis
      using inv'(6) q s by (simp add: queue_inv_def)
  next
    assume "Running m' b = wi_fir_tick_event_callback sm env version ok m a"
    then have r: "snd (handle_event sm env version ok SceneManagerEventTypeTick m a) = Running m' b"
      by (simp add: wi_fir_tick_event_callback_def)
    show ?thesis
      using enters_confirm [OF assms(1) st inv'(1) s outcome_other r assms(5)] by simp
  next
    assume "Running m' b = after_back (wi_fir_back_event_callback sm env version ok m a)"
    then show ?thesis
      using back_never_confirms [OF assms(1) st inv'(1) s _ assms(5)] by metis
  qed
qed

text \<open>
  C12: what is sent is what the screen showed. In every reachable state on the confirmation scene whose
  next event is Send, handling it enters the transmit scene with the transmit thread started on exactly
  the SSID, security type and hidden flag that the confirmation shows, and a password if and only if it
  shows one. And a Send left over from another network's confirmation cannot arrive here: whenever a
  callback of the dispatcher takes the application from another scene to the confirmation, no Send is queued.
\<close>

theorem sends_what_was_confirmed:
  assumes "scene_manager_laws sm" and "app_reach sm env version ms (Running m app)"
    and "sm_stack sm m = WiFirSceneConfirm # st" and "posted app = WiFirCustomEventConfirmSend # rest"
  shows "(\<exists>m' sending. wi_fir_custom_event_callback sm env version ok WiFirCustomEventConfirmSend m (app\<lparr>posted := rest\<rparr>)
       = (True, Running m' sending)
    \<and> sm_stack sm m' = WiFirSceneTransmit # WiFirSceneConfirm # st \<and> tx_thread sending = Some TxSending
    \<and> tx_creds sending = \<lparr>ssid = conf_ssid (confirm app), password = app_password app,
         security = conf_security (confirm app), hidden = conf_hidden (confirm app)\<rparr>
    \<and> (password (tx_creds sending) \<noteq> [] \<longleftrightarrow> conf_has_password (confirm app)))
    \<and> (\<forall>ok m1 app1 m2 app2 st'. app_reach sm env version ms (Running m1 app1) \<and> hd (sm_stack sm m1) \<noteq> WiFirSceneConfirm
         \<and> dispatched sm env version ok m1 app1 (Running m2 app2) \<and> sm_stack sm m2 = WiFirSceneConfirm # st'
         \<longrightarrow> WiFirCustomEventConfirmSend \<notin> set (posted app2))"
proof -
  obtain m' sending where
    "wi_fir_custom_event_callback sm env version ok WiFirCustomEventConfirmSend m (app\<lparr>posted := rest\<rparr>) = (True, Running m' sending)"
    "sm_stack sm m' = WiFirSceneTransmit # WiFirSceneConfirm # st" "tx_thread sending = Some TxSending"
    "tx_creds sending = \<lparr>ssid = conf_ssid (confirm app), password = app_password app,
       security = conf_security (confirm app), hidden = conf_hidden (confirm app)\<rparr>"
    "app_password app \<noteq> [] \<longleftrightarrow> conf_has_password (confirm app)"
    by (rule confirmed_send [OF assms])
  moreover have "WiFirCustomEventConfirmSend \<notin> set (posted app2)"
    if "app_reach sm env version ms (Running m1 app1)" "hd (sm_stack sm m1) \<noteq> WiFirSceneConfirm"
      "dispatched sm env version ok m1 app1 (Running m2 app2)" "sm_stack sm m2 = WiFirSceneConfirm # st'"
    for ok m1 app1 m2 app2 st'
    using fresh_confirmation [OF assms(1) that] by (auto simp: is_confirm_event_def)
  ultimately show ?thesis by (intro conjI) (simp, blast)
qed

theorem sends_what_was_confirmed_witness:
  "let app = post WiFirCustomEventConfirmSend demo_at_confirm; st = [WiFirSceneSaved, WiFirSceneMainMenu] in
     (\<exists>m' sending. wi_fir_custom_event_callback stack_manager demo_storage ''1'' True WiFirCustomEventConfirmSend
         (WiFirSceneConfirm # st) (app\<lparr>posted := []\<rparr>) = (True, Running m' sending)
    \<and> sm_stack stack_manager m' = WiFirSceneTransmit # WiFirSceneConfirm # st \<and> tx_thread sending = Some TxSending
    \<and> tx_creds sending = \<lparr>ssid = conf_ssid (confirm app), password = app_password app,
         security = conf_security (confirm app), hidden = conf_hidden (confirm app)\<rparr>
    \<and> (password (tx_creds sending) \<noteq> [] \<longleftrightarrow> conf_has_password (confirm app)))
    \<and> dispatched stack_manager demo_storage ''1'' True st (post WiFirCustomEventSavedSelected demo_selected)
        (Running (WiFirSceneConfirm # st) demo_at_confirm)
    \<and> WiFirCustomEventConfirmSend \<notin> set (posted demo_at_confirm)"
proof -
  have d: "dispatched stack_manager demo_storage ''1'' True [WiFirSceneSaved, WiFirSceneMainMenu]
      (post WiFirCustomEventSavedSelected demo_selected)
      (Running [WiFirSceneConfirm, WiFirSceneSaved, WiFirSceneMainMenu] demo_at_confirm)"
    unfolding dispatched_def
    by (rule disjI1, rule exI [of _ WiFirCustomEventSavedSelected], rule exI [of _ "[]"]) (simp add: demo_opening(2,3))
  have h: "hd (sm_stack stack_manager [WiFirSceneSaved, WiFirSceneMainMenu]) \<noteq> WiFirSceneConfirm"
    "sm_stack stack_manager [WiFirSceneConfirm, WiFirSceneSaved, WiFirSceneMainMenu]
      = WiFirSceneConfirm # [WiFirSceneSaved, WiFirSceneMainMenu]"
    by simp_all
  have q: "posted (post WiFirCustomEventConfirmSend demo_at_confirm) = WiFirCustomEventConfirmSend # []"
    by (simp add: demo_confirm_fields)
  note p = sends_what_was_confirmed [OF stack_manager_laws demo_reach_send [of "''1''" of_nat] h(2) q, of True]
  show ?thesis
    unfolding Let_def
    using p [THEN conjunct1] p [THEN conjunct2, rule_format, OF conjI [OF demo_opening(1) conjI [OF h(1) conjI [OF d h(2)]]]] d
    by blast
qed

text \<open>
  C32: only two kinds of input make the application fault: a saved file with an unknown security type, and a
  malformed tag. When every file the storage loads has a security type of at most 3, no run of the
  application, with keys, ticks, tags read over NFC, threads and firmware callbacks in any order, reads
  outside one of its tables: typed credentials start from WPA, the editor sets a type of its table, and the
  NFC parser yields only the four types. And a tag, read in full, on which the parser reads outside the
  pages or never ends has two neighbouring bytes FF.
\<close>

theorem known_files_stay_inside:
  assumes "scene_manager_laws sm" and "app_reach sm env version ms r"
    and "\<forall>p w c w'. run_state (wfr_storage_load env (Some p) zero_creds) w = ((True, c), w') \<longrightarrow> unat (security c) < 4"
  shows "r \<noteq> OutOfRange
    \<and> (\<forall>page n. r = TagFault page n \<and> length page = 4 * n \<and> length page \<le> 65000 \<longrightarrow> \<not> no_ff_pair page)"
proof -
  have "loads_known env"
    using assms(3) by (simp add: loads_known_def known_security_def)
  then show ?thesis
    using reach_inv [OF assms(1,2)] by auto
qed

theorem known_files_stay_inside_witness:
  "Running [WiFirSceneConfirm, WiFirSceneSaved, WiFirSceneMainMenu] demo_at_confirm \<noteq> OutOfRange"
proof -
  have "unat (security c) < 4" if "run_state (wfr_storage_load demo_storage (Some p) zero_creds) w = ((True, c), w')"
    for p c and w w' :: unit
  proof -
    have "w = ()" by simp
    then have "c = demo_creds" using that demo_load [of p] by simp
    then show ?thesis by (simp add: demo_creds_def)
  qed
  then show ?thesis
    using known_files_stay_inside [OF stack_manager_laws demo_reach_confirm [of "''1''" of_nat]] by blast
qed

end
