(* ===== verification/Rollback.thy ===== *)
theory Rollback
  imports Network_Facts
begin

text \<open>
  A failed connection: what it leaves on the host, what the rollback to the previous network undoes, and
  how late a success can come.
\<close>

section \<open>The files the daemon writes\<close>

definition remove_confs_cmd :: string where
  "remove_confs_cmd = ''rm -f /etc/wpa_supplicant/wpa_supplicant-infrafid-*.conf 2>/dev/null''"

text \<open>A path the shell's pattern in that command matches: the star stands for chars other than a slash.\<close>

definition conf_prefix :: string where
  "conf_prefix = ''/etc/wpa_supplicant/wpa_supplicant-infrafid-''"

definition infrafid_conf :: "string \<Rightarrow> bool" where
  "infrafid_conf p \<longleftrightarrow> (\<exists>star. CHR ''/'' \<notin> set star \<and> p = conf_prefix @ star @ ''.conf'')"

text \<open>
  The files that exist because the daemon opened them for writing and nothing has removed them, by what the
  host answered: \<open>env\<close> says whether an \<^verbatim>\<open>fopen\<close> succeeded and with what status a command ended, \<open>u h p\<close> whether
  an \<^verbatim>\<open>unlink\<close> of \<open>p\<close> at the history \<open>h\<close> leaves no such file. \<^verbatim>\<open>rm -f\<close> exits with status 0 only when it has removed
  all the files it names.
\<close>

definition file_step :: "os_env \<Rightarrow> (trace \<Rightarrow> string \<Rightarrow> bool) \<Rightarrow> trace \<Rightarrow> string set \<Rightarrow> os_call \<Rightarrow> string set" where
  "file_step env u h F c = (case c of
      Fopen p \<Rightarrow> if env_fopen env h p then insert p F else F
    | Unlink p \<Rightarrow> if u h p then F - {p} else F
    | System cmd \<Rightarrow> if cmd = remove_confs_cmd \<and> exited_with_0 (env_system env h cmd)
                    then {p \<in> F. \<not> infrafid_conf p} else F
    | _ \<Rightarrow> F)"

fun files_after :: "os_env \<Rightarrow> (trace \<Rightarrow> string \<Rightarrow> bool) \<Rightarrow> trace \<Rightarrow> string set \<Rightarrow> trace \<Rightarrow> string set" where
  "files_after env u h F [] = F"
| "files_after env u h F (c # cs) = files_after env u (h @ [c]) (file_step env u h F c) cs"

definition daemon_files :: "os_env \<Rightarrow> (trace \<Rightarrow> string \<Rightarrow> bool) \<Rightarrow> trace \<Rightarrow> string set" where
  "daemon_files env u tr = files_after env u [] {} tr"

lemma daemon_files_Nil [simp]: "daemon_files env u [] = {}"
  by (simp add: daemon_files_def)

lemma files_after_append: "files_after env u h F (tr @ cs) = files_after env u (h @ tr) (files_after env u h F tr) cs"
  by (induction tr arbitrary: h F) simp_all

lemma daemon_files_append: "daemon_files env u (tr @ cs) = files_after env u tr (daemon_files env u tr) cs"
  by (simp add: daemon_files_def files_after_append)

text \<open>Every file the daemon leaves is one of its own two kinds.\<close>

definition ours :: "string \<Rightarrow> bool" where
  "ours p \<longleftrightarrow> p = ifcfg_path \<or> infrafid_conf p"

definition only_ours :: "os_env \<Rightarrow> (trace \<Rightarrow> string \<Rightarrow> bool) \<Rightarrow> trace \<Rightarrow> bool" where
  "only_ours env u tr \<longleftrightarrow> (\<forall>p\<in>daemon_files env u tr. ours p)"

lemma only_ours_Nil [simp]: "only_ours env u []"
  by (simp add: only_ours_def)

lemma only_ours_snoc [intro]:
  "only_ours env u tr \<Longrightarrow> (\<And>p. c = Fopen p \<Longrightarrow> ours p) \<Longrightarrow> only_ours env u (tr @ [c])"
  by (cases c) (auto simp: only_ours_def file_step_def daemon_files_append)

lemma only_ours_append:
  "only_ours env u tr \<Longrightarrow> (\<And>p. Fopen p \<in> set cs \<Longrightarrow> ours p) \<Longrightarrow> only_ours env u (tr @ cs)"
proof (induction cs arbitrary: tr)
  case (Cons c cs)
  have "only_ours env u ((tr @ [c]) @ cs)"
    using Cons.prems by (intro Cons.IH only_ours_snoc) auto
  then show ?case by simp
qed simp

definition tidy :: "os_env \<Rightarrow> (trace \<Rightarrow> string \<Rightarrow> bool) \<Rightarrow> 'a io \<Rightarrow> bool" where
  "tidy env u m \<longleftrightarrow> (\<forall>tr. only_ours env u tr \<longrightarrow> wp m (\<lambda>_. only_ours env u) tr)"

lemma tidyI: "(\<And>tr. only_ours env u tr \<Longrightarrow> wp m (\<lambda>_. only_ours env u) tr) \<Longrightarrow> tidy env u m"
  by (simp add: tidy_def)

lemma tidyD: "tidy env u m \<Longrightarrow> only_ours env u tr \<Longrightarrow> wp m (\<lambda>_. only_ours env u) tr"
  by (simp add: tidy_def)

lemma tidy_bind: "tidy env u m \<Longrightarrow> (\<And>x. tidy env u (f x)) \<Longrightarrow> tidy env u (State_Monad.bind m f)"
  unfolding tidy_def wp_bind by (blast intro: wp_mono)

lemma tidy_return: "tidy env u (State_Monad.return x)"
  by (simp add: tidy_def)

lemma tidy_if: "tidy env u m \<Longrightarrow> tidy env u n \<Longrightarrow> tidy env u (if b then m else n)"
  by simp

lemma tidy_option:
  "tidy env u m \<Longrightarrow> (\<And>y. tidy env u (f y)) \<Longrightarrow> tidy env u (case x of None \<Rightarrow> m | Some y \<Rightarrow> f y)"
  by (cases x) simp_all

lemma tidy_os_do: "(\<And>p. c \<noteq> Fopen p) \<Longrightarrow> tidy env u (os_do c)"
  by (auto simp: tidy_def)

lemma tidy_calls:
  "tidy env u (run_cmd env cmd)" "tidy env u (run_wpa_cmd env cmd)" "tidy env u (run_cmd_output env cmd n)" "tidy env u (verify_connectivity env)"
  "tidy env u (get_wpa_state env iface)" "tidy env u (get_wpa_ssid env iface n)" "tidy env u (detect_wifi_iface env 32)"
  "tidy env u (has_systemd_networkd env)" "tidy env u (fprintf_all path ls)"
  by (auto simp: tidy_def intro!: only_ours_append)

lemma only_ours_nm_trace: "only_ours env u tr \<Longrightarrow> only_ours env u (nm_trace env tr)"
  unfolding nm_trace_def by (rule only_ours_append) (simp_all split: if_splits)

lemma tidy_has_nm: "tidy env u (wfr_net_has_networkmanager env)"
  by (simp add: tidy_def only_ours_nm_trace)

lemmas tidy_intros = tidy_bind tidy_return tidy_if tidy_option tidy_os_do tidy_calls tidy_has_nm

lemma tidy_wait_dhcp: "tidy env u (wait_for_dhcp_from env iface w e)"
proof (induction "w - e" arbitrary: e rule: less_induct)
  case less
  have "e < w \<Longrightarrow> tidy env u (wait_for_dhcp_from env iface w (e + 2))"
    by (intro less) simp
  then show ?case
    unfolding wait_for_dhcp_from.simps [of env iface w e]
    by (cases "e < w") (simp_all add: tidy_intros del: add_2_eq_Suc')
qed

lemma tidy_wait_wpa: "tidy env u (wait_for_wpa_association_from env iface target w e)"
proof (induction "w - e" arbitrary: e rule: less_induct)
  case less
  have "e < w \<Longrightarrow> tidy env u (wait_for_wpa_association_from env iface target w (e + 2))"
    by (intro less) simp
  then show ?case
    unfolding wait_for_wpa_association_from.simps [of env iface target w e]
    by (cases "e < w") (simp_all add: tidy_intros del: add_2_eq_Suc')
qed

lemma tidy_waits: "tidy env u (wait_for_dhcp env iface w)" "tidy env u (wait_for_wpa_association env iface target w)"
  by (simp_all add: wait_for_dhcp_def wait_for_wpa_association_def tidy_wait_dhcp tidy_wait_wpa)

lemma tidy_connect_nmcli: "tidy env u (wfr_net_connect_nmcli env c)"
  unfolding wfr_net_connect_nmcli_def by (intro tidy_intros) simp_all

lemma tidy_connect_networkd: "tidy env u (wfr_net_connect_networkd env c)"
  unfolding wfr_net_connect_networkd_def networkd_set_security_def networkd_select_def networkd_finish_def
  by (intro tidy_intros tidy_waits)

lemma tidy_bring_up: "tidy env u (interfaces_bring_up env iface c)"
  unfolding interfaces_bring_up_def by (intro tidy_intros tidy_waits)

lemma wpa_conf_ours:
  assumes "length iface \<le> 31" "CHR ''/'' \<notin> set iface"
  shows "ours (wpa_conf_path iface)"
proof -
  have "wpa_conf_path iface = conf_prefix @ iface @ ''.conf''"
    using assms(1) by (simp add: wpa_conf_path_def conf_prefix_def)
  then show ?thesis
    using assms(2) by (auto simp: ours_def infrafid_conf_def)
qed

text \<open>An interface name has no slash: the command that finds it ends in \<^verbatim>\<open>basename\<close>.\<close>

definition plain_ifaces :: "os_env \<Rightarrow> bool" where
  "plain_ifaces env \<longleftrightarrow> (\<forall>tr iface. wifi_iface env tr = Some iface \<longrightarrow> CHR ''/'' \<notin> set iface)"

lemma tidy_fopen: "ours p \<Longrightarrow> tidy env u (sys_fopen env p)"
  by (auto simp: tidy_def)

lemma tidy_connect_interfaces:
  assumes "plain_ifaces env"
  shows "tidy env u (wfr_net_connect_interfaces env c)"
proof (rule tidyI)
  fix tr assume tr: "only_ours env u tr"
  let ?rest = "\<lambda>iface. do {
      wpa \<leftarrow> sys_fopen env (wpa_conf_path iface);
      (if \<not> wpa then State_Monad.return False
       else do {
         fprintf_all (wpa_conf_path iface) (wpa_conf_lines c);
         os_do (Fclose (wpa_conf_path iface));
         ifcfg \<leftarrow> sys_fopen env ifcfg_path;
         (if \<not> ifcfg then do { os_do (Unlink (wpa_conf_path iface)); State_Monad.return False }
          else do {
            fprintf_all ifcfg_path (ifcfg_lines iface);
            os_do (Fclose ifcfg_path);
            interfaces_bring_up env iface c
          })
       })
    }"
  have "tidy env u (?rest iface)" if "wifi_iface env tr = Some iface" for iface
    using that assms wifi_iface_props [OF that]
    by (intro tidy_intros tidy_fopen tidy_bring_up wpa_conf_ours) (auto simp: plain_ifaces_def ours_def)
  moreover have "only_ours env u (tr @ [Popen detect_cmd])"
    using tr by auto
  ultimately show "wp (wfr_net_connect_interfaces env c) (\<lambda>_. only_ours env u) tr"
    unfolding wfr_net_connect_interfaces_def wp_bind wp_detect
    by (auto simp del: wp_bind intro: tidyD split: option.splits)
qed

lemma tidy_connect: "plain_ifaces env \<Longrightarrow> tidy env u (wfr_net_connect env (Some c))"
  unfolding wfr_net_connect_def option.case
  by (intro tidy_intros tidy_connect_nmcli tidy_connect_networkd tidy_connect_interfaces)

section \<open>The rollback\<close>

text \<open>The host carries out the two removals of a rollback that starts at \<open>tr\<close>.\<close>

definition removals_work :: "os_env \<Rightarrow> (trace \<Rightarrow> string \<Rightarrow> bool) \<Rightarrow> trace \<Rightarrow> bool" where
  "removals_work env u tr \<longleftrightarrow> (\<forall>h. prefix tr h \<longrightarrow>
     u h ifcfg_path \<and> exited_with_0 (env_system env h remove_confs_cmd))"

lemma rollback_interfaces_files:
  assumes "only_ours env u tr" and "removals_work env u tr"
  shows "wp (rollback_interfaces env iface) (\<lambda>_ tr'. daemon_files env u tr' = {}) tr"
proof -
  have s: "file_step env u h F (System cmd) \<subseteq> F" for h F cmd
    by (auto simp: file_step_def)
  have clean: "file_step env u h5 (file_step env u (tr @ h4) (file_step env u (tr @ h3) (file_step env u h2
      (file_step env u h1 F (System a)) (System b)) (Unlink ifcfg_path)) (System remove_confs_cmd)) (System d) = {}"
    if "\<forall>p\<in>F. ours p" for F a b d h1 h2 h3 h4 h5
  proof -
    let ?F = "file_step env u h2 (file_step env u h1 F (System a)) (System b)"
    have "?F \<subseteq> F" using s by blast
    then have "file_step env u (tr @ h4) (file_step env u (tr @ h3) ?F (Unlink ifcfg_path)) (System remove_confs_cmd) = {}"
      using that assms(2) by (auto simp: file_step_def ours_def removals_work_def)
    then show ?thesis using s [of h5 "{}" d] by simp
  qed
  have "\<forall>p\<in>daemon_files env u tr. ours p"
    using assms(1) by (simp add: only_ours_def)
  then show ?thesis
    using clean [of "daemon_files env u tr"]
    by (simp add: rollback_interfaces_def daemon_files_append remove_confs_cmd_def)
qed

lemma rollback_files:
  assumes "only_ours env u tr" "removals_work env u tr"
    "\<not> nm_active env tr" "\<not> networkd_active env (nm_trace env tr @ [Popen detect_cmd])"
  shows "wp (wfr_net_rollback env prev) (\<lambda>ok tr'. ok \<longrightarrow> daemon_files env u tr' = {}) tr"
proof -
  let ?tr = "nm_trace env tr @ [Popen detect_cmd, System ''systemctl is-active --quiet systemd-networkd'']"
  have "only_ours env u ?tr"
    using only_ours_nm_trace [OF assms(1)] by (rule only_ours_append) simp
  moreover have "prefix tr ?tr"
    using prefix_nm_trace [of tr env] by (rule prefix_order.trans) simp
  then have "removals_work env u ?tr"
    using assms(2) by (auto simp: removals_work_def intro: prefix_order.trans)
  ultimately have r: "wp (rollback_interfaces env iface) (\<lambda>_ tr'. daemon_files env u tr' = {}) ?tr" for iface
    by (rule rollback_interfaces_files)
  show ?thesis
    using assms(3,4) wp_mono [OF r]
    by (simp add: wfr_net_rollback_def networkd_active_def split: option.splits)
qed

text \<open>
  C33: on a host with ifupdown the rollback leaves nothing of the failed attempt. Whatever the host
  answered to the attempt, and whatever it answers to the rollback's commands on the interface, when it
  carries out the rollback's two removals, so that \<^verbatim>\<open>rm -f\<close> exits with 0 and \<^verbatim>\<open>unlink\<close> leaves no such file, and
  the rollback reports success, no configuration file that the daemon wrote, in this attempt or in an earlier
  one, for this interface or another, is left.
\<close>

theorem rollback_removes_files:
  assumes "only_ours env u tr0" and "plain_ifaces env"
    and "run_state (wfr_net_connect env (Some c)) tr0 = (connected, tr1)"
    and "\<not> nm_active env tr1" and "\<not> networkd_active env (nm_trace env tr1 @ [Popen detect_cmd])"
    and "removals_work env u tr1"
    and "run_state (wfr_net_rollback env prev) tr1 = (True, tr2)"
  shows "daemon_files env u tr2 = {}"
proof -
  have "only_ours env u tr1"
    using wp_run [OF tidyD [OF tidy_connect [OF assms(2)] assms(1)] assms(3)] .
  from wp_run [OF rollback_files [OF this assms(6,4,5)] assms(7)] show ?thesis by simp
qed


text \<open>
  A host with ifupdown, whose wireless interface never gets an address; the removal is the only command
  that succeeds.
\<close>

definition if_host :: os_env where
  "if_host = nm_host\<lparr>env_system := \<lambda>_ cmd. if cmd = remove_confs_cmd then 0 else 256,
     env_popen := \<lambda>_ cmd. if cmd = detect_cmd then Some (''wlan0'' @ nl) else None\<rparr>"

lemma detect_first: "ip_addr_cmd iface \<noteq> detect_cmd" "wpa_state_cmd iface \<noteq> detect_cmd" "wpa_ssid_cmd iface \<noteq> detect_cmd"
proof -
  have "hd (ip_addr_cmd iface) = CHR ''i''" "hd (wpa_state_cmd iface) = CHR ''w''" "hd (wpa_ssid_cmd iface) = CHR ''w''"
    "hd detect_cmd = CHR ''f''"
    by (simp_all add: ip_addr_cmd_def wpa_state_cmd_def wpa_ssid_cmd_def detect_cmd_def str_trunc_def)
  then show "ip_addr_cmd iface \<noteq> detect_cmd" "wpa_state_cmd iface \<noteq> detect_cmd" "wpa_ssid_cmd iface \<noteq> detect_cmd"
    by auto
qed

lemma if_host_answers [simp]:
  "wifi_iface if_host tr = Some ''wlan0''" "hd cmd \<noteq> CHR ''r'' \<Longrightarrow> cmd_status if_host tr cmd = 1" "env_fopen if_host tr p"
  "cmd_line if_host tr (ip_addr_cmd iface) n = None" "cmd_line if_host tr (wpa_state_cmd iface) n = None"
proof -
  show "wifi_iface if_host tr = Some ''wlan0''"
    by (simp add: wifi_iface_def cmd_line_def if_host_def fgets_def c_str_def chomp_def)
  show "cmd_line if_host tr (ip_addr_cmd iface) n = None" "cmd_line if_host tr (wpa_state_cmd iface) n = None"
    using detect_first by (simp_all add: cmd_line_def if_host_def)
qed (auto simp: cmd_status_def if_host_def nm_host_def WEXITSTATUS_def remove_confs_cmd_def)

lemma if_host_managers: "\<not> nm_active if_host tr" "\<not> networkd_active if_host tr"
  by (simp_all add: nm_active_def networkd_active_def)

lemma if_host_plain: "plain_ifaces if_host"
  by (simp add: plain_ifaces_def)

lemma if_host_dhcp: "wp (wait_for_dhcp_from if_host iface w e) (\<lambda>ok tr'. \<not> ok \<and> daemon_files if_host u tr' = daemon_files if_host u tr) tr"
proof (induction "w - e" arbitrary: e tr rule: less_induct)
  case less
  let ?tr = "tr @ [Sleep 2, Popen (ip_addr_cmd iface)]"
  have "e < w \<Longrightarrow> wp (wait_for_dhcp_from if_host iface w (e + 2)) (\<lambda>ok tr'. \<not> ok \<and> daemon_files if_host u tr' = daemon_files if_host u ?tr) ?tr"
    by (intro less) simp
  moreover have "daemon_files if_host u ?tr = daemon_files if_host u tr"
    by (simp add: daemon_files_append file_step_def)
  ultimately show ?case
    unfolding wait_for_dhcp_from.simps [of if_host iface w e] by simp
qed

lemma other_commands: "hd cmd \<noteq> CHR ''r'' \<Longrightarrow> file_step env u h F (System cmd) = F"
  by (auto simp: file_step_def remove_confs_cmd_def)

lemma if_host_leaves:
  "wp (wfr_net_connect if_host (Some quote_creds))
     (\<lambda>ok tr'. \<not> ok \<and> daemon_files if_host u tr' = {ifcfg_path, wpa_conf_path ''wlan0''}) []"
proof -
  have p: "files_after env u h F (map (Fprintf path) ls @ cs) = files_after env u (h @ map (Fprintf path) ls) F cs"
    for env h F path ls cs
    by (induction ls arbitrary: h) (simp_all add: file_step_def)
  have w: "wp (wait_for_dhcp if_host iface 15) (\<lambda>ok tr'. \<not> ok \<and> daemon_files if_host u tr' = daemon_files if_host u tr) tr" for iface tr
    by (simp add: wait_for_dhcp_def if_host_dhcp)
  have s: "nm_trace if_host [] = [System ''which nmcli >/dev/null 2>&1'']"
    by (simp add: nm_trace_def)
  show ?thesis
    unfolding wfr_net_connect_def option.case wfr_net_connect_interfaces_def interfaces_bring_up_def
      wait_for_wpa_association_def
    apply (simp add: if_host_managers wait_for_wpa_association_from.simps [of if_host "''wlan0''" _ 20 0] s nonempty_def)
    apply (rule wp_mono [OF w])
    apply (simp add: daemon_files_def p other_commands)
    apply (auto simp: file_step_def)
    done
qed

lemma if_host_removes: "removals_work if_host (\<lambda>_ _. True) tr"
  by (simp add: removals_work_def if_host_def exited_with_0_def)

theorem rollback_removes_files_witness:
  "\<exists>tr1 tr2. run_state (wfr_net_connect if_host (Some quote_creds)) [] = (False, tr1)
     \<and> daemon_files if_host (\<lambda>_ _. True) tr1 = {ifcfg_path, wpa_conf_path ''wlan0''}
     \<and> run_state (wfr_net_rollback if_host (Some ''home'')) tr1 = (True, tr2)
     \<and> daemon_files if_host (\<lambda>_ _. True) tr2 = {}"
proof -
  obtain ok tr1 where c: "run_state (wfr_net_connect if_host (Some quote_creds)) [] = (ok, tr1)"
    by fastforce
  obtain rolled tr2 where r: "run_state (wfr_net_rollback if_host (Some ''home'')) tr1 = (rolled, tr2)"
    by fastforce
  have "wp (wfr_net_rollback if_host (Some ''home'')) (\<lambda>ok _. ok) tr1"
    by (simp add: wfr_net_rollback_def rollback_interfaces_def if_host_managers)
  then have t: "rolled" using r by (rule wp_run)
  have "daemon_files if_host (\<lambda>_ _. True) tr2 = {}"
    using rollback_removes_files [OF only_ours_Nil if_host_plain c if_host_managers if_host_removes r [unfolded eqTrueI [OF t]]] .
  then show ?thesis
    using wp_run [OF if_host_leaves c] c r t by auto
qed


text \<open>
  With NetworkManager the rollback brings up exactly the network that was connected before. For
  every SSID that fits, whatever characters it holds, one command is run, which the shell reads as nmcli
  with that SSID as one argument, and the rollback succeeds if and only if that command does.
\<close>

theorem rollback_words:
  assumes "s \<noteq> []" and "length s \<le> WFR_SSID_MAX_LEN" and "nm_active env tr"
  shows "\<exists>cmd. run_state (wfr_net_rollback env (Some s)) tr
      = (cmd_status env (nm_trace env tr) cmd = 0, nm_trace env tr @ [System cmd])
    \<and> sh_tokens cmd = Some (map Word [''nmcli'', ''con'', ''up'', s] @ [Word ''2'', Op CHR ''>'', Op CHR ''&'', Word ''1''])"
proof -
  let ?cmd = "''nmcli'' @ '' '' @ ''con'' @ '' '' @ ''up'' @ '' '' @ sh_quote s @ '' '' @ ''2>&1''"
  have q: "shell_escape s 256 = Some (sh_quote s)" "length (sh_quote s) \<le> 130"
    using assms(2) length_sh_quote [of s] by (auto simp: wfr_const intro!: shell_escape_fits)
  then have c: "rollback_nmcli_cmd (sh_quote s) = ?cmd"
    by (simp add: rollback_nmcli_cmd_def)
  have "wp (wfr_net_rollback env (Some s)) (\<lambda>ok tr'. ok = (cmd_status env (nm_trace env tr) ?cmd = 0)
      \<and> tr' = nm_trace env tr @ [System ?cmd]) tr"
    using assms(1,3) q(1) c by (simp add: wfr_net_rollback_def)
  then have "run_state (wfr_net_rollback env (Some s)) tr
      = (cmd_status env (nm_trace env tr) ?cmd = 0, nm_trace env tr @ [System ?cmd])"
    by (simp add: wp_def split: prod.splits)
  moreover have "\<forall>c\<in>set w. sh_plain c" if "w \<in> {''nmcli'', ''con'', ''up''}" for w
    using that by (auto simp: sh_plain_def sh_special_def sh_operator_def)
  then have w: "sh_lex Blank (w @ '' '' @ rest) = map_option ((@) [Word w]) (sh_lex Blank rest)"
    if "w \<in> {''nmcli'', ''con'', ''up''}" for w rest
    using that by (intro sh_lex_word_space) auto
  have e: "sh_lex Blank (sh_quote s @ '' '' @ rest) = map_option ((@) [Word s]) (sh_lex Blank rest)" for rest
    by (simp add: sh_lex_escaped sh_lex_space)
  have "sh_tokens ?cmd = Some (map Word [''nmcli'', ''con'', ''up'', s] @ [Word ''2'', Op CHR ''>'', Op CHR ''&'', Word ''1''])"
    unfolding sh_tokens_def by (simp only: w e insert_iff simp_thms sh_lex_redirect option.map) simp
  ultimately show ?thesis by blast
qed

theorem rollback_words_witness:
  "\<exists>cmd. run_state (wfr_net_rollback nm_host (Some (''it'' @ sq @ ''s;''))) []
      = (cmd_status nm_host (nm_trace nm_host []) cmd = 0, nm_trace nm_host [] @ [System cmd])
    \<and> sh_tokens cmd = Some (map Word [''nmcli'', ''con'', ''up'', ''it'' @ sq @ ''s;'']
        @ [Word ''2'', Op CHR ''>'', Op CHR ''&'', Word ''1''])"
  by (rule rollback_words) (simp_all add: wfr_const)

section \<open>A late success\<close>

text \<open>
  A host with systemd-networkd on which wpa_supplicant associates after twenty seconds and the address
  comes sixteen seconds later: as late as the two loops wait.
\<close>

definition slow_host :: os_env where
  "slow_host = nd_host\<lparr>env_popen := \<lambda>tr cmd.
     if cmd = detect_cmd then Some (''wlan0'' @ nl)
     else if cmd = wpa_state_cmd ''wlan0'' then Some ((if slept tr < 20 then ''SCANNING'' else ''COMPLETED'') @ nl)
     else if cmd = wpa_ssid_cmd ''wlan0'' then Some (ssid plain_creds @ nl)
     else if cmd = ip_addr_cmd ''wlan0'' then (if slept tr < 36 then None else Some (''192.168.1.5'' @ nl))
     else if cmd = wpa_cmd ''wlan0'' '' add_network'' then Some (''0'' @ nl)
     else Some (''OK'' @ nl)\<rparr>"

lemma cmds_differ:
  "wpa_state_cmd ''wlan0'' \<noteq> wpa_ssid_cmd ''wlan0''" "ip_addr_cmd ''wlan0'' \<noteq> wpa_state_cmd ''wlan0''"
  "ip_addr_cmd ''wlan0'' \<noteq> wpa_ssid_cmd ''wlan0''"
  by (simp_all add: wpa_state_cmd_def wpa_ssid_cmd_def ip_addr_cmd_def)

lemma slow_host_answers [simp]:
  "wifi_iface slow_host tr = Some ''wlan0''"
  "cmd_line slow_host tr (wpa_state_cmd ''wlan0'') 64 = Some (if slept tr < 20 then ''SCANNING'' else ''COMPLETED'')"
  "cmd_line slow_host tr (wpa_ssid_cmd ''wlan0'') 33 = Some (ssid plain_creds)"
  "cmd_line slow_host tr (ip_addr_cmd ''wlan0'') 64 = (if slept tr < 36 then None else Some ''192.168.1.5'')"
  "cmd_line slow_host tr (wpa_cmd ''wlan0'' '' add_network'') 8 = Some ''0''"
  using detect_first cmds_differ
  by (simp_all add: wifi_iface_def cmd_line_def slow_host_def fgets_def c_str_def chomp_def plain_creds_def
      wpa_cmd_def detect_cmd_def wpa_state_cmd_def wpa_ssid_cmd_def ip_addr_cmd_def)

lemma slow_host_system [simp]:
  "wpa_ok slow_host tr (set_network_cmd ''wlan0'' ''0'' (quoted_setting '' ssid '' (ssid plain_creds)))"
  "wpa_ok slow_host tr (set_network_cmd ''wlan0'' ''0'' (quoted_setting '' psk '' (password plain_creds)))"
  "wpa_ok slow_host tr (wpa_cmd ''wlan0'' '' select_network 0'')"
  by (simp_all add: wpa_ok_def slow_host_def set_network_cmd_def quoted_setting_def wpa_cmd_def plain_creds_def strncmp_eq_def
      detect_cmd_def wpa_state_cmd_def wpa_ssid_cmd_def ip_addr_cmd_def fgets_def c_str_def chomp_def)

lemma slow_host_managers: "\<not> nm_active slow_host tr" "networkd_active slow_host tr"
  by (simp_all add: nm_active_def networkd_active_def cmd_status_def slow_host_def nd_host_def WEXITSTATUS_def)

lemma slow_wpa:
  "slept tr = e \<Longrightarrow> e < 20 \<Longrightarrow> even e \<Longrightarrow>
     wp (wait_for_wpa_association_from slow_host ''wlan0'' (ssid plain_creds) 20 e) (\<lambda>r tr'. r = 1 \<and> slept tr' = 20) tr"
proof (induction "20 - e" arbitrary: e tr rule: less_induct)
  case less
  let ?tr = "tr @ [Sleep 2, Popen (wpa_state_cmd ''wlan0'')]"
  show ?case
  proof (cases "e = 18")
    case True
    then show ?thesis
      using less.prems by (subst wait_for_wpa_association_from.simps) (simp add: nonempty_def WFR_SSID_MAX_LEN_def plain_creds_def)
  next
    case False
    then have "e + 2 < 20" using less.prems by presburger
    then have "wp (wait_for_wpa_association_from slow_host ''wlan0'' (ssid plain_creds) 20 (e + 2)) (\<lambda>r tr'. r = 1 \<and> slept tr' = 20) ?tr"
      using less.prems by (intro less.hyps) simp_all
    then show ?thesis
      using less.prems \<open>e + 2 < 20\<close> by (subst wait_for_wpa_association_from.simps) (simp add: nonempty_def)
  qed
qed

lemma slow_dhcp:
  "slept tr = 20 + e \<Longrightarrow> e < 16 \<Longrightarrow> even e \<Longrightarrow>
     wp (wait_for_dhcp_from slow_host ''wlan0'' 15 e) (\<lambda>ok tr'. ok \<and> slept tr' = 36) tr"
proof (induction "16 - e" arbitrary: e tr rule: less_induct)
  case less
  let ?tr = "tr @ [Sleep 2, Popen (ip_addr_cmd ''wlan0'')]"
  show ?case
  proof (cases "e = 14")
    case True
    then show ?thesis
      using less.prems by (subst wait_for_dhcp_from.simps) (simp add: link_local_def strncmp_eq_def)
  next
    case False
    then have "e + 2 < 16" using less.prems by presburger
    then have "wp (wait_for_dhcp_from slow_host ''wlan0'' 15 (e + 2)) (\<lambda>ok tr'. ok \<and> slept tr' = 36) ?tr"
      using less.prems by (intro less.hyps) simp_all
    then show ?thesis
      using less.prems \<open>e + 2 < 16\<close> by (subst wait_for_dhcp_from.simps) simp
  qed
qed

text \<open>
  C34: a success can come after the Flipper has given up. The Flipper waits thirty seconds for the
  acknowledgement, but the two loops of the daemon may wait thirty-six: on a host that associates and
  gets its address as late as they allow, the connection succeeds after the daemon has slept longer than
  the Flipper waits, and up to then it has not sent any part of an acknowledgement.
\<close>

theorem success_after_the_timeout:
  "\<exists>tr. run_state (wfr_net_connect slow_host (Some plain_creds)) [] = (True, tr)
     \<and> slept tr = 36 \<and> WFR_ACK_TIMEOUT_SEC < slept tr \<and> writes tr = []"
proof -
  let ?c = plain_creds
  have c: "\<not> hidden ?c" "security ?c = 1" "ssid ?c \<noteq> []"
    by (simp_all add: plain_creds_def)
  have finish: "wp (networkd_finish slow_host ''wlan0'') (\<lambda>ok tr'. ok \<and> slept tr' = 36) tr" if "slept tr = 20" for tr
    unfolding networkd_finish_def wait_for_dhcp_def wp_bind wp_run_cmd
    by (rule wp_mono [OF slow_dhcp]) (use that in simp_all)
  have select: "wp (networkd_select slow_host ''wlan0'' ''0'' ?c) (\<lambda>ok tr'. ok \<and> slept tr' = 36) tr" if "slept tr = 0" for tr
    unfolding networkd_select_def wait_for_wpa_association_def
    using that c wp_mono [OF slow_wpa [of "tr @ [Popen (wpa_cmd ''wlan0'' '' select_network 0'')]" 0]] finish by simp
  have "wp (wfr_net_connect slow_host (Some ?c)) (\<lambda>ok tr'. ok \<and> slept tr' = 36) []"
    using c select
    by (simp add: wfr_net_connect_def wfr_net_connect_networkd_def networkd_set_security_def slow_host_managers wfr_const
        networkd_active_def [symmetric])
  moreover obtain ok tr where r: "run_state (wfr_net_connect slow_host (Some ?c)) [] = (ok, tr)"
    by fastforce
  ultimately have "ok" "slept tr = 36"
    using wp_run by fastforce+
  then show ?thesis
    using r effect_run [OF connect_effect r] by (simp add: WFR_ACK_TIMEOUT_SEC_def)
qed

end
