(* ===== verification/Spec2Isabelle.thy ===== *)
theory Spec2Isabelle
  imports Exchange Nfc_Tag Scenes Draw Lifecycle Running_App Rollback
begin

text \<open>
  InfraFi sends WiFi credentials from a Flipper Zero to a headless Linux machine over infrared. The
  repository has two C programs: the Flipper application (\<^verbatim>\<open>flipper/\<close>), which gets credentials from the
  keyboard, from an NFC tag or from its SD card and transmits them, and the daemon \<^verbatim>\<open>infrafid\<close>
  (\<^verbatim>\<open>daemon/\<close>), which receives them, joins the network and answers with an acknowledgement that the
  Flipper shows. This development models both, with the protocol they share, and proves what they
  promise each other.

  The wire. A string \<^verbatim>\<open>WIFI:T:WPA;S:net;P:pw;H:false;;\<close> is sent as a START frame with its length, one
  DATA frame for each byte and an END frame with its CRC-8; a frame is an address byte (magic nibble,
  type, pass) and a command byte, carried by one RC-6 or NEC message. Acknowledgements (\<^verbatim>\<open>OK:\<close> with
  an address, or \<^verbatim>\<open>FAIL\<close>) use the same frames in the other direction.

  The theories, in the order of the program:
  \<^item> \<open>Prelude\<close>: bytes, C strings (\<open>c_str\<close>, \<open>str_trunc\<close> for copies into a char array, \<open>nul_free\<close>), the
    collections \<open>wfr_const\<close> and \<open>wfr_inv\<close>.
  \<^item> \<open>Protocol\<close>, \<open>Crc\<close>, \<open>Wifi_String\<close> (\<^verbatim>\<open>flipper/protocol/wfr_protocol.h\<close> and \<^verbatim>\<open>.c\<close>): constants and
    \<^verbatim>\<open>WfrWifiCreds\<close>; both checksums with their tables, the CRC-8 against polynomial division; building,
    escaping and parsing the string, with the round trip.
  \<^item> \<open>Framing\<close>: the abstract receiver (\<open>spec_feed\<close> on \<open>Idle\<close>, \<open>Receiving\<close>) and the locales
    \<open>frame_decoder\<close> and \<open>timed_decoder\<close> that both decoders interpret; what a complete, lossy, corrupt
    or cut transmission delivers is proved once there.
  \<^item> \<open>Daemon_Decode\<close> (\<^verbatim>\<open>daemon/wfr_decode.c\<close>) and \<open>Ack_Decode\<close> (\<^verbatim>\<open>flipper/wfr_decode.c\<close>): the two
    decoders, their invariants, their timeouts on a clock and on a wrapping 32-bit tick counter.
  \<^item> \<open>Encode\<close> (\<^verbatim>\<open>flipper/wfr_encode.c\<close>): the transmitter as a function to a log of messages, delays and
    progress reports; \<open>complete_log\<close> is the log of a whole transmission, entry by entry. \<open>Link\<close> joins the
    transmitter with the daemon's decoder.
  \<^item> \<open>Os\<close>, \<open>Shell\<close>, \<open>Network\<close>, \<open>Network_Facts\<close> (\<^verbatim>\<open>daemon/wfr_network.c\<close>): system calls as a trace whose
    answers are a parameter (\<open>os_env\<close>), a weakest precondition \<open>wp\<close> and the summary \<open>effect\<close> over it;
    the exact commands for NetworkManager, systemd-networkd and ifupdown, what the shell makes of
    them, and the evidence a reported success rests on (\<open>connected_evidence\<close>, relative to the start of
    the attempt: with NetworkManager that nmcli exited with status 0 or was ended by a signal, which the
    code takes for the same, otherwise an address of the interface the attempt detected). \<open>Rollback\<close>: what
    a failed attempt leaves on the host (\<open>daemon_files\<close>, the files written and not removed, by what the
    host answered), what the rollback undoes of it, and a host on which the attempt succeeds later than
    the Flipper waits.
  \<^item> \<open>Ack_Send\<close> (\<^verbatim>\<open>daemon/wfr_ack.c\<close>), \<open>Receivers\<close> (\<^verbatim>\<open>daemon/wfr_lirc.c\<close>, \<^verbatim>\<open>wfr_evdev.c\<close>; locale
    \<open>scancode_reader\<close>), \<open>Daemon_Main\<close> (\<^verbatim>\<open>daemon/main.c\<close>): the transmitter and receivers of the daemon and
    its main program, with one acknowledgement for each attempt. An arrival of a receiver also says whether
    a signal is handled between the loop's tests of \<^verbatim>\<open>running\<close> around it.
  \<^item> \<open>Nfc\<close>, \<open>Nfc_Tag\<close> (\<^verbatim>\<open>flipper/wfr_nfc.c\<close>): the tag reader over an explicit page memory, where a read
    outside the pages, a loop without end (\<open>OutOfFuel\<close>) and 32-bit wrap-around are visible; a tree of
    attributes is the specification of what a tag says, in each format of record and length that the
    reader knows.
  \<^item> \<open>Storage\<close> (\<^verbatim>\<open>flipper/wfr_storage.c\<close>): saved networks and settings, over the calls of the firmware's
    storage and flipper format; the laws the round trip needs of them are \<open>write_laws\<close> and \<open>read_laws\<close>,
    which the memory card \<open>mem_storage\<close> satisfies.
  \<^item> \<open>Views\<close> (locale \<open>cyclic_selector\<close>), \<open>Status_View\<close>, \<open>Draw\<close> (\<^verbatim>\<open>flipper/views\<close>): models, input handlers,
    and what is drawn, as a list of canvas calls; a table indexed outside its entries (\<open>table_read\<close>) is a
    call of its own, \<open>read_outside\<close>, and \<open>text_inside\<close> takes the width of a text into account.
  \<^item> \<open>App\<close>, \<open>Lifecycle\<close> (\<^verbatim>\<open>flipper/wi_fir.h\<close>, \<^verbatim>\<open>wi_fir.c\<close>): the application's state and what it
    holds from \<^verbatim>\<open>wi_fir_alloc\<close> to \<^verbatim>\<open>wi_fir_free\<close>.
  \<^item> \<open>Ack_Receive\<close>, \<open>Transmit_Scene\<close>, \<open>Scenes\<close> (\<^verbatim>\<open>flipper/scenes\<close>): the receive callback, the transmit
    scene with its worker thread, listener and timer as a step relation over all their interleavings
    (\<open>transmit_reach\<close>, invariant \<open>scene_inv\<close>), and the handlers of the other scenes with the tables that
    dispatch to them.
  \<^item> \<open>Navigation\<close> (\<^verbatim>\<open>flipper/wi_fir.c\<close>): \<^verbatim>\<open>wi_fir_app\<close> and the callbacks through which custom events,
    ticks and Back reach the current scene, over the firmware's scene manager, a parameter \<open>sm\<close> with
    \<open>scene_manager_laws\<close>; and the running application as a step relation \<open>app_reach\<close>: keys go to the view
    that is shown, posted events are handled in order, threads, timers, the NFC poller and the stock
    modules act when they like, and Back comes only when the events of earlier keys have been handled,
    an order of the firmware's dispatcher that the code relies on. A tag on which the reader has no result
    ends the run in \<open>TagFault\<close>, a handler that reads outside a table in \<open>OutOfRange\<close>.
    Its invariant \<open>run_inv\<close> (the paths of scenes, what each scene may own, what the confirmation knows of
    the selected file, which events can be queued) is set up in \<open>Navigation_Facts\<close>, kept by the events in
    \<open>Navigation_Events\<close> and by keys and threads in \<open>Navigation_Reach\<close>; \<open>Running_App\<close> draws the
    properties from it and has the concrete run their witnesses use.
  \<^item> \<open>Exchange\<close> and this theory: both directions together, the way from a tag to the transmission, and
    from the confirmation of the running application to the daemon.

  State and errors. A C struct is a record, a C enumeration a datatype, \<^verbatim>\<open>uint8_t\<close>, \<^verbatim>\<open>uint16_t\<close> and
  \<^verbatim>\<open>uint32_t\<close> are words where they can wrap (\<open>u8\<close> marks a stored \<^verbatim>\<open>uint8_t\<close> kept as a number); an
  early return or a failed call is a branch, with an option, a sum or the C result as its value.
  Callbacks that run on other threads are steps of their own. Calls of the firmware that change what
  the user sees are \<open>requests\<close> recorded in the state.

  Bounds and fuel. Only the tag reader has fuel: it is taken by nested attributes and by each loop, and
  the theorem \<open>nfc_parse_safe\<close> shows that as much fuel as the tag has bytes is enough for every tag
  without two neighbouring bytes FF; \<open>nfc_hangs\<close> shows a tag for which no fuel is. The receive loop
  runs over a finite list of arrivals and ends when the next read would block. Back is pressed at most
  six times in \<open>back_leads_out\<close>, since no path of scenes is longer. The word-sized limits
  (255 payload bytes, 32 and 63 characters, 20 saved networks) are those of the source.

  The properties are numbered C1, C2, ... in the text before each; a theorem with hypotheses is applied
  at a concrete input by the theorem after it that has \<open>_witness\<close> in its name. Properties that record a
  flaw of the code say so: \<open>stale_start_swallowed\<close>, \<open>late_timeout_hides_success\<close>,
  \<open>saved_security_out_of_range\<close>, \<open>networkd_command_injection\<close>, \<open>nfc_hangs\<close>, \<open>nfc_reads_past_tag\<close> and
  \<open>success_after_the_timeout\<close>; so does the lemma \<open>wfr_crc32_not_ethernet\<close> about an unused helper.

  Not modelled: the Flipper firmware (view dispatcher, scene manager, infrared worker, timers, NFC
  poller, canvas), the kernel, NetworkManager, wpa_supplicant and the shell beyond its quoting rules,
  which appear as parameters or as the steps they cause; a scene change is made when the handler that
  asks for it returns, since no handler does anything after asking; log messages, usage and version
  texts; the packaging, service and script files. The web pages under \<^verbatim>\<open>gh-pages\<close> are no part of the two programs.
\<close>

section \<open>There and back\<close>

text \<open>
  C1: the Flipper shows a connection only when the daemon's attempt succeeded. When a transmission completes,
  its frames reach the daemon's loop in order within the window, and what the daemon then writes to its
  transmitter reaches the Flipper's listener within its timeout, the listener posts exactly one event; if
  that is the success event, the one attempt the daemon made for the entered credentials succeeded, on the
  evidence gathered from its start to its end: an address of the interface it detected, or the exit of the
  nmcli command with status 0, or, as the exception, its end by a signal, which the daemon takes for success.
\<close>

theorem exchange_truthful:
  assumes "wf_creds c" and "ssid c \<noteq> []"
    and "wfr_transmit_credentials (Some c) protocol progress \<lparr>tx_log = [], tx_ctx = ctx\<rparr> = (True, st')"
    and "rx_undisturbed rx" and "within_window (rx_heard rx)"
    and "filter (\<lambda>f. frame_magic (fst f)) (map snd (rx_heard rx)) = frames_sent (tx_log st')"
    and "0 \<le> fd" and "\<forall>h sc. env_write_ok env h fd sc"
    and "run_state (main_loop env fd rx wfr_decode_init) tr = (r, tr')"
    and "within_ticks ms (signal_frames sigs)"
    and "filter (\<lambda>f. frame_magic (fst f)) (map snd (signal_frames sigs))
      = drop (length (frames_written tr)) (frames_written tr')"
  shows "\<exists>success tr1. run_state (wfr_net_connect env (Some (c\<lparr>security := norm_security (security c)\<rparr>)))
        (attempt_start env tr) = (success, tr1)
    \<and> prefix tr (attempt_start env tr) \<and> prefix tr1 tr'
    \<and> (\<exists>e \<in> {WiFirCustomEventAckSuccess, WiFirCustomEventAckFail}.
        posted (listen ms sigs start_listening) = [e]
        \<and> (e = WiFirCustomEventAckSuccess \<longrightarrow> success
             \<and> connected_evidence env (attempt_start env tr) (c\<lparr>security := norm_security (security c)\<rparr>) tr1))"
proof -
  let ?c = "c\<lparr>security := norm_security (security c)\<rparr>"
  obtain success tr1 ip where con: "run_state (wfr_net_connect env (Some ?c)) (attempt_start env tr) = (success, tr1)"
    and pre: "prefix tr1 tr'"
    and fw: "frames_written tr' = frames_written tr @ wfr_frames 0 (map byte_of_char (ack_payload success ip))"
    and ip: "\<forall>s. ip = Some s \<longrightarrow> s \<noteq> [] \<and> length s \<le> 31"
    using loop_acknowledges [OF assms(1-9)] by (elim exE conjE)
  have p: "posted (listen ms sigs start_listening) = [ack_event (ack_payload success ip)]"
    using assms(11) fw ack_payload_short [OF ip] listen_one(1) [OF _ _ assms(10) _ start_listening_sel(1)] by simp
  have ev: "success \<longrightarrow> connected_evidence env (attempt_start env tr) ?c tr1"
    using effect_run [OF connect_effect con] by (elim conjE)
  have ack: "ack_event (ack_payload success ip) = WiFirCustomEventAckSuccess \<longrightarrow> success
      \<and> connected_evidence env (attempt_start env tr) ?c tr1"
    using ev by (intro impI) (frule ack_event_success, simp)
  show ?thesis
    using con pre attempt_start_effect [of tr env] ack p
    by (intro exI conjI bexI [OF _ ack_event_kinds]) simp_all
qed

theorem exchange_truthful_witness:
  "\<exists>r tr' tr1. run_state (main_loop home_host 4 home_rx wfr_decode_init) [] = (r, tr')
     \<and> posted (listen of_nat (home_signals tr') start_listening) = [WiFirCustomEventAckSuccess]
     \<and> run_state (wfr_net_connect home_host (Some short_creds)) (attempt_start home_host []) = (True, tr1)
     \<and> nmcli_ran exited_with_0 home_host short_creds (attempt_start home_host []) tr1"
proof -
  obtain r tr' where run: "run_state (main_loop home_host 4 home_rx wfr_decode_init) [] = (r, tr')"
    by fastforce
  obtain st' where st: "wfr_transmit_credentials (Some short_creds) WfrIrProtocolRC6 (None :: unit progress option)
     \<lparr>tx_log = [], tx_ctx = ()\<rparr> = (True, st')"
    "filter (\<lambda>f. frame_magic (fst f)) (map snd (rx_heard home_rx)) = frames_sent (tx_log st')"
    using home_exchange(1) by blast
  note p = home_posts_success [OF run]
  obtain tr1 where "run_state (wfr_net_connect home_host (Some short_creds)) (attempt_start home_host []) = (True, tr1)"
    "connected_evidence home_host (attempt_start home_host []) short_creds tr1"
    using exchange_truthful [OF short_creds_wf st(1) home_exchange(2,3) st(2) four home_exchange(4) run
        home_exchange(5) home_heard [OF run]]
    unfolding short_creds_norm p by auto
  with run p show ?thesis unfolding home_host_evidence by (intro exI conjI)
qed

lemma ack_result_text_kept:
  "ack_result_text (ask req app) = ack_result_text app"
  "ack_result_text (wi_fir_stop_ack_listener app) = ack_result_text app"
  by (simp_all add: ask_def wi_fir_stop_ack_listener_def Let_def)

text \<open>The application when the transmission of \<open>short_creds\<close> has ended well.\<close>

definition sent_short :: "card WiFirApp" where
  "sent_short = (zero_app empty_card)\<lparr>tx_thread := Some TxEnded, tx_ok := True, ack_enabled := True,
     tx_creds := short_creds\<rparr>"

text \<open>
  C2: the Flipper's screen reports the daemon's result. When the transmit scene's worker has sent the
  credentials and acknowledgements are enabled, and both directions are heard in time, exactly one event is
  posted, and handling it shows "Connected" with the address when the connection attempt succeeded and an
  address was found, and "Join failed" with a retry otherwise, also when the connection succeeded but
  has no address.
\<close>

theorem exchange_reports_result:
  assumes "tx_thread app = Some TxEnded" and "tx_ok app" and "ack_enabled app" and "posted app = []"
    and "tx_creds app = c" and "wf_creds c" and "ssid c \<noteq> []"
    and "wfr_transmit_credentials (Some c) (ir_protocol app) progress \<lparr>tx_log = [], tx_ctx = ctx\<rparr> = (True, st')"
    and "rx_undisturbed rx" and "within_window (rx_heard rx)"
    and "filter (\<lambda>f. frame_magic (fst f)) (map snd (rx_heard rx)) = frames_sent (tx_log st')"
    and "0 \<le> fd" and "\<forall>h sc. env_write_ok env h fd sc"
    and "run_state (wfr_net_get_current env (WFR_SSID_MAX_LEN + 1)) tr = (current, tr1)"
    and "run_state (wfr_net_connect env (Some (c\<lparr>security := norm_security (security c)\<rparr>))) tr1 = (ok, tr2)"
    and "run_state (wfr_net_get_ip env [] 32) tr2 = ((found, ip), tr3)"
    and "run_state (main_loop env fd rx wfr_decode_init) tr = (r, tr')"
    and "wi_fir_scene_transmit_on_event store late (SceneManagerEventTypeCustom WiFirCustomEventTxFinished) app
      = (used, listening)"
    and "within_ticks ms (signal_frames sigs)"
    and "filter (\<lambda>f. frame_magic (fst f)) (map snd (signal_frames sigs))
      = drop (length (frames_written tr)) (frames_written tr')"
  shows "\<exists>e shown. posted (listen ms sigs listening) = [e]
    \<and> wi_fir_scene_transmit_on_event store late (SceneManagerEventTypeCustom e)
        ((listen ms sigs listening)\<lparr>posted := []\<rparr>) = (True, shown)
    \<and> (if ok \<and> ip \<noteq> []
       then status_mode (status shown) = WfrStatusModeConnected \<and> line1 (status shown) = ip
       else status_mode (status shown) = WfrStatusModeResult \<and> title (status shown) = ''Join failed''
         \<and> retry_allowed shown)"
proof -
  have "run_state (handle_credentials env fd (wifi_string c)) tr = ((), tr')"
    by (rule loop_handles_transmission [OF assms(6-11,17)])
  from wp_run [OF handle_credentials_frames [OF assms(12,13) parse_wifi_string [OF assms(6,7)] assms(14-16)] this]
  have frames: "filter (\<lambda>f. frame_magic (fst f)) (map snd (signal_frames sigs)) = wfr_frames 0 (map byte_of_char (reply ok ip))"
    using assms(20) by simp
  have ip: "nul_free ip" "length ip \<le> 31"
    using get_ip_text [OF assms(16)] by simp_all
  then have short: "reply ok ip \<noteq> []" "length (reply ok ip) \<le> 255"
    by (auto simp: reply_def ack_payload_def wfr_const)
  have l: "listening = wi_fir_on_tx_finished store late app"
    using assms(18) by (simp add: wi_fir_scene_transmit_on_event_def transmit_on_custom_def)
  note start = on_tx_finished_listens [OF assms(1-3), of store late, folded l]
    on_tx_finished_sel(2) [OF assms(1), of store late, folded l]
  have "posted (listen ms sigs listening) = [ack_event (reply ok ip)]"
    "ack_result_text (listen ms sigs listening) = (if ok then ip else [])"
    using listen_one [OF short assms(19) frames start(1)] start ack_reply(2) [OF ip] assms(4) by simp_all
  then show ?thesis
    using ack_reply(1) [OF ip(1)] ip(2)
    by (simp add: wi_fir_scene_transmit_on_event_def transmit_on_custom_def Let_def wi_fir_show_failure_def
        wfr_status_view_set_result_def wfr_status_view_set_connected_def ack_result_text_kept)
qed

theorem exchange_reports_result_witness:
  "\<exists>r tr' e shown. run_state (main_loop home_host 4 home_rx wfr_decode_init) [] = (r, tr')
     \<and> posted (listen of_nat (home_signals tr') (wi_fir_on_tx_finished mem_storage True sent_short)) = [e]
     \<and> wi_fir_scene_transmit_on_event mem_storage True (SceneManagerEventTypeCustom e)
         ((listen of_nat (home_signals tr') (wi_fir_on_tx_finished mem_storage True sent_short))\<lparr>posted := []\<rparr>)
         = (True, shown)
     \<and> status_mode (status shown) = WfrStatusModeConnected \<and> line1 (status shown) = ''10.0.0.7''"
proof -
  obtain r tr' where run: "run_state (main_loop home_host 4 home_rx wfr_decode_init) [] = (r, tr')"
    by fastforce
  obtain st' where st: "wfr_transmit_credentials (Some short_creds) WfrIrProtocolRC6 (None :: unit progress option)
     \<lparr>tx_log = [], tx_ctx = ()\<rparr> = (True, st')"
    "filter (\<lambda>f. frame_magic (fst f)) (map snd (rx_heard home_rx)) = frames_sent (tx_log st')"
    using home_exchange(1) by blast
  obtain current tr1 where 1: "run_state (wfr_net_get_current home_host (WFR_SSID_MAX_LEN + 1)) [] = (current, tr1)"
    using home_host_facts(1) by blast
  obtain tr2 where "run_state (wfr_net_connect home_host (Some short_creds)) tr1 = (True, tr2)"
    using home_host_facts(2) by blast
  moreover note short_creds_norm
  ultimately have 2: "run_state (wfr_net_connect home_host
      (Some (short_creds\<lparr>security := norm_security (security short_creds)\<rparr>))) tr1 = (True, tr2)"
    by metis
  obtain found tr3 where 3: "run_state (wfr_net_get_ip home_host [] 32) tr2 = ((found, ''10.0.0.7''), tr3)"
    using home_host_facts(3) by blast
  have app: "tx_thread sent_short = Some TxEnded" "tx_ok sent_short" "ack_enabled sent_short" "posted sent_short = []"
    "tx_creds sent_short = short_creds" "ir_protocol sent_short = WfrIrProtocolRC6"
    by (simp_all add: sent_short_def zero_app_def)
  have ev: "wi_fir_scene_transmit_on_event mem_storage True
      (SceneManagerEventTypeCustom WiFirCustomEventTxFinished) sent_short
      = (True, wi_fir_on_tx_finished mem_storage True sent_short)"
    by (simp add: wi_fir_scene_transmit_on_event_def transmit_on_custom_def)
  have "\<exists>e shown. posted (listen of_nat (home_signals tr') (wi_fir_on_tx_finished mem_storage True sent_short)) = [e]
     \<and> wi_fir_scene_transmit_on_event mem_storage True (SceneManagerEventTypeCustom e)
         ((listen of_nat (home_signals tr') (wi_fir_on_tx_finished mem_storage True sent_short))\<lparr>posted := []\<rparr>)
         = (True, shown)
     \<and> (if True \<and> ''10.0.0.7'' \<noteq> []
        then status_mode (status shown) = WfrStatusModeConnected \<and> line1 (status shown) = ''10.0.0.7''
        else status_mode (status shown) = WfrStatusModeResult \<and> title (status shown) = ''Join failed''
          \<and> retry_allowed shown)"
    by (rule exchange_reports_result [OF app(1-5) short_creds_wf st(1) [folded app(6)] home_exchange(2,3) st(2) four
        home_exchange(4) 1 2 3 run ev home_exchange(5) home_heard [OF run]])
  with run show ?thesis by auto
qed

section \<open>From a tag to the transmission\<close>

lemma tag_wf:
  assumes "wfr_nfc_parse_wifi_tag fuel (Some mem) n (Some c) = Ret (True, Some c')" and "wf_creds c"
  shows "wf_creds c'"
  using assms tlvs_wf by (auto simp: wfr_nfc_parse_wifi_tag_def rd_def andthen_Ret split: prod.splits if_splits)

text \<open>
  C16: the credentials on a tag are the ones transmitted. After a read of a tag that starts with a WiFi
  record, in any of the formats the parser knows, whose attributes name an SSID, the poller's callback
  posts the event that leads the scan scene to the confirmation, which shows the tag's SSID and security
  type, and confirming it starts the transmit scene with exactly the credentials the tag's attributes mean.
\<close>

theorem tag_credentials_sent:
  assumes "length head = 16" "head ! 12 = 0xE1" "record_ok F ws" "list_all wsc_ok ws"
    and "length rest < 100000" "4 * n = length (wifi_tag head F ws rest)" "length (wsc_bytes ws) < fuel"
    and "fold wsc_apply ws (zero_creds, False) = (c', True)" and "wf_creds (nfc_creds app)"
  shows "\<exists>read found asked confirmed sending.
      wi_fir_nfc_poller_callback (fuel + 2) (MfUltralightPollerEventTypeReadSuccess (wifi_tag head F ws rest) n) app
        = Ret ((NfcCommandStop, False, False), read)
    \<and> posted read = posted app @ [WiFirCustomEventNfcWifiFound]
    \<and> scene_on_event env ok WiFirSceneScanNfc (SceneManagerEventTypeCustom WiFirCustomEventNfcWifiFound) read = (True, found)
    \<and> last (requests found) = NextScene WiFirSceneConfirm
    \<and> scene_on_enter env version ok WiFirSceneConfirm (scene_on_exit ok WiFirSceneScanNfc found) = Some asked
    \<and> conf_ssid (confirm asked) = ssid c' \<and> conf_security (confirm asked) = security c'
    \<and> scene_on_event env ok WiFirSceneConfirm (SceneManagerEventTypeCustom WiFirCustomEventConfirmSend) asked = (True, confirmed)
    \<and> last (requests confirmed) = NextScene WiFirSceneTransmit
    \<and> scene_on_enter env version ok WiFirSceneTransmit (scene_on_exit ok WiFirSceneConfirm confirmed) = Some sending
    \<and> tx_creds sending = c'"
proof -
  have parse: "wfr_nfc_parse_wifi_tag (fuel + 2) (Some (wifi_tag head F ws rest)) n (Some (nfc_creds app)) = Ret (True, Some c')"
    using wifi_tag_parse [OF assms(1-8), of "nfc_creds app"] by simp
  have wf: "length (ssid c') \<le> WFR_SSID_MAX_LEN" "length (password c') \<le> WFR_PASS_MAX_LEN"
    using tag_wf [OF parse assms(9)] by (simp_all add: wf_creds_def)
  let ?read = "post WiFirCustomEventNfcWifiFound (app\<lparr>nfc_creds := c'\<rparr>)"
  have "wi_fir_nfc_poller_callback (fuel + 2) (MfUltralightPollerEventTypeReadSuccess (wifi_tag head F ws rest) n) app
      = Ret ((NfcCommandStop, False, False), ?read)"
    unfolding wi_fir_nfc_poller_callback_def MfUltralightPollerEvent.case parse by simp
  then show ?thesis
    using wf
    by - (rule exI [of _ ?read], simp add: scene_tables wi_fir_scene_scan_nfc_on_event_def post_def
        wi_fir_scene_confirm_on_event_def wi_fir_scene_confirm_on_enter_def wi_fir_scene_confirm_on_exit_def
        wfr_confirm_view_set_data_def wi_fir_scene_scan_nfc_on_exit_def wi_fir_nfc_stop_def take_creds_def
        enter_tx_creds Let_def)
qed

theorem tag_credentials_sent_witness:
  "\<exists>read found asked confirmed sending. wi_fir_nfc_poller_callback (50 + 2)
       (MfUltralightPollerEventTypeReadSuccess (wifi_tag tag_header long_format sample_wsc [0xFE, 0]) 19) (zero_app empty_card)
       = Ret ((NfcCommandStop, False, False), read)
     \<and> posted read = [WiFirCustomEventNfcWifiFound]
     \<and> scene_on_event mem_storage True WiFirSceneScanNfc (SceneManagerEventTypeCustom WiFirCustomEventNfcWifiFound) read
         = (True, found)
     \<and> scene_on_enter mem_storage ''1'' True WiFirSceneConfirm (scene_on_exit True WiFirSceneScanNfc found) = Some asked
     \<and> conf_ssid (confirm asked) = ''net'' \<and> conf_security (confirm asked) = WFR_SEC_WPA
     \<and> scene_on_event mem_storage True WiFirSceneConfirm (SceneManagerEventTypeCustom WiFirCustomEventConfirmSend) asked
         = (True, confirmed)
     \<and> scene_on_enter mem_storage ''1'' True WiFirSceneTransmit (scene_on_exit True WiFirSceneConfirm confirmed) = Some sending
     \<and> tx_creds sending = \<lparr>ssid = ''net'', password = ''pw'', security = WFR_SEC_WPA, hidden = False\<rparr>"
proof -
  have c: "wf_creds (nfc_creds (zero_app empty_card))" "posted (zero_app empty_card) = []"
    by (simp_all add: zero_app_def zero_creds_def wf_creds_def)
  have h: "length tag_header = 16" "tag_header ! 12 = 0xE1"
    by (simp_all add: tag_header_def)
  have n: "length ([0xFE, 0] :: byte list) < 100000" "4 * 19 = length (wifi_tag tag_header long_format sample_wsc [0xFE, 0])"
    "length (wsc_bytes sample_wsc) < 50"
    by (simp_all add: format_facts sample_wsc_facts)
  have s: "ssid sample_result = ''net''" "security sample_result = WFR_SEC_WPA"
    "sample_result = \<lparr>ssid = ''net'', password = ''pw'', security = WFR_SEC_WPA, hidden = False\<rparr>"
    by (simp_all add: sample_result_def zero_creds_def)
  obtain read found asked confirmed sending where t: "wi_fir_nfc_poller_callback (50 + 2)
       (MfUltralightPollerEventTypeReadSuccess (wifi_tag tag_header long_format sample_wsc [0xFE, 0]) 19) (zero_app empty_card)
       = Ret ((NfcCommandStop, False, False), read)"
    "posted read = posted (zero_app empty_card) @ [WiFirCustomEventNfcWifiFound]"
    "scene_on_event mem_storage True WiFirSceneScanNfc (SceneManagerEventTypeCustom WiFirCustomEventNfcWifiFound) read = (True, found)"
    "scene_on_enter mem_storage ''1'' True WiFirSceneConfirm (scene_on_exit True WiFirSceneScanNfc found) = Some asked"
    "conf_ssid (confirm asked) = ssid sample_result" "conf_security (confirm asked) = security sample_result"
    "scene_on_event mem_storage True WiFirSceneConfirm (SceneManagerEventTypeCustom WiFirCustomEventConfirmSend) asked
       = (True, confirmed)"
    "scene_on_enter mem_storage ''1'' True WiFirSceneTransmit (scene_on_exit True WiFirSceneConfirm confirmed) = Some sending"
    "tx_creds sending = sample_result"
    using tag_credentials_sent [OF h format_facts(2) sample_wsc_facts(2) n sample_wsc_facts(3) c(1),
        of mem_storage True "''1''"] by (elim exE conjE)
  have "posted read = [WiFirCustomEventNfcWifiFound]" "conf_ssid (confirm asked) = ''net''"
    "conf_security (confirm asked) = WFR_SEC_WPA"
    "tx_creds sending = \<lparr>ssid = ''net'', password = ''pw'', security = WFR_SEC_WPA, hidden = False\<rparr>"
    using t(2,5,6,9) c(2) s by simp_all
  then show ?thesis
    by (intro exI [of _ read] exI [of _ found] exI [of _ asked] exI [of _ confirmed] exI [of _ sending] conjI t(1,3,4,7,8))
qed

section \<open>From the confirmation to the daemon\<close>

text \<open>
  C3: the network the user confirmed is the network the daemon is asked to join. In every reachable state
  of the running application whose next event is Send on the confirmation scene: when the transmission
  that handling it starts completes, and its frames reach the daemon's decoder in order within the
  window, mixed with foreign traffic, exactly one payload is delivered, and parsing it gives the SSID,
  security type (a type above 3 arrives as an open network) and hidden flag that the confirmation shows,
  and a password if and only if it shows one.
\<close>

theorem confirmed_network_arrives:
  assumes "scene_manager_laws sm" and "app_reach sm env version ms (Running m app)"
    and "sm_stack sm m = WiFirSceneConfirm # st" and "posted app = WiFirCustomEventConfirmSend # rest"
    and "app_ssid app \<noteq> []" and "nul_free (app_ssid app)" and "nul_free (app_password app)"
    and "wi_fir_custom_event_callback sm env version ok WiFirCustomEventConfirmSend m (app\<lparr>posted := rest\<rparr>)
      = (consumed, Running m' sending)"
    and "wfr_transmit_credentials (Some (tx_creds sending)) (ir_protocol sending) progress \<lparr>tx_log = [], tx_ctx = ctx\<rparr>
      = (True, st')"
    and "decoder_reach dec" and "within_window fs" and "pending_near fs dec"
    and "filter (\<lambda>f. frame_magic (fst f)) (map snd fs) = frames_sent (tx_log st')"
  shows "map wfr_parse_wifi_string (snd (feed_all wfr_decode_feed_scancode dec fs 256))
      = [Some \<lparr>ssid = conf_ssid (confirm app), password = app_password app,
          security = norm_security (conf_security (confirm app)), hidden = conf_hidden (confirm app)\<rparr>]
    \<and> (app_password app \<noteq> [] \<longleftrightarrow> conf_has_password (confirm app))"
proof -
  obtain c where c: "tx_creds sending = c" "c = \<lparr>ssid = conf_ssid (confirm app), password = app_password app,
      security = conf_security (confirm app), hidden = conf_hidden (confirm app)\<rparr>"
    "app_password app \<noteq> [] \<longleftrightarrow> conf_has_password (confirm app)" "wf_creds c" "ssid c \<noteq> []"
    by (rule confirmed_send [OF assms(1-4), where ok = ok]) (use assms(5-8) in \<open>simp add: wf_creds_def\<close>)
  from creds_delivered [OF c(4,5) assms(9) [unfolded c(1)] assms(10-13)] c(2,3) show ?thesis
    by simp
qed

lemma demo_password: "app_password demo_at_confirm = ''home''"
  by (simp add: demo_at_confirm_def wi_fir_scene_confirm_on_enter_def take_creds_def demo_creds_def ask_def wfr_const)

theorem confirmed_network_arrives_witness:
  "\<exists>m' sending st'. wi_fir_custom_event_callback stack_manager demo_storage ''1'' True WiFirCustomEventConfirmSend
       [WiFirSceneConfirm, WiFirSceneSaved, WiFirSceneMainMenu] demo_at_confirm = (True, Running m' sending)
     \<and> wfr_transmit_credentials (Some (tx_creds sending)) (ir_protocol sending) (None :: unit progress option)
         \<lparr>tx_log = [], tx_ctx = ()\<rparr> = (True, st')
     \<and> map wfr_parse_wifi_string (snd (feed_all wfr_decode_feed_scancode wfr_decode_init
           (heard_at \<lparr>tv_sec = 9, tv_nsec = 0\<rparr> (frames_sent (tx_log st'))) 256)) = [Some demo_creds]"
proof -
  let ?app = "post WiFirCustomEventConfirmSend demo_at_confirm"
  have q: "posted ?app = WiFirCustomEventConfirmSend # []" "?app\<lparr>posted := []\<rparr> = demo_at_confirm"
    using posted_same [OF demo_confirm_fields(1)] by (simp_all add: post_def demo_confirm_fields)
  have f: "app_ssid ?app = ''home''" "app_password ?app = ''home''" "confirm ?app = confirm demo_at_confirm"
    by (simp_all add: post_def demo_confirm_fields demo_password)
  obtain m' sending where s: "wi_fir_custom_event_callback stack_manager demo_storage ''1'' True WiFirCustomEventConfirmSend
       [WiFirSceneConfirm, WiFirSceneSaved, WiFirSceneMainMenu] (?app\<lparr>posted := []\<rparr>) = (True, Running m' sending)"
    "tx_creds sending = demo_creds"
    by (rule confirmed_send [OF stack_manager_laws demo_reach_send [of "''1''" of_nat] stack_manager_sel(1) q(1), where ok = True])
      (simp add: f demo_confirm_fields demo_creds_def)
  obtain sent st' where t: "wfr_transmit_credentials (Some demo_creds) (ir_protocol sending) (None :: unit progress option)
       \<lparr>tx_log = [], tx_ctx = ()\<rparr> = (sent, st')"
    by fastforce
  have d: "wf_creds demo_creds" "ssid demo_creds \<noteq> []" "never_cancels (None :: unit progress option)"
    by (simp_all add: demo_creds_def wf_creds_def nul_free_def wfr_const never_cancels_def)
  note c = transmit_complete [OF d t]
  have "filter (\<lambda>f. frame_magic (fst f)) (map snd (heard_at \<lparr>tv_sec = 9, tv_nsec = 0\<rparr> (frames_sent (tx_log st'))))
      = frames_sent (tx_log st')"
    using c(2) by simp
  from confirmed_network_arrives [OF stack_manager_laws demo_reach_send [of "''1''" of_nat] stack_manager_sel(1) q(1) _ _ _ s(1)
      t [folded s(2), unfolded eqTrueI [OF c(1)]] decoder_reach.init within_window_heard_at pending_near_init this]
  show ?thesis
    using s t c(1) q(2) by (auto simp: f demo_confirm_fields demo_creds_def norm_security_def wfr_const nul_free_def)
qed

end
